(* ===== verification/Chat_Prelude.thy ===== *)
theory Chat_Prelude
  imports Main "HOL-Library.Word" "HOL-Library.Monad_Syntax"
begin

text \<open>
  What every theory of the development shares: the names of the machine types, the passage
  between \<^verbatim>\<open>char\<close> and \<^verbatim>\<open>std::uint8_t\<close>, the collections of rewrite rules and a few generic
  facts on lists and options.

  A \<^verbatim>\<open>std::string\<close> is a sequence of bytes, so it is a \<^typ>\<open>string\<close> (a list of the 256
  values of type \<^typ>\<open>char\<close>); a \<^verbatim>\<open>std::vector<std::uint8_t>\<close> is a list of 8-bit words;
  fixed-width integers are words of that width, a \<^verbatim>\<open>std::int64_t\<close> is a 64-bit word read by
  \<^const>\<open>sint\<close> where its sign matters; a \<^verbatim>\<open>std::size_t\<close> that only counts or indexes a
  container is a \<^typ>\<open>nat\<close>.
\<close>

unbundle bit_operations_syntax

section \<open>Machine types\<close>

type_synonym u8 = "8 word"
type_synonym u16 = "16 word"
type_synonym u32 = "32 word"
type_synonym u64 = "64 word"
type_synonym i64 = "64 word"

section \<open>Collections of rewrite rules\<close>

named_theorems byte_simps \<open>passage between char and uint8_t\<close>
named_theorems codec_simps \<open>evaluation of the take and append helpers of protocol.cpp\<close>
named_theorems string_simps \<open>std::string operations\<close>
named_theorems registry_simps \<open>operations on the table of connected clients\<close>
named_theorems effect_simps \<open>what an effect list sends, and to whom\<close>
named_theorems db_simps \<open>operations of ChatDatabase under the documented engine\<close>

section \<open>char and uint8_t\<close>

definition u8_of_char :: "char \<Rightarrow> u8" where
  "u8_of_char c = word_of_nat (of_char c)"

definition char_of_u8 :: "u8 \<Rightarrow> char" where
  "char_of_u8 w = char_of (unat w)"

lemma of_char_less_256 [simp]: "(of_char c :: nat) < 256"
  by (cases c) (auto simp: of_char_def horner_sum_simps split: if_splits)

lemma u8_of_char_of_u8 [simp, byte_simps]: "u8_of_char (char_of_u8 w) = w"
proof -
  have "unat w < 256" using unsigned_less [of w, where 'a = nat] by simp
  then show ?thesis
    by (simp add: u8_of_char_def char_of_u8_def)
qed

lemma char_of_u8_of_char [simp, byte_simps]: "char_of_u8 (u8_of_char c) = c"
  by (simp add: u8_of_char_def char_of_u8_def unat_of_nat)

lemma map_u8_of_char_of_u8 [simp, byte_simps]: "map (\<lambda>w. u8_of_char (char_of_u8 w)) ws = ws"
  by (induction ws) simp_all

lemma map_u8_of_char_eq_iff: "map u8_of_char s = ws \<longleftrightarrow> s = map char_of_u8 ws"
  by (auto simp: comp_def)

lemma u8_of_char_inj: "u8_of_char c = u8_of_char d \<Longrightarrow> c = d"
  by (metis char_of_u8_of_char)

section \<open>Lists\<close>

lemma take_drop_append_exact [simp]:
  "take (length ys) (drop (length xs) (xs @ ys @ zs)) = ys"
  by simp

lemma nth_append_right_numeral:
  "(xs @ ys) ! (length xs + i) = ys ! i"
  by (simp add: nth_append)

lemma take_eq_decompose:
  "n \<le> length xs \<Longrightarrow> \<exists>ys zs. xs = ys @ zs \<and> length ys = n"
  by (metis append_take_drop_id length_take min.absorb2)

lemma list_eq_len_cases4:
  "length xs = 4 \<longleftrightarrow> (\<exists>a b c d. xs = [a, b, c, d])"
  by (auto simp: numeral_eq_Suc length_Suc_conv)

section \<open>Options\<close>

lemma bind_eq_SomeE [elim!]:
  assumes "Option.bind m f = Some y"
  obtains x where "m = Some x" "f x = Some y"
  using assms by (cases m) auto

end
