(* ===== verification/Sha256.thy ===== *)
theory Sha256
  imports Chat_Prelude
begin

text \<open>
  sha256.cpp: the padding loop, the message schedule, the 64 rounds and the hexadecimal
  rendering of \<^verbatim>\<open>sha256_hex\<close>, on 32-bit words.
\<close>

section \<open>Constants\<close>

definition kRoundConstants :: "u32 list" where
  "kRoundConstants =
     [0x428a2f98, 0x71374491, 0xb5c0fbcf, 0xe9b5dba5, 0x3956c25b, 0x59f111f1, 0x923f82a4, 0xab1c5ed5] @
     [0xd807aa98, 0x12835b01, 0x243185be, 0x550c7dc3, 0x72be5d74, 0x80deb1fe, 0x9bdc06a7, 0xc19bf174] @
     [0xe49b69c1, 0xefbe4786, 0x0fc19dc6, 0x240ca1cc, 0x2de92c6f, 0x4a7484aa, 0x5cb0a9dc, 0x76f988da] @
     [0x983e5152, 0xa831c66d, 0xb00327c8, 0xbf597fc7, 0xc6e00bf3, 0xd5a79147, 0x06ca6351, 0x14292967] @
     [0x27b70a85, 0x2e1b2138, 0x4d2c6dfc, 0x53380d13, 0x650a7354, 0x766a0abb, 0x81c2c92e, 0x92722c85] @
     [0xa2bfe8a1, 0xa81a664b, 0xc24b8b70, 0xc76c51a3, 0xd192e819, 0xd6990624, 0xf40e3585, 0x106aa070] @
     [0x19a4c116, 0x1e376c08, 0x2748774c, 0x34b0bcb5, 0x391c0cb3, 0x4ed8aa4a, 0x5b9cca4f, 0x682e6ff3] @
     [0x748f82ee, 0x78a5636f, 0x84c87814, 0x8cc70208, 0x90befffa, 0xa4506ceb, 0xbef9a3f7, 0xc67178f2]"

definition kInitialHash :: "u32 list" where
  "kInitialHash = [
    0x6a09e667, 0xbb67ae85, 0x3c6ef372, 0xa54ff53a,
    0x510e527f, 0x9b05688c, 0x1f83d9ab, 0x5be0cd19]"

definition rotr :: "u32 \<Rightarrow> nat \<Rightarrow> u32" where
  "rotr value bits = drop_bit bits value OR push_bit (32 - bits) value"

section \<open>Padding\<close>

text \<open>\<^verbatim>\<open>while (message.size() % 64 != 56) message.push_back(0x00);\<close>\<close>

function sha_pad_zeros :: "u8 list \<Rightarrow> u8 list" where
  "sha_pad_zeros message =
     (if length message mod 64 \<noteq> 56 then sha_pad_zeros (message @ [0]) else message)"
  by pat_completeness auto
termination
proof (relation "measure (\<lambda>m. let r = length m mod 64 in if r \<le> 56 then 56 - r else 120 - r)")
  fix message :: "u8 list"
  assume "length message mod 64 \<noteq> 56"
  moreover have "length message mod 64 < 64" by simp
  ultimately show "(message @ [0], message)
      \<in> measure (\<lambda>m. let r = length m mod 64 in if r \<le> 56 then 56 - r else 120 - r)"
    by (auto simp add: mod_Suc Let_def split: if_splits)
qed simp

declare sha_pad_zeros.simps [simp del]

definition sha_bit_length_bytes :: "u64 \<Rightarrow> u8 list" where
  "sha_bit_length_bytes bit_length =
     map (\<lambda>i. ucast (drop_bit (i * 8) bit_length AND 0xFF)) [7, 6, 5, 4, 3, 2, 1, 0]"

definition sha_message :: "string \<Rightarrow> u8 list" where
  "sha_message input =
     (let message = map u8_of_char input;
          bit_length = (of_nat (length message) :: u64) * 8
      in sha_pad_zeros (message @ [0x80]) @ sha_bit_length_bytes bit_length)"

section \<open>Message schedule\<close>

definition be_word :: "u8 list \<Rightarrow> nat \<Rightarrow> u32" where
  "be_word message p =
     push_bit 24 (ucast (message ! p)) OR push_bit 16 (ucast (message ! (p + 1))) OR
     push_bit 8 (ucast (message ! (p + 2))) OR ucast (message ! (p + 3))"

definition schedule_init :: "u8 list \<Rightarrow> nat \<Rightarrow> u32 list" where
  "schedule_init message offset = map (\<lambda>i. be_word message (offset + i * 4)) [0..<16]"

text \<open>The array \<^verbatim>\<open>w\<close> has 64 cells; the loop for \<open>i = 16 .. 63\<close> fills the next one.\<close>

definition schedule_step :: "u32 list \<Rightarrow> nat \<Rightarrow> u32 list" where
  "schedule_step w i =
     (let s0 = rotr (w ! (i - 15)) 7 XOR rotr (w ! (i - 15)) 18 XOR drop_bit 3 (w ! (i - 15));
          s1 = rotr (w ! (i - 2)) 17 XOR rotr (w ! (i - 2)) 19 XOR drop_bit 10 (w ! (i - 2))
      in w[i := w ! (i - 16) + s0 + w ! (i - 7) + s1])"

definition sha_schedule :: "u8 list \<Rightarrow> nat \<Rightarrow> u32 list" where
  "sha_schedule message offset =
     foldl schedule_step (schedule_init message offset @ replicate 48 0) [16..<64]"

section \<open>Rounds\<close>

record sha_vars =
  va :: u32
  vb :: u32
  vc :: u32
  vd :: u32
  ve :: u32
  vf :: u32
  vg :: u32
  vh :: u32

definition sha_round :: "u32 list \<Rightarrow> sha_vars \<Rightarrow> nat \<Rightarrow> sha_vars" where
  "sha_round w s i =
     (let S1 = rotr (ve s) 6 XOR rotr (ve s) 11 XOR rotr (ve s) 25;
          ch = (ve s AND vf s) XOR (NOT (ve s) AND vg s);
          temp1 = vh s + S1 + ch + kRoundConstants ! i + w ! i;
          S0 = rotr (va s) 2 XOR rotr (va s) 13 XOR rotr (va s) 22;
          maj = (va s AND vb s) XOR (va s AND vc s) XOR (vb s AND vc s);
          temp2 = S0 + maj
      in \<lparr>va = temp1 + temp2, vb = va s, vc = vb s, vd = vc s,
          ve = vd s + temp1, vf = ve s, vg = vf s, vh = vg s\<rparr>)"

definition sha_block :: "u8 list \<Rightarrow> u32 list \<Rightarrow> nat \<Rightarrow> u32 list" where
  "sha_block message hash offset =
     (let w = sha_schedule message offset;
          s = foldl (sha_round w)
                \<lparr>va = hash ! 0, vb = hash ! 1, vc = hash ! 2, vd = hash ! 3,
                 ve = hash ! 4, vf = hash ! 5, vg = hash ! 6, vh = hash ! 7\<rparr> [0..<64]
      in [hash ! 0 + va s, hash ! 1 + vb s, hash ! 2 + vc s, hash ! 3 + vd s,
          hash ! 4 + ve s, hash ! 5 + vf s, hash ! 6 + vg s, hash ! 7 + vh s])"

text \<open>\<^verbatim>\<open>for (offset = 0; offset < message.size(); offset += 64)\<close>\<close>

function sha_blocks :: "u8 list \<Rightarrow> u32 list \<Rightarrow> nat \<Rightarrow> u32 list" where
  "sha_blocks message hash offset =
     (if offset < length message
      then sha_blocks message (sha_block message hash offset) (offset + 64)
      else hash)"
  by pat_completeness auto
termination
  by (relation "measure (\<lambda>(m, h, off). length m - off)") auto

declare sha_blocks.simps [simp del]

section \<open>Hexadecimal result\<close>

definition kHex :: string where
  "kHex = ''0123456789abcdef''"

definition hex_word :: "u32 \<Rightarrow> string" where
  "hex_word value =
     map (\<lambda>shift. kHex ! unat (drop_bit shift value AND 0x0F)) [28, 24, 20, 16, 12, 8, 4, 0]"

definition sha256_hex :: "string \<Rightarrow> string" where
  "sha256_hex input =
     concat (map hex_word (sha_blocks (sha_message input) kInitialHash 0))"

section \<open>The shape of a digest\<close>

lemma length_kHex [simp]: "length kHex = 16"
  by (simp add: kHex_def)

lemma kHex_chars: "set kHex = set ''0123456789abcdef''"
  by (simp add: kHex_def)

lemma kHex_no_special [simp]: "CHR ''$'' \<notin> set kHex" "CHR 0x00 \<notin> set kHex"
  by (simp_all add: kHex_def)

lemma nibble_less: "unat ((x :: u32) AND 0x0F) < 16"
proof -
  have "x AND 0x0F = take_bit 4 x"
    by (simp add: take_bit_eq_mask mask_eq_exp_minus_1)
  then have "unat (x AND 0x0F) = take_bit 4 (unat x)"
    by (simp add: unsigned_take_bit_eq)
  also have "\<dots> < 2 ^ 4" by (rule take_bit_nat_less_exp)
  finally show ?thesis by simp
qed

lemma nibble_digit: "kHex ! unat ((x :: u32) AND 0x0F) \<in> set kHex"
  using nibble_less [of x] by (simp add: nth_mem)

lemma length_hex_word [simp]: "length (hex_word v) = 8"
  by (simp add: hex_word_def)

lemma set_hex_word: "set (hex_word v) \<subseteq> set kHex"
  by (auto simp: hex_word_def nibble_digit)

lemma length_sha_block [simp]: "length (sha_block message hash offset) = 8"
  by (simp add: sha_block_def Let_def)

lemma length_sha_blocks: "length hash = 8 \<Longrightarrow> length (sha_blocks message hash offset) = 8"
proof (induction message hash offset rule: sha_blocks.induct)
  case (1 message hash offset)
  then show ?case
    by (cases "offset < length message") (simp_all add: sha_blocks.simps [of message hash offset])
qed

lemma length_sha256_hex: "length (sha256_hex input) = 64"
proof -
  have "length (sha_blocks (sha_message input) kInitialHash 0) = 8"
    by (rule length_sha_blocks) (simp add: kInitialHash_def)
  moreover have "length (concat (map hex_word ws)) = 8 * length ws" for ws
    by (induction ws) simp_all
  ultimately show ?thesis by (simp add: sha256_hex_def)
qed

lemma set_sha256_hex: "set (sha256_hex input) \<subseteq> set kHex"
  using set_hex_word by (fastforce simp: sha256_hex_def)

end
