(* ===== verification/Byte_Order.thy ===== *)
theory Byte_Order
  imports Chat_Prelude "HOL-Library.Sublist"
begin

text \<open>
  Big-endian integers of any width as byte lists, and the relation "these bytes stand at this
  offset of a buffer" over which every codec law of the development is stated. The take helpers
  of the protocol, the frame header and the SHA-256 word loads are instances.
\<close>

section \<open>Big-endian integers\<close>

definition be_join :: "u8 list \<Rightarrow> 'w::len word" where
  "be_join bs = foldl (\<lambda>out b. push_bit 8 out OR ucast b) 0 bs"

definition be_split :: "nat \<Rightarrow> 'w::len word \<Rightarrow> u8 list" where
  "be_split k v = map (\<lambda>i. ucast (drop_bit (8 * i) v)) (rev [0..<k])"

lemma length_be_split [simp]: "length (be_split k v) = k"
  by (simp add: be_split_def)

lemma ucast_and_255 [byte_simps]: "(ucast (v AND 0xFF) :: u8) = ucast (v :: 'w::len word)"
proof -
  have "v AND 0xFF = take_bit 8 v"
    by (simp add: take_bit_eq_mask mask_eq_exp_minus_1)
  moreover have "(ucast (take_bit 8 v) :: u8) = ucast v"
    by (rule bit_word_eqI) (auto simp: bit_simps)
  ultimately show ?thesis by simp
qed

lemma bit_be_join:
  "n < LENGTH('w) \<Longrightarrow> bit (be_join bs :: 'w::len word) n \<longleftrightarrow>
     n div 8 < length bs \<and> bit (rev bs ! (n div 8)) (n mod 8)"
  unfolding be_join_def
proof (induction bs arbitrary: n rule: rev_induct)
  case Nil
  then show ?case by simp
next
  case (snoc b bs)
  show ?case
  proof (cases "n < 8")
    case True
    then show ?thesis using snoc.prems by (auto simp: bit_simps)
  next
    case False
    then have "n div 8 = Suc ((n - 8) div 8)" "n mod 8 = (n - 8) mod 8"
      by (auto simp: le_div_geq le_mod_geq)
    moreover have "\<not> bit b n"
      using False bit_imp_le_length [of b n] by auto
    ultimately show ?thesis using False snoc by (auto simp: bit_simps)
  qed
qed

lemma be_join_split:
  assumes "LENGTH('w) \<le> 8 * k"
  shows "be_join (be_split k v) = (v :: 'w::len word)"
proof (rule bit_word_eqI)
  fix n
  assume n: "n < LENGTH('w)"
  with assms have "n div 8 < k" by auto
  then show "bit (be_join (be_split k v) :: 'w word) n = bit v n"
    using n by (simp add: bit_be_join be_split_def rev_map bit_simps)
qed

lemma be_split_join:
  assumes "8 * length bs \<le> LENGTH('w)"
  shows "be_split (length bs) (be_join bs :: 'w::len word) = bs"
proof (rule nth_equalityI)
  fix i
  assume "i < length (be_split (length bs) (be_join bs :: 'w word))"
  then have i: "i < length bs" by simp
  let ?j = "length bs - Suc i"
  have j: "?j < length bs" using i by simp
  have "ucast (drop_bit (8 * ?j) (be_join bs :: 'w word)) = bs ! i"
  proof (rule bit_word_eqI)
    fix n assume "n < LENGTH(8)"
    then have n: "n < 8" by simp
    then have "8 * ?j + n < LENGTH('w)" using assms i by auto
    then show "bit (ucast (drop_bit (8 * ?j) (be_join bs :: 'w word)) :: u8) n = bit (bs ! i) n"
      using n i j by (simp add: bit_simps bit_be_join rev_nth del: diff_less)
  qed
  then show "be_split (length bs) (be_join bs :: 'w word) ! i = bs ! i"
    using i by (simp add: be_split_def rev_nth rev_map)
qed simp

lemma be_join_eq_iff:
  assumes "LENGTH('w) = 8 * length bs"
  shows "be_join bs = (v :: 'w::len word) \<longleftrightarrow> bs = be_split (length bs) v"
  using be_join_split [of "length bs" v] be_split_join [of bs, where 'w = 'w] assms by auto

section \<open>Bytes at an offset\<close>

definition occurs :: "string \<Rightarrow> nat \<Rightarrow> string \<Rightarrow> bool" where
  "occurs data offset bs \<longleftrightarrow> offset \<le> length data \<and> prefix bs (drop offset data)"

lemma occurs_iff: "occurs data offset bs \<longleftrightarrow> (\<exists>pre post. data = pre @ bs @ post \<and> length pre = offset)"
proof
  assume "occurs data offset bs"
  then obtain post where "drop offset data = bs @ post" and "offset \<le> length data"
    by (auto simp: occurs_def elim: prefixE)
  then show "\<exists>pre post. data = pre @ bs @ post \<and> length pre = offset"
    by (metis append_take_drop_id length_take min.absorb2)
qed (auto simp: occurs_def)

lemma occurs_Nil [simp]: "occurs data offset [] \<longleftrightarrow> offset \<le> length data"
  by (simp add: occurs_def)

lemma occurs_append:
  "occurs data offset (xs @ ys) \<longleftrightarrow> occurs data offset xs \<and> occurs data (offset + length xs) ys"
proof
  assume "occurs data offset (xs @ ys)"
  then obtain pre post where "data = pre @ (xs @ ys) @ post" and "length pre = offset"
    by (auto simp: occurs_iff)
  then show "occurs data offset xs \<and> occurs data (offset + length xs) ys"
    by (auto simp: occurs_def)
next
  assume r: "occurs data offset xs \<and> occurs data (offset + length xs) ys"
  then obtain pre post where d: "data = pre @ xs @ post" and "length pre = offset"
    by (auto simp: occurs_iff)
  with r show "occurs data offset (xs @ ys)" by (auto simp: occurs_def)
qed

lemma occurs_length: "occurs data offset bs \<Longrightarrow> offset + length bs \<le> length data"
  by (auto simp: occurs_iff)

lemma occurs_middle [simp]: "occurs (pre @ bs @ post) (length pre) bs"
  by (auto simp: occurs_iff)

lemma occurs_start [simp]: "occurs (bs @ post) 0 bs"
  by (auto simp: occurs_def)

lemma occurs_take_drop:
  "occurs data offset bs \<longleftrightarrow>
     offset + length bs \<le> length data \<and> take (length bs) (drop offset data) = bs"
proof
  assume "occurs data offset bs"
  then show "offset + length bs \<le> length data \<and> take (length bs) (drop offset data) = bs"
    by (auto simp: occurs_iff)
next
  assume "offset + length bs \<le> length data \<and> take (length bs) (drop offset data) = bs"
  then show "occurs data offset bs" by (metis add_leE occurs_def take_is_prefix)
qed

lemma occurs_same_length:
  "occurs data offset bs \<Longrightarrow> occurs data offset cs \<Longrightarrow> length bs = length cs \<Longrightarrow> bs = cs"
  by (metis occurs_take_drop)

lemma occurs_extend: "occurs data offset bs \<Longrightarrow> occurs (data @ more) offset bs"
  unfolding occurs_iff by (metis append.assoc)

lemma occurs_truncated:
  "occurs (take n data) offset bs \<Longrightarrow> occurs data offset bs"
  by (metis append_take_drop_id occurs_extend)

end
