(* ===== verification/Sha256_Spec.thy ===== *)
theory Sha256_Spec
  imports Sha256 Byte_Order
begin

text \<open>
  The SHA-256 function as FIPS 180-4 states it (padding in closed form, the schedule as a
  recurrence over the word index, rotation as an operation on words, the message cut into a list
  of blocks) and the proof that the loops of sha256.cpp compute it.
\<close>

section \<open>The standard\<close>

definition fips_Ch :: "u32 \<Rightarrow> u32 \<Rightarrow> u32 \<Rightarrow> u32" where
  "fips_Ch x y z = (x AND y) XOR (NOT x AND z)"

definition fips_Maj :: "u32 \<Rightarrow> u32 \<Rightarrow> u32 \<Rightarrow> u32" where
  "fips_Maj x y z = (x AND y) XOR (x AND z) XOR (y AND z)"

definition fips_Sigma0 :: "u32 \<Rightarrow> u32" where
  "fips_Sigma0 x = word_rotr 2 x XOR word_rotr 13 x XOR word_rotr 22 x"

definition fips_Sigma1 :: "u32 \<Rightarrow> u32" where
  "fips_Sigma1 x = word_rotr 6 x XOR word_rotr 11 x XOR word_rotr 25 x"

definition fips_sigma0 :: "u32 \<Rightarrow> u32" where
  "fips_sigma0 x = word_rotr 7 x XOR word_rotr 18 x XOR drop_bit 3 x"

definition fips_sigma1 :: "u32 \<Rightarrow> u32" where
  "fips_sigma1 x = word_rotr 17 x XOR word_rotr 19 x XOR drop_bit 10 x"

definition fips_padding :: "u8 list \<Rightarrow> u8 list" where
  "fips_padding m =
     m @ [0x80] @ replicate ((119 - length m mod 64) mod 64) 0 @
     be_split 8 (of_nat (8 * length m) :: u64)"

function fips_blocks :: "u8 list \<Rightarrow> u8 list list" where
  "fips_blocks m = (if m = [] then [] else take 64 m # fips_blocks (drop 64 m))"
  by pat_completeness auto
termination
  by (relation "measure length") auto

declare fips_blocks.simps [simp del]

definition fips_word :: "u8 list \<Rightarrow> nat \<Rightarrow> u32" where
  "fips_word block t = be_join (take 4 (drop (4 * t) block))"

fun fips_W :: "u8 list \<Rightarrow> nat \<Rightarrow> u32" where
  "fips_W block t =
     (if t < 16 then fips_word block t
      else fips_sigma1 (fips_W block (t - 2)) + fips_W block (t - 7) +
           fips_sigma0 (fips_W block (t - 15)) + fips_W block (t - 16))"

declare fips_W.simps [simp del]

text \<open>
  The constants: the first 32 bits of the fractional parts of the square roots of the first 8
  primes, and of the cube roots of the first 64 primes. \<open>root_floor k n\<close> is the integer part of the
  \<open>k\<close>-th root of \<open>n\<close>, found bit by bit.
\<close>

definition root_floor :: "nat \<Rightarrow> nat \<Rightarrow> nat" where
  "root_floor k n = foldl (\<lambda>r b. if (r + 2 ^ b) ^ k \<le> n then r + 2 ^ b else r) 0 (rev [0..<35])"

definition fips_primes :: "nat list" where
  "fips_primes =
     [2, 3, 5, 7, 11, 13, 17, 19, 23, 29, 31, 37, 41, 43, 47, 53] @
     [59, 61, 67, 71, 73, 79, 83, 89, 97, 101, 103, 107, 109, 113, 127, 131] @
     [137, 139, 149, 151, 157, 163, 167, 173, 179, 181, 191, 193, 197, 199, 211, 223] @
     [227, 229, 233, 239, 241, 251, 257, 263, 269, 271, 277, 281, 283, 293, 307, 311]"

definition fips_K :: "u32 list" where
  "fips_K = map (\<lambda>p. word_of_nat (root_floor 3 (p * 2 ^ 96))) fips_primes"

definition fips_H0 :: "u32 list" where
  "fips_H0 = map (\<lambda>p. word_of_nat (root_floor 2 (p * 2 ^ 64))) (take 8 fips_primes)"

text \<open>The working variables \<open>a .. h\<close> as a list of eight words.\<close>

definition fips_round :: "u8 list \<Rightarrow> u32 list \<Rightarrow> nat \<Rightarrow> u32 list" where
  "fips_round block v t =
     (let T1 = v ! 7 + fips_Sigma1 (v ! 4) + fips_Ch (v ! 4) (v ! 5) (v ! 6) + fips_K ! t +
               fips_W block t;
          T2 = fips_Sigma0 (v ! 0) + fips_Maj (v ! 0) (v ! 1) (v ! 2)
      in [T1 + T2, v ! 0, v ! 1, v ! 2, v ! 3 + T1, v ! 4, v ! 5, v ! 6])"

definition fips_compress :: "u32 list \<Rightarrow> u8 list \<Rightarrow> u32 list" where
  "fips_compress H block = map2 (+) H (foldl (fips_round block) H [0..<64])"

definition fips_sha256 :: "u8 list \<Rightarrow> u32 list" where
  "fips_sha256 m = foldl fips_compress fips_H0 (fips_blocks (fips_padding m))"

section \<open>The constants of the code\<close>

text \<open>The search finds the root: bits are tried from the highest down.\<close>

lemma root_floor_loop:
  fixes n r :: nat
  assumes "r ^ k \<le> n" and "n < (r + 2 ^ m) ^ k"
  shows "let r' = foldl (\<lambda>r b. if (r + 2 ^ b) ^ k \<le> n then r + 2 ^ b else r) r (rev [0..<m])
         in r' ^ k \<le> n \<and> n < (r' + 1) ^ k"
  using assms
proof (induction m arbitrary: r)
  case (Suc m)
  show ?case
  proof (cases "(r + 2 ^ m) ^ k \<le> n")
    case True
    moreover have "n < (r + 2 ^ m + 2 ^ m) ^ k" using Suc.prems(2) by (simp add: mult_2 add.assoc)
    ultimately show ?thesis using Suc.IH [of "r + 2 ^ m"] by simp
  next
    case False
    then show ?thesis using Suc.IH [of r] Suc.prems(1) by simp
  qed
qed simp

lemma root_floor:
  assumes "k \<noteq> 0" and "n < (2 ^ 35) ^ k"
  shows "root_floor k n ^ k \<le> n" and "n < (root_floor k n + 1) ^ k"
  using root_floor_loop [of 0 k n 35] assms unfolding root_floor_def Let_def by (simp_all only: zero_power add_0 bot_nat_0.not_eq_extremum)

lemma root_floor_unique:
  assumes "k \<noteq> 0" and "n < (2 ^ 35) ^ k" and "r ^ k \<le> n" and "n < (r + 1) ^ k"
  shows "root_floor k n = r"
proof -
  have "r < root_floor k n + 1"
    by (rule power_less_imp_less_base [of _ k]) (use root_floor(2) [OF assms(1,2)] assms(3) in simp_all)
  moreover have "root_floor k n < r + 1"
    by (rule power_less_imp_less_base [of _ k]) (use root_floor(1) [OF assms(1,2)] assms(4) in simp_all)
  ultimately show ?thesis by simp
qed

lemma root_floor_table:
  assumes "list_all2 (\<lambda>p r. p * 2 ^ m < (2 ^ 35) ^ k \<and> r ^ k \<le> p * 2 ^ m \<and> p * 2 ^ m < (r + 1) ^ k) ps rs"
    and "k \<noteq> 0"
  shows "map (\<lambda>p. word_of_nat (root_floor k (p * 2 ^ m))) ps = map word_of_nat rs"
  using assms(1)
proof (induction rule: list_all2_induct)
  case (Cons p ps r rs)
  then have "root_floor k (p * 2 ^ m) = r" using root_floor_unique [OF assms(2)] by blast
  with Cons show ?case by simp
qed simp

lemma fips_H0_eq: "fips_H0 = kInitialHash"
proof -
  let ?rs = "[0x16a09e667, 0x1bb67ae85, 0x23c6ef372, 0x2a54ff53a, 0x3510e527f, 0x39b05688c, 0x41f83d9ab, 0x45be0cd19] :: nat list"
  have "fips_H0 = map word_of_nat ?rs"
    unfolding fips_H0_def by (rule root_floor_table) (simp_all add: fips_primes_def)
  also have "\<dots> = kInitialHash" by (simp add: kInitialHash_def)
  finally show ?thesis .
qed

lemma fips_K_eq: "fips_K = kRoundConstants"
proof -
  let ?rs = "[0x1428a2f98, 0x171374491, 0x1b5c0fbcf, 0x1e9b5dba5, 0x23956c25b, 0x259f111f1, 0x2923f82a4, 0x2ab1c5ed5] @
     [0x2d807aa98, 0x312835b01, 0x3243185be, 0x3550c7dc3, 0x372be5d74, 0x380deb1fe, 0x39bdc06a7, 0x3c19bf174] @
     [0x3e49b69c1, 0x3efbe4786, 0x40fc19dc6, 0x4240ca1cc, 0x42de92c6f, 0x44a7484aa, 0x45cb0a9dc, 0x476f988da] @
     [0x4983e5152, 0x4a831c66d, 0x4b00327c8, 0x4bf597fc7, 0x4c6e00bf3, 0x4d5a79147, 0x506ca6351, 0x514292967] @
     [0x527b70a85, 0x52e1b2138, 0x54d2c6dfc, 0x553380d13, 0x5650a7354, 0x5766a0abb, 0x581c2c92e, 0x592722c85] @
     [0x5a2bfe8a1, 0x5a81a664b, 0x5c24b8b70, 0x5c76c51a3, 0x5d192e819, 0x5d6990624, 0x5f40e3585, 0x6106aa070] @
     [0x619a4c116, 0x61e376c08, 0x62748774c, 0x634b0bcb5, 0x6391c0cb3, 0x64ed8aa4a, 0x65b9cca4f, 0x6682e6ff3] @
     [0x6748f82ee, 0x678a5636f, 0x684c87814, 0x68cc70208, 0x690befffa, 0x6a4506ceb, 0x6bef9a3f7, 0x6c67178f2] :: nat list"
  have "fips_K = map word_of_nat ?rs"
    unfolding fips_K_def by (rule root_floor_table) (simp_all add: fips_primes_def)
  also have "\<dots> = kRoundConstants" by (simp add: kRoundConstants_def)
  finally show ?thesis .
qed

section \<open>Rotation and words\<close>

lemma rotr_eq_word_rotr:
  assumes "0 < n" "n < 32"
  shows "rotr v n = word_rotr n v"
proof (rule bit_word_eqI)
  fix k assume "k < LENGTH(32)"
  then have k: "k < 32" by simp
  then show "bit (rotr v n) k = bit (word_rotr n v) k"
    using assms by (cases "k + n < 32")
      (auto simp: rotr_def bit_word_rotr_iff bit_simps mod_if add.commute [of n k] dest: bit_imp_le_length)
qed

lemma be_word_eq:
  assumes "p + 4 \<le> length message"
  shows "be_word message p = be_join (take 4 (drop p message))"
proof -
  have "take 4 (drop p message) = [message ! p, message ! (p + 1), message ! (p + 2), message ! (p + 3)]"
    using assms by (intro nth_equalityI) (auto simp: less_Suc_eq numeral_eq_Suc)
  then show ?thesis by (simp add: be_word_def be_join_def push_bit_or or.assoc)
qed

section \<open>Padding\<close>

lemma sha_pad_zeros_closed:
  "sha_pad_zeros m = m @ replicate ((120 - length m mod 64) mod 64) 0"
proof (induction m rule: sha_pad_zeros.induct)
  case (1 m)
  let ?r = "length m mod 64"
  have r: "?r < 64" by simp
  show ?case
  proof (cases "?r = 56")
    case True
    then show ?thesis by (simp add: sha_pad_zeros.simps [of m])
  next
    case False
    have s: "length (m @ [0 :: u8]) mod 64 = (if ?r = 63 then 0 else Suc ?r)"
      by (simp add: mod_Suc)
    have "Suc ((120 - length (m @ [0 :: u8]) mod 64) mod 64) = (120 - ?r) mod 64"
    proof (cases "?r < 56")
      case True
      then have "(120 - ?r) mod 64 = 56 - ?r" "(120 - Suc ?r) mod 64 = 56 - Suc ?r"
        by (simp_all add: le_mod_geq)
      moreover have "Suc (56 - Suc ?r) = 56 - ?r" using True by (simp only: Suc_diff_Suc)
      ultimately show ?thesis using True unfolding s by simp
    next
      case F2: False
      with False r have "(120 - ?r) mod 64 = 120 - ?r" "?r \<noteq> 63 \<Longrightarrow> (120 - Suc ?r) mod 64 = 120 - Suc ?r"
        by (simp_all add: mod_less)
      with False F2 r show ?thesis unfolding s by (auto simp: Suc_diff_Suc)
    qed
    then have "replicate ((120 - ?r) mod 64) (0 :: u8) =
        0 # replicate ((120 - length (m @ [0 :: u8]) mod 64) mod 64) 0"
      by (metis replicate_Suc)
    with False "1.IH" show ?thesis by (simp add: sha_pad_zeros.simps [of m])
  qed
qed

lemma sha_bit_length_bytes_eq: "sha_bit_length_bytes v = be_split 8 v"
  by (simp add: sha_bit_length_bytes_def be_split_def byte_simps upt_rec mult.commute)

lemma sha_message_eq: "sha_message input = fips_padding (map u8_of_char input)"
proof -
  let ?n = "length input"
  have "(120 - Suc ?n mod 64) mod 64 = (119 - ?n mod 64) mod 64"
    by (auto simp: mod_Suc)
  then show ?thesis
    by (simp add: sha_message_def fips_padding_def sha_pad_zeros_closed sha_bit_length_bytes_eq
        Let_def mult.commute)
qed

lemma length_fips_padding: "length (fips_padding m) mod 64 = 0"
proof -
  let ?r = "length m mod 64"
  have r: "?r < 64" by simp
  have "(?r + 1 + (119 - ?r) mod 64 + 8) mod 64 = 0"
  proof (cases "?r \<le> 55")
    case True
    then have "(119 - ?r) mod 64 = 55 - ?r" by (simp add: le_mod_geq)
    with True show ?thesis by simp
  next
    case False
    with r have "(119 - ?r) mod 64 = 119 - ?r" by (simp add: mod_less)
    with False r show ?thesis by simp
  qed
  then have "(length m + (1 + (119 - ?r) mod 64 + 8)) mod 64 = 0"
    by (metis (no_types, lifting) add.assoc mod_add_left_eq)
  then show ?thesis by (simp add: fips_padding_def)
qed

section \<open>The schedule\<close>

lemma length_schedule_step [simp]: "length (schedule_step w i) = length w"
  by (simp add: schedule_step_def Let_def)

lemma schedule_step_nth:
  assumes "16 \<le> i" "i < length w" "j < length w"
  shows "schedule_step w i ! j =
    (if j = i then fips_sigma1 (w ! (i - 2)) + w ! (i - 7) + fips_sigma0 (w ! (i - 15)) + w ! (i - 16)
     else w ! j)"
  using assms
  by (simp add: schedule_step_def Let_def fips_sigma0_def fips_sigma1_def rotr_eq_word_rotr
      nth_list_update add_ac)

lemma schedule_loop:
  assumes "length w = 64" and "16 \<le> n" and "n \<le> 64"
    and "\<And>j. j < 16 \<Longrightarrow> w ! j = fips_word block j"
  shows "length (foldl schedule_step w [16..<n]) = 64 \<and>
    (\<forall>j<n. foldl schedule_step w [16..<n] ! j = fips_W block j)"
  using assms(2,3)
proof (induction n rule: dec_induct)
  case base
  with assms(1,4) show ?case by (simp add: fips_W.simps)
next
  case (step n)
  let ?w = "foldl schedule_step w [16..<n]"
  from step have IH: "length ?w = 64" "\<forall>j<n. ?w ! j = fips_W block j" by auto
  have e: "foldl schedule_step w [16..<Suc n] = schedule_step ?w n" using step(1) by simp
  have "schedule_step ?w n ! j = fips_W block j" if "j < Suc n" for j
    using that step IH
    by (cases "j = n") (simp_all add: schedule_step_nth fips_W.simps [of block n])
  with IH e show ?case by simp
qed

lemma sha_schedule_eq:
  assumes "offset + 64 \<le> length message" and "t < 64"
  shows "sha_schedule message offset ! t = fips_W (take 64 (drop offset message)) t"
proof -
  let ?b = "take 64 (drop offset message)"
  have "be_word message (offset + j * 4) = fips_word ?b j" if "j < 16" for j
  proof -
    have "take 4 (drop (4 * j) ?b) = take 4 (drop (offset + j * 4) message)"
      using that by (simp add: drop_take take_take add.commute mult.commute min_def)
    then show ?thesis using that assms(1) by (simp add: fips_word_def be_word_eq)
  qed
  then have "(schedule_init message offset @ replicate 48 0) ! j = fips_word ?b j" if "j < 16" for j
    using that by (simp add: schedule_init_def nth_append)
  then show ?thesis
    using schedule_loop [of "schedule_init message offset @ replicate 48 0" 64 ?b] assms(2)
    by (simp add: sha_schedule_def schedule_init_def)
qed

section \<open>Rounds and blocks\<close>

definition vars_list :: "sha_vars \<Rightarrow> u32 list" where
  "vars_list s = [va s, vb s, vc s, vd s, ve s, vf s, vg s, vh s]"

lemma sha_round_eq:
  assumes "w ! t = fips_W block t"
  shows "vars_list (sha_round w s t) = fips_round block (vars_list s) t"
  using assms
  by (simp add: sha_round_def fips_round_def vars_list_def Let_def fips_Ch_def fips_Maj_def
      fips_Sigma0_def fips_Sigma1_def rotr_eq_word_rotr fips_K_eq numeral_eq_Suc)

lemma sha_rounds_eq:
  assumes "\<And>t. t < 64 \<Longrightarrow> w ! t = fips_W block t" and "n \<le> 64"
  shows "vars_list (foldl (sha_round w) s [0..<n]) = foldl (fips_round block) (vars_list s) [0..<n]"
  using assms(2) by (induction n) (simp_all add: sha_round_eq assms(1))

lemma list_of_8: "length H = 8 \<Longrightarrow> H = [H ! 0, H ! 1, H ! 2, H ! 3, H ! 4, H ! 5, H ! 6, H ! 7]"
  by (intro nth_equalityI) (auto simp: less_Suc_eq numeral_eq_Suc)

lemma sha_block_eq:
  assumes "length H = 8" and "offset + 64 \<le> length message"
  shows "sha_block message H offset = fips_compress H (take 64 (drop offset message))"
proof -
  let ?b = "take 64 (drop offset message)"
  let ?s = "\<lparr>va = H ! 0, vb = H ! 1, vc = H ! 2, vd = H ! 3,
              ve = H ! 4, vf = H ! 5, vg = H ! 6, vh = H ! 7\<rparr>"
  have "vars_list ?s = H" using list_of_8 [OF assms(1)] by (simp add: vars_list_def)
  then have "vars_list (foldl (sha_round (sha_schedule message offset)) ?s [0..<64]) =
      foldl (fips_round ?b) H [0..<64]"
    using sha_rounds_eq [of "sha_schedule message offset" ?b 64 ?s] sha_schedule_eq [OF assms(2)]
    by simp
  moreover have "sha_block message H offset =
      map2 (+) [H ! 0, H ! 1, H ! 2, H ! 3, H ! 4, H ! 5, H ! 6, H ! 7]
        (vars_list (foldl (sha_round (sha_schedule message offset)) ?s [0..<64]))"
    by (simp add: sha_block_def Let_def vars_list_def)
  ultimately show ?thesis using list_of_8 [OF assms(1)] by (simp add: fips_compress_def)
qed

lemma sha_blocks_eq:
  assumes "length H = 8" and "length message mod 64 = 0" and "offset mod 64 = 0"
  shows "sha_blocks message H offset = foldl fips_compress H (fips_blocks (drop offset message))"
  using assms
proof (induction message H offset rule: sha_blocks.induct)
  case (1 message H offset)
  show ?case
  proof (cases "offset < length message")
    case True
    moreover have "64 dvd length message - offset" using 1(3,4) by (auto simp: mod_eq_0_iff_dvd)
    ultimately have "64 \<le> length message - offset" by (intro dvd_imp_le) simp_all
    with True have le: "offset + 64 \<le> length message" by linarith
    then have b: "sha_block message H offset = fips_compress H (take 64 (drop offset message))"
      by (rule sha_block_eq [OF 1(2)])
    have "drop offset message \<noteq> []" using True by simp
    then have "fips_blocks (drop offset message) =
        take 64 (drop offset message) # fips_blocks (drop (offset + 64) message)"
      by (subst fips_blocks.simps) (simp add: add.commute)
    with True b "1.IH" 1(3,4) show ?thesis
      by (simp add: sha_blocks.simps [of message H offset] flip: b)
  next
    case False
    then show ?thesis by (simp add: sha_blocks.simps fips_blocks.simps)
  qed
qed

lemma length_kInitialHash: "length kInitialHash = 8"
  by (simp add: kInitialHash_def)

lemma sha256_hex_fips:
  "sha256_hex input = concat (map hex_word (fips_sha256 (map u8_of_char input)))"
  using sha_blocks_eq [of kInitialHash "sha_message input" 0] length_fips_padding
  by (simp add: sha256_hex_def fips_sha256_def sha_message_eq fips_H0_eq length_kInitialHash)

section \<open>The digest\<close>

text \<open>C14 (digest). For every input, \<^verbatim>\<open>sha256_hex\<close> is the SHA-256 digest of FIPS 180-4 in hexadecimal: the
  digits of the eight words of the standard's hash of the bytes of the input, 64 lower-case digits
  in all. The constants of the standard are computed from the primes, not copied from the code.\<close>

theorem sha256_hex_is_fips:
  "sha256_hex input = concat (map hex_word (fips_sha256 (map u8_of_char input))) \<and>
   length (sha256_hex input) = 64 \<and> set (sha256_hex input) \<subseteq> set ''0123456789abcdef''"
  using sha256_hex_fips length_sha256_hex set_sha256_hex [of input] kHex_chars by simp

end
