(* ===== verification/Cpp_String.thy ===== *)
theory Cpp_String
  imports Chat_Prelude "HOL-Library.Char_ord" "HOL-Library.List_Lexorder" "HOL-Library.Sublist"
begin

text \<open>
  The operations of \<^verbatim>\<open>std::string\<close> the sources use, and the string helpers the server and the
  client both define: \<^verbatim>\<open>trim\<close>, \<^verbatim>\<open>valid_username\<close> and \<^verbatim>\<open>sanitize_room\<close>. A position that may be
  \<^verbatim>\<open>npos\<close> is an option. The order of strings is the lexicographic order on unsigned bytes, which
  is what \<^verbatim>\<open>std::string::operator<\<close>, \<^verbatim>\<open>std::set\<close>, \<^verbatim>\<open>std::map\<close> and SQLite's BINARY collation use.

  \<^verbatim>\<open>substr\<close> throws when its position is past the end of the string. Every position the sources
  pass is 0, a position that a search returned, or that position plus one; the lemmas
  \<open>find_char_less\<close>, \<open>find_first_not_of_less\<close> and \<open>find_char_from_bounds\<close> say that these are in range.
\<close>

section \<open>Searching\<close>

fun find_if :: "(char \<Rightarrow> bool) \<Rightarrow> string \<Rightarrow> nat option" where
  "find_if P [] = None"
| "find_if P (c # cs) = (if P c then Some 0 else map_option Suc (find_if P cs))"

definition find_char :: "string \<Rightarrow> char \<Rightarrow> nat option" where
  "find_char s c = find_if (\<lambda>x. x = c) s"

definition find_char_from :: "string \<Rightarrow> char \<Rightarrow> nat \<Rightarrow> nat option" where
  "find_char_from s c pos = map_option (\<lambda>i. pos + i) (find_if (\<lambda>x. x = c) (drop pos s))"

definition find_first_not_of :: "string \<Rightarrow> string \<Rightarrow> nat option" where
  "find_first_not_of s cs = find_if (\<lambda>x. x \<notin> set cs) s"

definition find_last_not_of :: "string \<Rightarrow> string \<Rightarrow> nat option" where
  "find_last_not_of s cs =
     map_option (\<lambda>i. length s - 1 - i) (find_if (\<lambda>x. x \<notin> set cs) (rev s))"

definition substr :: "string \<Rightarrow> nat \<Rightarrow> nat \<Rightarrow> string" where
  "substr s pos n = take n (drop pos s)"

definition substr_from :: "string \<Rightarrow> nat \<Rightarrow> string" where
  "substr_from s pos = drop pos s"

definition starts_with :: "string \<Rightarrow> string \<Rightarrow> bool" where
  "starts_with s p \<longleftrightarrow> take (length p) s = p"

text \<open>A C string ends at the first NUL byte: what \<^verbatim>\<open>c_str()\<close> with length \<^verbatim>\<open>-1\<close> passes on.\<close>

definition c_str :: "string \<Rightarrow> string" where
  "c_str s = takeWhile (\<lambda>c. c \<noteq> CHR 0x00) s"

lemma find_if_None_iff: "find_if P s = None \<longleftrightarrow> (\<forall>c\<in>set s. \<not> P c)"
  by (induction s) auto

lemma find_if_eq_takeWhile:
  "find_if P s = (if \<exists>c\<in>set s. P c then Some (length (takeWhile (\<lambda>c. \<not> P c) s)) else None)"
  by (induction s) auto

lemma find_if_SomeD:
  assumes "find_if P s = Some i"
  shows "i < length s" and "P (s ! i)" and "\<forall>c\<in>set (take i s). \<not> P c"
  using assms by (induction s arbitrary: i) (auto split: if_splits)

lemma find_if_Some_split:
  assumes "find_if P s = Some i"
  shows "s = take i s @ s ! i # drop (Suc i) s"
  using find_if_SomeD(1) [OF assms] by (simp add: id_take_nth_drop)

lemma find_if_append:
  "find_if P (xs @ ys) =
     (case find_if P xs of Some i \<Rightarrow> Some i | None \<Rightarrow> map_option (\<lambda>i. length xs + i) (find_if P ys))"
proof (induction xs)
  case Nil
  then show ?case by (cases "find_if P ys") simp_all
next
  case (Cons x xs)
  then show ?case by (cases "find_if P ys") (simp_all split: option.splits)
qed

lemma find_char_None_iff [string_simps]: "find_char s c = None \<longleftrightarrow> c \<notin> set s"
  by (auto simp: find_char_def find_if_None_iff)

lemma find_char_less: "find_char s c = Some i \<Longrightarrow> i < length s"
  unfolding find_char_def by (rule find_if_SomeD(1))

lemma find_char_split:
  assumes "find_char s c = Some i"
  shows "s = take i s @ c # drop (Suc i) s" and "c \<notin> set (take i s)"
proof -
  have "s ! i = c" and "\<forall>x\<in>set (take i s). x \<noteq> c"
    using assms find_if_SomeD(2,3) [of "\<lambda>x. x = c" s i] by (auto simp: find_char_def)
  then show "s = take i s @ c # drop (Suc i) s" and "c \<notin> set (take i s)"
    using find_if_Some_split [of "\<lambda>x. x = c" s i] assms by (auto simp: find_char_def)
qed

lemma find_char_first:
  "c \<notin> set xs \<Longrightarrow> find_char (xs @ c # ys) c = Some (length xs)"
  by (induction xs) (auto simp: find_char_def)

lemma find_char_from_bounds:
  "find_char_from s c pos = Some i \<Longrightarrow> pos \<le> i \<and> i < length s \<and> s ! i = c"
  using find_if_SomeD(1,2) [of "\<lambda>x. x = c" "drop pos s"]
  by (fastforce simp: find_char_from_def)

lemma find_first_not_of_less: "find_first_not_of s cs = Some i \<Longrightarrow> i < length s"
  unfolding find_first_not_of_def by (rule find_if_SomeD(1))

lemma c_str_no_nul [string_simps]: "CHR 0x00 \<notin> set s \<Longrightarrow> c_str s = s"
  by (induction s) (auto simp: c_str_def)

lemma nul_notin_c_str [simp]: "CHR 0x00 \<notin> set (c_str s)"
  by (auto simp: c_str_def dest: set_takeWhileD)

lemma c_str_idem [simp]: "c_str (c_str s) = c_str s"
  by (simp add: c_str_no_nul)

lemma c_str_append_nul [string_simps]:
  "CHR 0x00 \<notin> set s \<Longrightarrow> c_str (s @ CHR 0x00 # t) = s"
  by (induction s) (auto simp: c_str_def)

lemma c_str_append [string_simps]:
  "CHR 0x00 \<notin> set s \<Longrightarrow> c_str (s @ t) = s @ c_str t"
  by (induction s) (auto simp: c_str_def)

section \<open>trim\<close>

definition ws :: string where
  "ws = [CHR '' '', CHR 0x09, CHR 0x0D, CHR 0x0A]"

definition trim :: "string \<Rightarrow> string" where
  "trim text =
     (case find_first_not_of text ws of
        None \<Rightarrow> ''''
      | Some begin_pos \<Rightarrow>
          (case find_last_not_of text ws of
             None \<Rightarrow> substr_from text begin_pos
           | Some end_pos \<Rightarrow> substr text begin_pos (end_pos - begin_pos + 1)))"

text \<open>The reference: drop the whitespace at both ends.\<close>

definition strip :: "string \<Rightarrow> string" where
  "strip s = rev (dropWhile (\<lambda>c. c \<in> set ws) (rev (dropWhile (\<lambda>c. c \<in> set ws) s)))"

lemma find_last_not_of_append:
  assumes "x \<notin> set cs" and "set zs \<subseteq> set cs"
  shows "find_last_not_of (ys @ x # zs) cs = Some (length ys)"
proof -
  have "find_if (\<lambda>x. x \<notin> set cs) (rev zs @ x # rev ys) = Some (length zs)"
    using assms by (induction zs rule: rev_induct) auto
  then show ?thesis by (simp add: find_last_not_of_def)
qed

lemma strip_split:
  obtains pre post where "s = pre @ strip s @ post" "set pre \<subseteq> set ws" "set post \<subseteq> set ws"
    "strip s \<noteq> [] \<Longrightarrow> hd (strip s) \<notin> set ws \<and> last (strip s) \<notin> set ws"
proof -
  let ?W = "\<lambda>c. c \<in> set ws"
  let ?m = "dropWhile ?W s"
  let ?post = "rev (takeWhile ?W (rev ?m))"
  have m: "?m = strip s @ ?post"
    unfolding strip_def by (metis rev_append rev_rev_ident takeWhile_dropWhile_id)
  have "s = takeWhile ?W s @ strip s @ ?post"
    using m by (metis takeWhile_dropWhile_id)
  moreover have "set (takeWhile ?W s) \<subseteq> set ws" and "set ?post \<subseteq> set ws"
    by (auto dest: set_takeWhileD)
  moreover have "hd (strip s) \<notin> set ws \<and> last (strip s) \<notin> set ws" if ne: "strip s \<noteq> []"
  proof -
    have "hd (strip s) = hd ?m" using m ne by (metis hd_append2)
    moreover have "?m \<noteq> []" using m ne by (metis Nil_is_append_conv)
    ultimately have 1: "hd (strip s) \<notin> set ws" using hd_dropWhile [of ?W s] by metis
    have "last (strip s) = hd (dropWhile ?W (rev ?m))"
      unfolding strip_def by (simp add: last_rev)
    moreover have "dropWhile ?W (rev ?m) \<noteq> []" using ne unfolding strip_def by auto
    ultimately show ?thesis using 1 hd_dropWhile [of ?W "rev ?m"] by metis
  qed
  ultimately show thesis using that by blast
qed

lemma trim_eq_strip: "trim s = strip s"
proof (rule strip_split [of s])
  fix pre post
  assume s: "s = pre @ strip s @ post" and pre: "set pre \<subseteq> set ws" and post: "set post \<subseteq> set ws"
    and ends: "strip s \<noteq> [] \<Longrightarrow> hd (strip s) \<notin> set ws \<and> last (strip s) \<notin> set ws"
  show ?thesis
  proof (cases "strip s = []")
    case True
    then have "find_first_not_of s ws = None"
      using s pre post by (auto simp: find_first_not_of_def find_if_None_iff)
    with True show ?thesis by (simp add: trim_def)
  next
    case False
    have "find_first_not_of s ws = Some (length pre)"
    proof -
      obtain x xs where x: "strip s = x # xs" using False by (cases "strip s") auto
      have "find_if (\<lambda>c. c \<notin> set ws) (pre @ x # xs @ post) = Some (length pre)"
        using pre ends x by (induction pre) auto
      then show ?thesis using s x by (simp add: find_first_not_of_def)
    qed
    moreover have "find_last_not_of s ws = Some (length pre + length (strip s) - 1)"
    proof -
      obtain xs x where x: "strip s = xs @ [x]" using False by (metis rev_exhaust)
      have "find_last_not_of ((pre @ xs) @ x # post) ws = Some (length (pre @ xs))"
        using post ends x by (intro find_last_not_of_append) auto
      then show ?thesis using s x by simp
    qed
    moreover have "take (length (strip s)) (drop (length pre) s) = strip s"
      using s by (metis take_drop_append_exact)
    ultimately show ?thesis using False
      by (cases "strip s") (simp_all add: trim_def substr_def)
  qed
qed

lemma trim_Nil [simp]: "trim [] = []"
  by (simp add: trim_eq_strip strip_def)

lemma set_trim_subset: "set (trim s) \<subseteq> set s"
  by (auto simp: trim_eq_strip strip_def dest!: set_dropWhileD)

lemma length_trim_le: "length (trim s) \<le> length s"
  by (metis trim_eq_strip strip_def length_dropWhile_le length_rev le_trans)

lemma trim_ends: "trim s \<noteq> [] \<Longrightarrow> hd (trim s) \<notin> set ws \<and> last (trim s) \<notin> set ws"
  by (metis strip_split trim_eq_strip)

lemma trim_id:
  assumes "s = [] \<or> (hd s \<notin> set ws \<and> last s \<notin> set ws)"
  shows "trim s = s"
proof (cases "s = []")
  case False
  with assms have h: "hd s \<notin> set ws" "last s \<notin> set ws" by auto
  then have "dropWhile (\<lambda>c. c \<in> set ws) s = s" using False by (cases s) auto
  moreover have "dropWhile (\<lambda>c. c \<in> set ws) (rev s) = rev s"
    using False h by (cases s rule: rev_exhaust) auto
  ultimately show ?thesis by (simp add: trim_eq_strip strip_def)
qed simp

lemma trim_idem [simp]: "trim (trim s) = trim s"
  using trim_ends by (intro trim_id) blast

lemma trim_no_ws: "set s \<inter> set ws = {} \<Longrightarrow> trim s = s"
  by (rule trim_id) (metis disjoint_iff hd_in_set last_in_set)

lemma trim_Nil_iff: "trim s = [] \<longleftrightarrow> set s \<subseteq> set ws"
proof
  assume "trim s = []"
  then show "set s \<subseteq> set ws"
    by (metis strip_split [of s] trim_eq_strip append_Nil set_append Un_subset_iff)
next
  assume "set s \<subseteq> set ws"
  then show "trim s = []"
    using trim_ends [of s] set_trim_subset [of s] by (meson hd_in_set subsetD)
qed

text \<open>A trimmed text that is cut at the front still ends in a character that is not white space.\<close>

lemma trim_drop_ne:
  assumes "n < length (trim s)"
  shows "trim (drop n (trim s)) \<noteq> []"
proof -
  have ne: "drop n (trim s) \<noteq> []" using assms by simp
  moreover have "last (drop n (trim s)) = last (trim s)" using assms by (simp add: last_drop)
  ultimately have "last (trim s) \<in> set (drop n (trim s))" by (metis last_in_set)
  moreover have "last (trim s) \<notin> set ws" using trim_ends [of s] assms by force
  ultimately show ?thesis unfolding trim_Nil_iff by blast
qed

section \<open>Character classes and user names\<close>

text \<open>The program never calls \<^verbatim>\<open>setlocale\<close>, so \<^verbatim>\<open>isalnum\<close> and \<^verbatim>\<open>isspace\<close> are those of the C locale.\<close>

definition code_of :: "char \<Rightarrow> nat" where
  "code_of c = of_char c"

definition isdigit :: "char \<Rightarrow> bool" where
  "isdigit c \<longleftrightarrow> 48 \<le> code_of c \<and> code_of c \<le> 57"

definition isalnum :: "char \<Rightarrow> bool" where
  "isalnum c \<longleftrightarrow> isdigit c \<or> (65 \<le> code_of c \<and> code_of c \<le> 90) \<or>
     (97 \<le> code_of c \<and> code_of c \<le> 122)"

definition isspace :: "char \<Rightarrow> bool" where
  "isspace c \<longleftrightarrow> code_of c = 32 \<or> (9 \<le> code_of c \<and> code_of c \<le> 13)"

definition valid_username :: "string \<Rightarrow> bool" where
  "valid_username username \<longleftrightarrow>
     \<not> (length username < 3 \<or> length username > 20) \<and>
     (\<forall>c\<in>set username. \<not> (\<not> isalnum c \<and> c \<noteq> CHR ''_'' \<and> c \<noteq> CHR ''-''))"

lemma valid_username_length: "valid_username u \<Longrightarrow> 3 \<le> length u \<and> length u \<le> 20"
  by (simp add: valid_username_def)

lemma valid_username_chars:
  "valid_username u \<Longrightarrow> \<not> isalnum c \<Longrightarrow> c \<noteq> CHR ''_'' \<Longrightarrow> c \<noteq> CHR ''-'' \<Longrightarrow> c \<notin> set u"
  by (auto simp: valid_username_def)

lemma not_isalnum_special [simp]:
  "\<not> isalnum (CHR 0x00)" "\<not> isalnum (CHR '':'')" "\<not> isalnum (CHR 0x0A)"
  "\<not> isalnum (CHR '' '')" "\<not> isalnum (CHR ''@'')" "\<not> isalnum (CHR 0x09)" "\<not> isalnum (CHR 0x0D)"
  by (simp_all add: isalnum_def isdigit_def code_of_def)

lemma valid_username_no_special:
  assumes "valid_username u"
  shows "CHR 0x00 \<notin> set u" and "CHR '':'' \<notin> set u" and "CHR 0x0A \<notin> set u"
    and "CHR '' '' \<notin> set u" and "set u \<inter> set ws = {}"
  using valid_username_chars [OF assms] by (auto simp: ws_def)

lemma valid_username_ne: "valid_username u \<Longrightarrow> u \<noteq> []"
  by (auto simp: valid_username_def)

lemma valid_username_trim: "valid_username u \<Longrightarrow> trim u = u"
  by (intro trim_no_ws valid_username_no_special(5))

lemma valid_username_c_str: "valid_username u \<Longrightarrow> c_str u = u"
  by (intro c_str_no_nul valid_username_no_special(1))

section \<open>Numbers in text\<close>

definition digit_val :: "char \<Rightarrow> int" where
  "digit_val c = int (code_of c) - 48"

text \<open>
  \<^verbatim>\<open>std::stoi\<close>: skip white space, read an optional sign and the longest run of digits. None is
  either exception (\<^verbatim>\<open>invalid_argument\<close> without a digit, \<^verbatim>\<open>out_of_range\<close> beyond \<^verbatim>\<open>int\<close>); the callers
  catch both in one handler.
\<close>

definition stoi_digits :: "string \<Rightarrow> int option" where
  "stoi_digits s =
     (let ds = takeWhile isdigit s
      in if ds = [] then None else Some (foldl (\<lambda>acc c. acc * 10 + digit_val c) 0 ds))"

definition scan_int :: "string \<Rightarrow> int option" where
  "scan_int text =
     (let s = dropWhile isspace text
      in case s of
           [] \<Rightarrow> None
         | c # cs \<Rightarrow>
             if c = CHR ''-'' then map_option uminus (stoi_digits cs)
             else if c = CHR ''+'' then stoi_digits cs
             else stoi_digits s)"

definition fits_int :: "int \<Rightarrow> bool" where
  "fits_int n \<longleftrightarrow> - (2 ^ 31) \<le> n \<and> n < 2 ^ 31"

definition stoi :: "string \<Rightarrow> int option" where
  "stoi text =
     (case scan_int text of
        None \<Rightarrow> None
      | Some n \<Rightarrow> if fits_int n then Some n else None)"

text \<open>
  \<^verbatim>\<open>std::atoi\<close>: the same scan, 0 without a number; a number beyond \<^verbatim>\<open>int\<close> is undefined, here None.
\<close>

definition atoi :: "string \<Rightarrow> int option" where
  "atoi text =
     (case scan_int text of
        None \<Rightarrow> Some 0
      | Some n \<Rightarrow> if fits_int n then Some n else None)"

definition digit_char :: "nat \<Rightarrow> char" where
  "digit_char d = char_of (48 + d)"

fun nat_to_string :: "nat \<Rightarrow> string" where
  "nat_to_string n =
     (if n < 10 then [digit_char n] else nat_to_string (n div 10) @ [digit_char (n mod 10)])"

declare nat_to_string.simps [simp del]

text \<open>\<^verbatim>\<open>std::to_string\<close> on an \<^verbatim>\<open>int\<close> or a \<^verbatim>\<open>size_t\<close>.\<close>

definition to_string :: "int \<Rightarrow> string" where
  "to_string n = (if n < 0 then CHR ''-'' # nat_to_string (nat (- n)) else nat_to_string (nat n))"

lemma digit_char_facts:
  assumes "d < 10"
  shows "isdigit (digit_char d)" and "digit_val (digit_char d) = int d"
    and "\<not> isspace (digit_char d)" and "digit_char d \<noteq> CHR ''-''" and "digit_char d \<noteq> CHR ''+''"
proof -
  have "code_of (digit_char d) = 48 + d"
    using assms by (simp add: code_of_def digit_char_def)
  then show "isdigit (digit_char d)" and "digit_val (digit_char d) = int d"
    and "\<not> isspace (digit_char d)" and "digit_char d \<noteq> CHR ''-''" and "digit_char d \<noteq> CHR ''+''"
    using assms by (auto simp: isdigit_def digit_val_def isspace_def code_of_def)
qed

lemma nat_to_string_digits: "c \<in> set (nat_to_string n) \<Longrightarrow> \<exists>d<10. c = digit_char d"
proof (induction n rule: nat_to_string.induct)
  case (1 n)
  then show ?case
    by (cases "n < 10") (auto simp: nat_to_string.simps [of n] intro: exI [of _ "n mod 10"])
qed

lemma nat_to_string_ne [simp]: "nat_to_string n \<noteq> []"
  by (subst nat_to_string.simps) simp

lemma foldl_nat_to_string:
  "foldl (\<lambda>acc c. acc * 10 + digit_val c) 0 (nat_to_string n) = int n"
proof (induction n rule: nat_to_string.induct)
  case (1 n)
  then show ?case
    by (cases "n < 10") (simp_all add: nat_to_string.simps [of n] digit_char_facts zdiv_int zmod_int)
qed

lemma scan_int_to_string: "scan_int (nat_to_string n) = Some (int n)"
proof -
  let ?s = "nat_to_string n"
  have dig: "\<forall>c\<in>set ?s. isdigit c \<and> \<not> isspace c \<and> c \<noteq> CHR ''-'' \<and> c \<noteq> CHR ''+''"
    using nat_to_string_digits digit_char_facts by metis
  then have "takeWhile isdigit ?s = ?s" by (metis takeWhile_eq_all_conv)
  then have ds: "stoi_digits ?s = Some (int n)"
    by (simp only: stoi_digits_def Let_def foldl_nat_to_string nat_to_string_ne if_False)
  obtain c cs where c: "?s = c # cs" by (cases ?s) auto
  with dig have "dropWhile isspace ?s = c # cs" and "c \<noteq> CHR ''-''" and "c \<noteq> CHR ''+''" by auto
  with ds c show ?thesis by (simp add: scan_int_def)
qed

lemma stoi_to_string: "n < 2 ^ 31 \<Longrightarrow> stoi (nat_to_string n) = Some (int n)"
  by (simp add: stoi_def scan_int_to_string fits_int_def)

lemma atoi_to_string: "n < 2 ^ 31 \<Longrightarrow> atoi (nat_to_string n) = Some (int n)"
  by (simp add: atoi_def scan_int_to_string fits_int_def)

lemma atoi_fits: "atoi text = Some n \<Longrightarrow> fits_int n"
  by (auto simp: atoi_def fits_int_def split: option.splits if_splits)

end
