(* ===== verification/Sqlite_Engine.thy ===== *)
theory Sqlite_Engine
  imports Cpp_String "HOL-Library.Product_Lexorder"
begin

text \<open>
  SQLite is not part of the repository, so it is a parameter: \<open>'d sqlite\<close> holds the calls
  chat_db.cpp makes, over a state \<open>'d\<close> of the connection and its file. The SQL statements are
  part of chat_db.cpp; their text is given here as the code writes it, and next to each text what
  it says about the two tables, as a HOL function. \<open>sqlite_documented\<close> states that the engine
  carries the statements out or fails without a change; \<open>sqlite_reliable\<close> that it does not fail.
\<close>

section \<open>The calls\<close>

datatype sqlval = SqlText string | SqlInt i64 | SqlNull

definition SQLITE_OK :: int where "SQLITE_OK = 0"
definition SQLITE_CONSTRAINT :: int where "SQLITE_CONSTRAINT = 19"
definition SQLITE_ROW :: int where "SQLITE_ROW = 100"
definition SQLITE_DONE :: int where "SQLITE_DONE = 101"

lemmas sqlite_codes = SQLITE_OK_def SQLITE_CONSTRAINT_def SQLITE_ROW_def SQLITE_DONE_def

text \<open>
  \<open>sqlite3_steps d sql binds\<close> is what stepping the statement prepared from \<open>sql\<close> with the bound
  values gives: the rows of the steps that return \<^verbatim>\<open>SQLITE_ROW\<close>, the first other result code,
  and the state afterwards. A result set is finite.
\<close>

record 'd sqlite =
  sqlite3_open :: "string \<Rightarrow> int \<times> 'd"
  sqlite3_exec :: "'d \<Rightarrow> string \<Rightarrow> int \<times> 'd"
  sqlite3_prepare_v2 :: "'d \<Rightarrow> string \<Rightarrow> int"
  sqlite3_steps :: "'d \<Rightarrow> string \<Rightarrow> sqlval list \<Rightarrow> sqlval list list \<times> int \<times> 'd"

text \<open>The result code of the first step of a statement.\<close>

definition first_step_rc :: "sqlval list list \<Rightarrow> int \<Rightarrow> int" where
  "first_step_rc rows rc = (if rows = [] then rc else SQLITE_ROW)"

definition column_text :: "sqlval list \<Rightarrow> nat \<Rightarrow> string option" where
  "column_text cols i =
     (if i < length cols
      then (case cols ! i of
              SqlText s \<Rightarrow> Some s
            | SqlInt n \<Rightarrow> Some (to_string (sint n))
            | SqlNull \<Rightarrow> None)
      else None)"

definition column_int64 :: "sqlval list \<Rightarrow> nat \<Rightarrow> i64" where
  "column_int64 cols i =
     (if i < length cols then (case cols ! i of SqlInt n \<Rightarrow> n | _ \<Rightarrow> 0) else 0)"

text \<open>\<^verbatim>\<open>bytes != nullptr ? reinterpret_cast<const char*>(bytes) : ""\<close>\<close>

definition text_or_empty :: "string option \<Rightarrow> string" where
  "text_or_empty bytes = (case bytes of Some s \<Rightarrow> c_str s | None \<Rightarrow> '''')"

section \<open>The tables\<close>

record user_row =
  u_id :: nat
  u_name :: string
  u_hash :: string
  u_created :: i64

record message_row =
  m_id :: nat
  m_room :: string
  m_user :: string
  m_content :: string
  m_sent :: i64

record tables =
  t_users :: "user_row list"
  t_messages :: "message_row list"

definition empty_tables :: tables where
  "empty_tables = \<lparr>t_users = [], t_messages = []\<rparr>"

definition next_id :: "nat list \<Rightarrow> nat" where
  "next_id ids = Suc (foldr max ids 0)"

section \<open>The statements of chat_db.cpp\<close>

definition sql_schema :: string where
  "sql_schema = ''\<newline>        CREATE TABLE IF NOT EXISTS users (\<newline>            id INTEGER PRIMARY KEY AUTOINCREMENT,\<newline>            username TEXT NOT NULL UNIQUE,\<newline>            password_hash TEXT NOT NULL,\<newline>            created_at INTEGER NOT NULL\<newline>        );\<newline>        CREATE TABLE IF NOT EXISTS messages (\<newline>            id INTEGER PRIMARY KEY AUTOINCREMENT,\<newline>            room TEXT NOT NULL,\<newline>            username TEXT NOT NULL,\<newline>            content TEXT NOT NULL,\<newline>            sent_at INTEGER NOT NULL\<newline>        );\<newline>        CREATE INDEX IF NOT EXISTS idx_messages_room_sent ON messages(room, sent_at);\<newline>    ''"

definition sql_insert_user :: string where
  "sql_insert_user = ''INSERT INTO users (username, password_hash, created_at) VALUES (?, ?, ?);''"

definition sql_select_hash :: string where
  "sql_select_hash = ''SELECT password_hash FROM users WHERE username = ?;''"

definition sql_insert_message :: string where
  "sql_insert_message = ''INSERT INTO messages (room, username, content, sent_at) VALUES (?, ?, ?, ?);''"

definition sql_select_recent :: string where
  "sql_select_recent = ''\<newline>        SELECT room, username, content, sent_at FROM (\<newline>            SELECT id, room, username, content, sent_at\<newline>            FROM messages\<newline>            WHERE room = ?\<newline>            ORDER BY sent_at DESC, id DESC\<newline>            LIMIT ?\<newline>        ) ORDER BY sent_at ASC, id ASC;\<newline>    ''"

definition sql_select_rooms :: string where
  "sql_select_rooms = ''SELECT DISTINCT room FROM messages ORDER BY room LIMIT ?;''"

text \<open>What they say. \<^verbatim>\<open>username ... UNIQUE\<close>: an insertion of a present name violates a constraint.\<close>

definition name_taken :: "string \<Rightarrow> tables \<Rightarrow> bool" where
  "name_taken name t \<longleftrightarrow> name \<in> set (map u_name (t_users t))"

definition insert_user_row :: "string \<Rightarrow> string \<Rightarrow> i64 \<Rightarrow> tables \<Rightarrow> tables" where
  "insert_user_row name hash created t =
     t\<lparr>t_users := t_users t @
        [\<lparr>u_id = next_id (map u_id (t_users t)), u_name = name, u_hash = hash, u_created = created\<rparr>]\<rparr>"

definition select_hash :: "string \<Rightarrow> tables \<Rightarrow> sqlval list list" where
  "select_hash name t = map (\<lambda>u. [SqlText (u_hash u)]) (filter (\<lambda>u. u_name u = name) (t_users t))"

definition insert_message_row :: "string \<Rightarrow> string \<Rightarrow> string \<Rightarrow> i64 \<Rightarrow> tables \<Rightarrow> tables" where
  "insert_message_row room user content sent t =
     t\<lparr>t_messages := t_messages t @
        [\<lparr>m_id = next_id (map m_id (t_messages t)), m_room = room, m_user = user,
          m_content = content, m_sent = sent\<rparr>]\<rparr>"

definition sent_key :: "message_row \<Rightarrow> int \<times> nat" where
  "sent_key m = (sint (m_sent m), m_id m)"

text \<open>A negative LIMIT is no limit.\<close>

definition sql_limit :: "i64 \<Rightarrow> 'a list \<Rightarrow> 'a list" where
  "sql_limit n xs = (if sint n < 0 then xs else take (nat (sint n)) xs)"

definition recent_rows :: "string \<Rightarrow> i64 \<Rightarrow> tables \<Rightarrow> message_row list" where
  "recent_rows room limit t =
     sort_key sent_key
       (sql_limit limit (rev (sort_key sent_key (filter (\<lambda>m. m_room m = room) (t_messages t)))))"

definition message_cols :: "message_row \<Rightarrow> sqlval list" where
  "message_cols m = [SqlText (m_room m), SqlText (m_user m), SqlText (m_content m), SqlInt (m_sent m)]"

definition select_recent :: "string \<Rightarrow> i64 \<Rightarrow> tables \<Rightarrow> sqlval list list" where
  "select_recent room limit t = map message_cols (recent_rows room limit t)"

definition select_rooms :: "i64 \<Rightarrow> tables \<Rightarrow> sqlval list list" where
  "select_rooms limit t =
     map (\<lambda>r. [SqlText r]) (sql_limit limit (sort (remdups (map m_room (t_messages t)))))"

section \<open>What SQLite promises\<close>

text \<open>
  \<open>T d\<close> is the content of the two tables in state \<open>d\<close>. A statement that reports \<^verbatim>\<open>SQLITE_DONE\<close>
  has been carried out; one that reports anything else has changed nothing; a query never changes
  the tables and returns its rows in order, cut short only when it ends in an error.
\<close>

definition query_documented ::
    "'d sqlite \<Rightarrow> ('d \<Rightarrow> tables) \<Rightarrow> string \<Rightarrow> sqlval list \<Rightarrow> (tables \<Rightarrow> sqlval list list) \<Rightarrow> bool" where
  "query_documented e T sql binds result \<longleftrightarrow>
     (\<forall>d rows rc d'. sqlite3_steps e d sql binds = (rows, rc, d') \<longrightarrow>
        T d' = T d \<and> prefix rows (result (T d)) \<and> (rc = SQLITE_DONE \<longrightarrow> rows = result (T d)))"

definition insert_documented ::
    "'d sqlite \<Rightarrow> ('d \<Rightarrow> tables) \<Rightarrow> string \<Rightarrow> sqlval list \<Rightarrow> (tables \<Rightarrow> bool) \<Rightarrow> (tables \<Rightarrow> tables) \<Rightarrow> bool"
  where
  "insert_documented e T sql binds violates effect \<longleftrightarrow>
     (\<forall>d rows rc d'. sqlite3_steps e d sql binds = (rows, rc, d') \<longrightarrow>
        rows = [] \<and> (rc = SQLITE_DONE \<longrightarrow> \<not> violates (T d) \<and> T d' = effect (T d)) \<and>
        (rc \<noteq> SQLITE_DONE \<longrightarrow> T d' = T d) \<and> (rc = SQLITE_CONSTRAINT \<longrightarrow> violates (T d)))"

definition sqlite_documented :: "'d sqlite \<Rightarrow> ('d \<Rightarrow> tables) \<Rightarrow> bool" where
  "sqlite_documented e T \<longleftrightarrow>
     (\<forall>name hash created. insert_documented e T sql_insert_user [SqlText name, SqlText hash, SqlInt created]
        (name_taken name) (insert_user_row name hash created)) \<and>
     (\<forall>name. query_documented e T sql_select_hash [SqlText name] (select_hash name)) \<and>
     (\<forall>room user content sent. insert_documented e T sql_insert_message
        [SqlText room, SqlText user, SqlText content, SqlInt sent]
        (\<lambda>_. False) (insert_message_row room user content sent)) \<and>
     (\<forall>room limit. query_documented e T sql_select_recent [SqlText room, SqlInt limit]
        (select_recent room limit)) \<and>
     (\<forall>limit. query_documented e T sql_select_rooms [SqlInt limit] (select_rooms limit)) \<and>
     (\<forall>d rc d'. sqlite3_exec e d sql_schema = (rc, d') \<longrightarrow> T d' = T d)"

lemma query_documentedD:
  "query_documented e T sql binds result \<Longrightarrow> sqlite3_steps e d sql binds = (rows, rc, d') \<Longrightarrow>
     T d' = T d \<and> prefix rows (result (T d)) \<and> (rc = SQLITE_DONE \<longrightarrow> rows = result (T d))"
  by (simp add: query_documented_def)

lemma insert_documentedD:
  "insert_documented e T sql binds violates effect \<Longrightarrow> sqlite3_steps e d sql binds = (rows, rc, d') \<Longrightarrow>
     rows = [] \<and> (rc = SQLITE_DONE \<longrightarrow> \<not> violates (T d) \<and> T d' = effect (T d)) \<and>
     (rc \<noteq> SQLITE_DONE \<longrightarrow> T d' = T d) \<and> (rc = SQLITE_CONSTRAINT \<longrightarrow> violates (T d))"
  by (simp add: insert_documented_def)

lemma sqlite_documentedD:
  assumes "sqlite_documented e T"
  shows "insert_documented e T sql_insert_user [SqlText name, SqlText hash, SqlInt created]
      (name_taken name) (insert_user_row name hash created)"
    and "query_documented e T sql_select_hash [SqlText name] (select_hash name)"
    and "insert_documented e T sql_insert_message
      [SqlText room, SqlText user, SqlText content, SqlInt sent]
      (\<lambda>_. False) (insert_message_row room user content sent)"
    and "query_documented e T sql_select_recent [SqlText room, SqlInt limit] (select_recent room limit)"
    and "query_documented e T sql_select_rooms [SqlInt limit] (select_rooms limit)"
  using assms by (simp_all add: sqlite_documented_def)

text \<open>No failure: every statement prepares, and ends as its meaning says.\<close>

definition sqlite_reliable :: "'d sqlite \<Rightarrow> ('d \<Rightarrow> tables) \<Rightarrow> bool" where
  "sqlite_reliable e T \<longleftrightarrow> sqlite_documented e T \<and>
     (\<forall>d sql. sqlite3_prepare_v2 e d sql = SQLITE_OK) \<and>
     (\<forall>d name hash created rows rc d'.
        sqlite3_steps e d sql_insert_user [SqlText name, SqlText hash, SqlInt created] = (rows, rc, d') \<longrightarrow>
        rc = (if name_taken name (T d) then SQLITE_CONSTRAINT else SQLITE_DONE)) \<and>
     (\<forall>d binds rows rc d' sql.
        sql \<in> {sql_select_hash, sql_insert_message, sql_select_recent, sql_select_rooms} \<longrightarrow>
        sqlite3_steps e d sql binds = (rows, rc, d') \<longrightarrow> rc = SQLITE_DONE)"

text \<open>
  An engine that satisfies both: the tables themselves are its state and every statement is
  carried out by its meaning. It instantiates the parameter where a theorem is applied.
\<close>

definition table_engine :: "tables sqlite" where
  "table_engine =
     \<lparr>sqlite3_open = (\<lambda>path. (SQLITE_OK, empty_tables)),
      sqlite3_exec = (\<lambda>d sql. (SQLITE_OK, d)),
      sqlite3_prepare_v2 = (\<lambda>d sql. SQLITE_OK),
      sqlite3_steps = (\<lambda>d sql binds.
        (case binds of
           [SqlText name, SqlText hash, SqlInt created] \<Rightarrow>
             if sql = sql_insert_user \<and> name_taken name d then ([], SQLITE_CONSTRAINT, d)
             else if sql = sql_insert_user then ([], SQLITE_DONE, insert_user_row name hash created d)
             else ([], SQLITE_DONE, d)
         | [SqlText room, SqlText user, SqlText content, SqlInt sent] \<Rightarrow>
             ([], SQLITE_DONE, insert_message_row room user content sent d)
         | [SqlText name] \<Rightarrow> (select_hash name d, SQLITE_DONE, d)
         | [SqlText room, SqlInt limit] \<Rightarrow> (select_recent room limit d, SQLITE_DONE, d)
         | [SqlInt limit] \<Rightarrow> (select_rooms limit d, SQLITE_DONE, d)
         | _ \<Rightarrow> ([], SQLITE_DONE, d)))\<rparr>"

lemma sql_texts_distinct:
  "sql_insert_user \<noteq> sql_select_hash" "sql_insert_user \<noteq> sql_insert_message"
  "sql_insert_user \<noteq> sql_select_recent" "sql_insert_user \<noteq> sql_select_rooms"
  by (simp_all add: sql_insert_user_def sql_select_hash_def sql_insert_message_def
      sql_select_recent_def sql_select_rooms_def)

lemma table_engine_documented: "sqlite_documented table_engine (\<lambda>d. d)"
  by (auto simp: sqlite_documented_def insert_documented_def query_documented_def table_engine_def
      sqlite_codes split: if_splits)

lemma table_engine_reliable: "sqlite_reliable table_engine (\<lambda>d. d)"
  unfolding sqlite_reliable_def
proof (intro conjI allI impI)
  show "sqlite_documented table_engine (\<lambda>d. d)" by (rule table_engine_documented)
next
  fix d :: tables and sql binds rows rc d'
  assume "sql \<in> {sql_select_hash, sql_insert_message, sql_select_recent, sql_select_rooms}"
    and "sqlite3_steps table_engine d sql binds = (rows, rc, d')"
  then show "rc = SQLITE_DONE"
    using sql_texts_distinct
    by (auto simp: table_engine_def split: list.splits sqlval.splits if_splits)
qed (auto simp: table_engine_def split: if_splits)

end
