(* ===== verification/Codec_Interface.thy ===== *)
theory Codec_Interface
  imports Byte_Order
begin

text \<open>
  The contract of a wire codec, in three steps.
  \<open>message_codec\<close>: a decoder accepts a buffer exactly when it starts with the encoding of a
  well-formed value, and returns that value. From this one law follow the round trip, the
  rejection of every truncated encoding, and that no two values share an encoding.
  \<open>codec\<close>: the same for a decoder that reads at an offset and returns the offset behind the
  value; it is a \<open>message_codec\<close> at offset 0.
  \<open>counted_codec\<close>: a 16-bit count, then a loop over a \<open>codec\<close>; it is a \<open>message_codec\<close> on lists.
\<close>

lemma occurs_0 [simp]: "occurs data 0 bs \<longleftrightarrow> prefix bs data"
  by (simp add: occurs_def)

locale message_codec =
  fixes enc :: "'a \<Rightarrow> string"
    and decode :: "string \<Rightarrow> 'a option"
    and ok :: "'a \<Rightarrow> bool"
  assumes decode_iff: "decode data = Some x \<longleftrightarrow> ok x \<and> prefix (enc x) data"
begin

lemma decode_enc: "ok x \<Longrightarrow> decode (enc x @ post) = Some x"
  by (simp add: decode_iff)

lemma decode_canonical:
  "decode data = Some x \<Longrightarrow> ok x \<and> take (length (enc x)) data = enc x"
  by (auto simp: decode_iff prefix_def)

lemma enc_inj: "ok x \<Longrightarrow> ok y \<Longrightarrow> enc x = enc y \<Longrightarrow> x = y"
  by (metis append_Nil2 decode_enc option.inject)

lemma enc_prefix_free: "ok x \<Longrightarrow> ok y \<Longrightarrow> prefix (enc x) (enc y) \<Longrightarrow> x = y"
  by (metis append_Nil2 decode_enc decode_iff option.inject)

lemma decode_truncated:
  assumes "ok x" and "n < length (enc x)"
  shows "decode (take n (enc x)) = None"
proof (cases "decode (take n (enc x))")
  case (Some y)
  then have y: "ok y" "prefix (enc y) (take n (enc x))" by (auto simp: decode_iff)
  then have "prefix (enc y) (enc x)" using take_is_prefix prefix_order.trans by blast
  with assms(1) y(1) have "y = x" by (metis enc_prefix_free)
  with y(2) have "length (enc x) \<le> length (take n (enc x))" using prefix_length_le by blast
  with assms(2) show ?thesis by simp
qed

end

locale codec =
  fixes enc :: "'a \<Rightarrow> string"
    and dec :: "string \<Rightarrow> nat \<Rightarrow> ('a \<times> nat) option"
    and ok :: "'a \<Rightarrow> bool"
  assumes dec_iff: "dec data offset = Some (x, offset') \<longleftrightarrow>
    ok x \<and> occurs data offset (enc x) \<and> offset' = offset + length (enc x)"
begin

lemma dec_enc: "ok x \<Longrightarrow> dec (pre @ enc x @ post) (length pre) = Some (x, length pre + length (enc x))"
  by (simp add: dec_iff)

end

sublocale codec \<subseteq> at_start: message_codec enc "\<lambda>data. map_option fst (dec data 0)" ok
  by unfold_locales (auto simp: dec_iff)

locale counted_codec = codec enc dec ok
  for enc :: "'a \<Rightarrow> string" and dec :: "string \<Rightarrow> nat \<Rightarrow> ('a \<times> nat) option" and ok :: "'a \<Rightarrow> bool" +
  fixes loop :: "nat \<Rightarrow> string \<Rightarrow> nat \<Rightarrow> 'a list \<Rightarrow> ('a list \<times> nat) option"
    and encs :: "'a list \<Rightarrow> string"
    and decs :: "string \<Rightarrow> 'a list option"
    and count_bytes :: "nat \<Rightarrow> string"
    and take_count :: "string \<Rightarrow> (nat \<times> nat) option"
  assumes loop_0: "loop 0 data offset xs = Some (xs, offset)"
    and loop_Suc: "loop (Suc n) data offset xs =
      Option.bind (dec data offset) (\<lambda>(x, offset). loop n data offset (xs @ [x]))"
    and encs_eq: "encs xs = count_bytes (length xs) @ concat (map enc xs)"
    and decs_eq: "decs data =
      Option.bind (take_count data) (\<lambda>(n, offset). map_option fst (loop n data offset []))"
    and count_iff: "take_count data = Some (n, offset) \<longleftrightarrow>
      n < 65536 \<and> occurs data 0 (count_bytes n) \<and> offset = length (count_bytes n)"
begin

lemma loop_iff:
  "loop n data offset ys = Some (zs, offset') \<longleftrightarrow>
     (\<exists>xs. zs = ys @ xs \<and> length xs = n \<and> list_all ok xs \<and>
           offset \<le> length data \<and> occurs data offset (concat (map enc xs)) \<and>
           offset' = offset + length (concat (map enc xs)))"
  if "offset \<le> length data"
  using that
proof (induction n arbitrary: offset ys)
  case 0
  then show ?case by (auto simp: loop_0)
next
  case (Suc n)
  have step: "loop n data off (ys @ [x]) = Some (zs, offset') \<longleftrightarrow>
      (\<exists>xs. zs = (ys @ [x]) @ xs \<and> length xs = n \<and> list_all ok xs \<and> off \<le> length data \<and>
            occurs data off (concat (map enc xs)) \<and> offset' = off + length (concat (map enc xs)))"
    if "dec data offset = Some (x, off)" for x off
    using that by (intro Suc.IH) (auto simp: dec_iff dest: occurs_length)
  show ?case
  proof
    assume "loop (Suc n) data offset ys = Some (zs, offset')"
    then obtain x off where d: "dec data offset = Some (x, off)"
      and l: "loop n data off (ys @ [x]) = Some (zs, offset')"
      by (auto simp: loop_Suc)
    from l [unfolded step [OF d]] obtain xs where
      "zs = ys @ (x # xs)" "length (x # xs) = Suc n" "list_all ok xs"
      "occurs data off (concat (map enc xs))" "offset' = off + length (concat (map enc xs))"
      by auto
    moreover have "ok x" "occurs data offset (enc x)" "off = offset + length (enc x)"
      using d by (auto simp: dec_iff)
    ultimately show "\<exists>xs. zs = ys @ xs \<and> length xs = Suc n \<and> list_all ok xs \<and>
        offset \<le> length data \<and> occurs data offset (concat (map enc xs)) \<and>
        offset' = offset + length (concat (map enc xs))"
      using Suc.prems by (intro exI [of _ "x # xs"]) (simp add: occurs_append)
  next
    assume "\<exists>xs. zs = ys @ xs \<and> length xs = Suc n \<and> list_all ok xs \<and>
        offset \<le> length data \<and> occurs data offset (concat (map enc xs)) \<and>
        offset' = offset + length (concat (map enc xs))"
    then obtain x xs where *: "zs = ys @ (x # xs)" "length xs = n" "list_all ok (x # xs)"
      "occurs data offset (enc x @ concat (map enc xs))"
      "offset' = offset + length (enc x @ concat (map enc xs))"
      by (auto simp: length_Suc_conv)
    then have d: "dec data offset = Some (x, offset + length (enc x))"
      by (simp add: dec_iff occurs_append)
    have "loop n data (offset + length (enc x)) (ys @ [x]) = Some (zs, offset')"
      unfolding step [OF d] using * by (intro exI [of _ xs]) (auto simp: occurs_append dest: occurs_length)
    with d show "loop (Suc n) data offset ys = Some (zs, offset')"
      by (simp add: loop_Suc)
  qed
qed

lemma decs_iff:
  "decs data = Some xs \<longleftrightarrow> length xs < 65536 \<and> list_all ok xs \<and> occurs data 0 (encs xs)"
proof
  assume "decs data = Some xs"
  then obtain n offset offset' where c: "take_count data = Some (n, offset)"
    and l: "loop n data offset [] = Some (xs, offset')"
    by (auto simp: decs_eq)
  then have "offset \<le> length data" by (auto simp: count_iff dest: prefix_length_le)
  with l c show "length xs < 65536 \<and> list_all ok xs \<and> occurs data 0 (encs xs)"
    by (auto simp: loop_iff count_iff encs_eq occurs_append)
next
  assume *: "length xs < 65536 \<and> list_all ok xs \<and> occurs data 0 (encs xs)"
  then have c: "take_count data = Some (length xs, length (count_bytes (length xs)))"
    by (simp add: count_iff encs_eq occurs_append)
  then have le: "length (count_bytes (length xs)) \<le> length data"
    by (auto simp: count_iff dest: prefix_length_le)
  have "loop (length xs) data (length (count_bytes (length xs))) [] =
      Some (xs, length (count_bytes (length xs)) + length (concat (map enc xs)))"
    using * le by (auto simp: loop_iff encs_eq occurs_append)
  with c show "decs data = Some xs" by (simp add: decs_eq)
qed

end

sublocale counted_codec \<subseteq> as_list: message_codec encs decs "\<lambda>xs. length xs < 65536 \<and> list_all ok xs"
  by unfold_locales (simp add: decs_iff)

end
