(* ===== verification/Wire_Codec.thy ===== *)
theory Wire_Codec
  imports Codec_Interface
begin

text \<open>
  protocol.hpp (message types and records) and the codecs of protocol.cpp: the big-endian
  append and take helpers, typed messages, chat messages, direct messages, histories and user
  lists. A decoder returns None where the code returns false; what it may have assigned to its
  out parameter by then is not modelled, because every caller discards it.

  The locale \<open>codec\<close> states what one record codec promises at any offset of a buffer, and
  \<open>counted_codec\<close> derives the laws of a count-prefixed list of such records; both list formats
  of the protocol (histories and user lists) are interpretations of it.
\<close>

section \<open>Message types and records\<close>

text \<open>
  \<^verbatim>\<open>enum class MsgType : std::uint8_t\<close>: a value of the enumeration is any byte, the named ones
  are the enumerators. \<open>Unnamed\<close> stands for a byte that names none of them.
\<close>

datatype MsgType = Login | Register | AuthOk | AuthFail | System | Chat | ChatMsg | Join
  | History | Quit | HistoryReq | RoomsReq | Joined | Direct | DirectMsg | UsersReq | UsersList
  | Unnamed u8

fun msg_code :: "MsgType \<Rightarrow> u8" where
  "msg_code Login = 0x01"
| "msg_code Register = 0x02"
| "msg_code AuthOk = 0x03"
| "msg_code AuthFail = 0x04"
| "msg_code System = 0x05"
| "msg_code Chat = 0x06"
| "msg_code ChatMsg = 0x07"
| "msg_code Join = 0x08"
| "msg_code History = 0x09"
| "msg_code Quit = 0x0A"
| "msg_code HistoryReq = 0x0B"
| "msg_code RoomsReq = 0x0C"
| "msg_code Joined = 0x0D"
| "msg_code Direct = 0x0E"
| "msg_code DirectMsg = 0x0F"
| "msg_code UsersReq = 0x10"
| "msg_code UsersList = 0x11"
| "msg_code (Unnamed b) = b"

definition msg_types :: "MsgType list" where
  "msg_types = [Login, Register, AuthOk, AuthFail, System, Chat, ChatMsg, Join, History, Quit,
     HistoryReq, RoomsReq, Joined, Direct, DirectMsg, UsersReq, UsersList]"

text \<open>\<^verbatim>\<open>static_cast<MsgType>\<close> of a byte: the enumerator with that value, if there is one.\<close>

definition msg_of_code :: "u8 \<Rightarrow> MsgType" where
  "msg_of_code b =
     (case List.find (\<lambda>t. msg_code t = b) msg_types of Some t \<Rightarrow> t | None \<Rightarrow> Unnamed b)"

record ChatMessage =
  msg_room :: string
  msg_username :: string
  msg_content :: string
  msg_timestamp :: i64

record DirectMessage =
  dm_from :: string
  dm_to :: string
  dm_content :: string
  dm_timestamp :: i64

section \<open>Appending fields\<close>

definition append_u16 :: "string \<Rightarrow> u16 \<Rightarrow> string" where
  "append_u16 out value =
     out @ [char_of_u8 (ucast (drop_bit 8 value AND 0xFF)), char_of_u8 (ucast (value AND 0xFF))]"

definition append_u32 :: "string \<Rightarrow> u32 \<Rightarrow> string" where
  "append_u32 out value =
     out @ [char_of_u8 (ucast (drop_bit 24 value AND 0xFF)),
            char_of_u8 (ucast (drop_bit 16 value AND 0xFF)),
            char_of_u8 (ucast (drop_bit 8 value AND 0xFF)),
            char_of_u8 (ucast (value AND 0xFF))]"

definition append_u64 :: "string \<Rightarrow> u64 \<Rightarrow> string" where
  "append_u64 out value =
     foldl (\<lambda>out shift. out @ [char_of_u8 (ucast (drop_bit shift value AND 0xFF))]) out
       [56, 48, 40, 32, 24, 16, 8, 0]"

section \<open>Taking fields\<close>

text \<open>
  A take helper reads at an offset and returns the field and the offset behind it; None is the
  \<^verbatim>\<open>false\<close> of the code's range check.
\<close>

definition take_bytes :: "string \<Rightarrow> nat \<Rightarrow> nat \<Rightarrow> (string \<times> nat) option" where
  "take_bytes data offset len =
     (if offset > length data \<or> length data - offset < len then None
      else Some (take len (drop offset data), offset + len))"

definition byte_at :: "string \<Rightarrow> nat \<Rightarrow> u8" where
  "byte_at data i = u8_of_char (data ! i)"

definition take_u16 :: "string \<Rightarrow> nat \<Rightarrow> (u16 \<times> nat) option" where
  "take_u16 data offset =
     (if offset > length data \<or> length data - offset < 2 then None
      else Some (push_bit 8 (ucast (byte_at data offset)) OR ucast (byte_at data (offset + 1)),
                 offset + 2))"

definition take_u32 :: "string \<Rightarrow> nat \<Rightarrow> (u32 \<times> nat) option" where
  "take_u32 data offset =
     (if offset > length data \<or> length data - offset < 4 then None
      else Some (push_bit 24 (ucast (byte_at data offset)) OR
                 push_bit 16 (ucast (byte_at data (offset + 1))) OR
                 push_bit 8 (ucast (byte_at data (offset + 2))) OR
                 ucast (byte_at data (offset + 3)),
                 offset + 4))"

definition take_u64 :: "string \<Rightarrow> nat \<Rightarrow> (u64 \<times> nat) option" where
  "take_u64 data offset =
     (if offset > length data \<or> length data - offset < 8 then None
      else Some (foldl (\<lambda>out i. push_bit 8 out OR ucast (byte_at data (offset + i))) 0 [0..<8],
                 offset + 8))"

section \<open>Typed messages\<close>

definition encode_message :: "MsgType \<Rightarrow> string \<Rightarrow> string" where
  "encode_message type payload = char_of_u8 (msg_code type) # payload"

definition decode_message :: "string \<Rightarrow> (MsgType \<times> string) option" where
  "decode_message frame =
     (case frame of [] \<Rightarrow> None | b # payload \<Rightarrow> Some (msg_of_code (u8_of_char b), payload))"

section \<open>Chat messages and histories\<close>

definition encode_chat_message :: "ChatMessage \<Rightarrow> string" where
  "encode_chat_message message =
     (let payload = append_u16 [] (of_nat (length (msg_room message)));
          payload = payload @ msg_room message;
          payload = append_u16 payload (of_nat (length (msg_username message)));
          payload = payload @ msg_username message;
          payload = append_u64 payload (msg_timestamp message);
          payload = append_u32 payload (of_nat (length (msg_content message)))
      in payload @ msg_content message)"

definition decode_chat_message :: "string \<Rightarrow> ChatMessage option" where
  "decode_chat_message payload =
     do {
       (room_len, offset) \<leftarrow> take_u16 payload 0;
       (room, offset) \<leftarrow> take_bytes payload offset (unat room_len);
       (user_len, offset) \<leftarrow> take_u16 payload offset;
       (username, offset) \<leftarrow> take_bytes payload offset (unat user_len);
       (timestamp, offset) \<leftarrow> take_u64 payload offset;
       (content_len, offset) \<leftarrow> take_u32 payload offset;
       (content, offset) \<leftarrow> take_bytes payload offset (unat content_len);
       Some \<lparr>msg_room = room, msg_username = username, msg_content = content,
             msg_timestamp = timestamp\<rparr>
     }"

definition encode_history :: "ChatMessage list \<Rightarrow> string" where
  "encode_history messages =
     foldl (\<lambda>payload message. payload @ encode_chat_message message)
       (append_u16 [] (of_nat (length messages))) messages"

text \<open>The body of the loop of \<^verbatim>\<open>decode_history\<close>.\<close>

definition take_history_entry :: "string \<Rightarrow> nat \<Rightarrow> (ChatMessage \<times> nat) option" where
  "take_history_entry payload offset =
     do {
       (room_len, offset) \<leftarrow> take_u16 payload offset;
       (room, offset) \<leftarrow> take_bytes payload offset (unat room_len);
       (user_len, offset) \<leftarrow> take_u16 payload offset;
       (username, offset) \<leftarrow> take_bytes payload offset (unat user_len);
       (timestamp, offset) \<leftarrow> take_u64 payload offset;
       (content_len, offset) \<leftarrow> take_u32 payload offset;
       (content, offset) \<leftarrow> take_bytes payload offset (unat content_len);
       Some (\<lparr>msg_room = room, msg_username = username, msg_content = content,
              msg_timestamp = timestamp\<rparr>, offset)
     }"

fun decode_history_loop ::
    "nat \<Rightarrow> string \<Rightarrow> nat \<Rightarrow> ChatMessage list \<Rightarrow> (ChatMessage list \<times> nat) option" where
  "decode_history_loop 0 payload offset messages = Some (messages, offset)"
| "decode_history_loop (Suc n) payload offset messages =
     do {
       (message, offset) \<leftarrow> take_history_entry payload offset;
       decode_history_loop n payload offset (messages @ [message])
     }"

definition decode_history :: "string \<Rightarrow> ChatMessage list option" where
  "decode_history payload =
     do {
       (count, offset) \<leftarrow> take_u16 payload 0;
       (messages, offset) \<leftarrow> decode_history_loop (unat count) payload offset [];
       Some messages
     }"

section \<open>Direct messages\<close>

definition encode_direct_message :: "DirectMessage \<Rightarrow> string" where
  "encode_direct_message message =
     (let payload = append_u16 [] (of_nat (length (dm_from message)));
          payload = payload @ dm_from message;
          payload = append_u16 payload (of_nat (length (dm_to message)));
          payload = payload @ dm_to message;
          payload = append_u64 payload (dm_timestamp message);
          payload = append_u32 payload (of_nat (length (dm_content message)))
      in payload @ dm_content message)"

definition decode_direct_message :: "string \<Rightarrow> DirectMessage option" where
  "decode_direct_message payload =
     do {
       (from_len, offset) \<leftarrow> take_u16 payload 0;
       (from, offset) \<leftarrow> take_bytes payload offset (unat from_len);
       (to_len, offset) \<leftarrow> take_u16 payload offset;
       (to, offset) \<leftarrow> take_bytes payload offset (unat to_len);
       (timestamp, offset) \<leftarrow> take_u64 payload offset;
       (content_len, offset) \<leftarrow> take_u32 payload offset;
       (content, offset) \<leftarrow> take_bytes payload offset (unat content_len);
       Some \<lparr>dm_from = from, dm_to = to, dm_content = content, dm_timestamp = timestamp\<rparr>
     }"

section \<open>User lists\<close>

definition encode_user_list :: "string list \<Rightarrow> string" where
  "encode_user_list usernames =
     foldl (\<lambda>payload name. append_u16 payload (of_nat (length name)) @ name)
       (append_u16 [] (of_nat (length usernames))) usernames"

definition take_user_entry :: "string \<Rightarrow> nat \<Rightarrow> (string \<times> nat) option" where
  "take_user_entry payload offset =
     do {
       (name_len, offset) \<leftarrow> take_u16 payload offset;
       take_bytes payload offset (unat name_len)
     }"

fun decode_user_list_loop ::
    "nat \<Rightarrow> string \<Rightarrow> nat \<Rightarrow> string list \<Rightarrow> (string list \<times> nat) option" where
  "decode_user_list_loop 0 payload offset usernames = Some (usernames, offset)"
| "decode_user_list_loop (Suc n) payload offset usernames =
     do {
       (name, offset) \<leftarrow> take_user_entry payload offset;
       decode_user_list_loop n payload offset (usernames @ [name])
     }"

definition decode_user_list :: "string \<Rightarrow> string list option" where
  "decode_user_list payload =
     do {
       (count, offset) \<leftarrow> take_u16 payload 0;
       (usernames, offset) \<leftarrow> decode_user_list_loop (unat count) payload offset [];
       Some usernames
     }"

section \<open>The helpers read and write big-endian integers\<close>

definition be_bytes :: "nat \<Rightarrow> 'w::len word \<Rightarrow> string" where
  "be_bytes k v = map char_of_u8 (be_split k v)"

lemma length_be_bytes [simp]: "length (be_bytes k v) = k"
  by (simp add: be_bytes_def)

lemma append_u16_eq [codec_simps]: "append_u16 out v = out @ be_bytes 2 v"
  by (simp add: append_u16_def be_bytes_def be_split_def byte_simps upt_rec)

lemma append_u32_eq [codec_simps]: "append_u32 out v = out @ be_bytes 4 v"
  by (simp add: append_u32_def be_bytes_def be_split_def byte_simps upt_rec)

lemma append_u64_eq [codec_simps]: "append_u64 out v = out @ be_bytes 8 v"
  by (simp add: append_u64_def be_bytes_def be_split_def byte_simps upt_rec)

lemma be_read_iff:
  assumes "LENGTH('w) = 8 * k" and "offset + k \<le> length data"
  shows "be_join (map (\<lambda>i. byte_at data (offset + i)) [0..<k]) = (v :: 'w::len word) \<longleftrightarrow>
    occurs data offset (be_bytes k v)"
proof -
  let ?raw = "take k (drop offset data)"
  have "map (\<lambda>i. byte_at data (offset + i)) [0..<k] = map u8_of_char ?raw"
    using assms(2) by (intro nth_equalityI) (auto simp: byte_at_def)
  moreover have "be_join (map u8_of_char ?raw) = v \<longleftrightarrow> map u8_of_char ?raw = be_split k v"
    using be_join_eq_iff [of "map u8_of_char ?raw" v] assms by simp
  moreover have "map u8_of_char ?raw = be_split k v \<longleftrightarrow> ?raw = be_bytes k v"
    unfolding be_bytes_def by (rule map_u8_of_char_eq_iff)
  ultimately show ?thesis using assms(2) by (simp add: occurs_take_drop)
qed

lemma take_u16_iff [codec_simps]:
  "take_u16 data offset = Some (v, offset') \<longleftrightarrow>
     occurs data offset (be_bytes 2 v) \<and> offset' = offset + 2"
proof (cases "offset + 2 \<le> length data")
  case True
  have "take_u16 data offset = Some (be_join (map (\<lambda>i. byte_at data (offset + i)) [0..<2]), offset + 2)"
    using True by (simp add: take_u16_def be_join_def upt_rec)
  then show ?thesis using be_read_iff [of 2 offset data v] True by auto
next
  case False
  then show ?thesis by (auto simp: take_u16_def dest: occurs_length)
qed

lemma take_u32_iff [codec_simps]:
  "take_u32 data offset = Some (v, offset') \<longleftrightarrow>
     occurs data offset (be_bytes 4 v) \<and> offset' = offset + 4"
proof (cases "offset + 4 \<le> length data")
  case True
  have "[0..<4] = [0, 1, 2, 3 :: nat]" by (simp add: upt_rec)
  then have "take_u32 data offset = Some (be_join (map (\<lambda>i. byte_at data (offset + i)) [0..<4]), offset + 4)"
    using True by (simp add: take_u32_def be_join_def push_bit_or or.assoc)
  then show ?thesis using be_read_iff [of 4 offset data v] True by auto
next
  case False
  then show ?thesis by (auto simp: take_u32_def dest: occurs_length)
qed

lemma take_u64_iff [codec_simps]:
  "take_u64 data offset = Some (v, offset') \<longleftrightarrow>
     occurs data offset (be_bytes 8 v) \<and> offset' = offset + 8"
proof (cases "offset + 8 \<le> length data")
  case True
  have "take_u64 data offset = Some (be_join (map (\<lambda>i. byte_at data (offset + i)) [0..<8]), offset + 8)"
    using True by (simp add: take_u64_def be_join_def foldl_map)
  then show ?thesis using be_read_iff [of 8 offset data v] True by auto
next
  case False
  then show ?thesis by (auto simp: take_u64_def dest: occurs_length)
qed

lemma take_bytes_iff [codec_simps]:
  "take_bytes data offset n = Some (s, offset') \<longleftrightarrow>
     length s = n \<and> occurs data offset s \<and> offset' = offset + n"
  by (auto simp: take_bytes_def occurs_take_drop)

lemma unat_of_nat_u16: "n < 65536 \<Longrightarrow> unat (of_nat n :: u16) = n"
  by (simp add: unat_of_nat)

lemma unat_of_nat_u32: "n < 4294967296 \<Longrightarrow> unat (of_nat n :: u32) = n"
  by (simp add: unat_of_nat)

lemma unat_u16_less: "unat (v :: u16) < 65536"
  using unsigned_less [of v, where 'a = nat] by simp

lemma unat_u32_less: "unat (v :: u32) < 4294967296"
  using unsigned_less [of v, where 'a = nat] by simp

lemma of_nat_unat_eq: "of_nat (unat v) = (v :: 'w::len word)"
  by simp

text \<open>
  A length field followed by that many bytes: \<^const>\<open>take_user_entry\<close> reads one with a 16-bit
  length, \<open>take_text\<close> one with a 32-bit length. The decoders are chains of these.
\<close>

definition take_text :: "string \<Rightarrow> nat \<Rightarrow> (string \<times> nat) option" where
  "take_text payload offset =
     do {
       (len, offset) \<leftarrow> take_u32 payload offset;
       take_bytes payload offset (unat len)
     }"

definition name_field :: "string \<Rightarrow> string" where
  "name_field s = be_bytes 2 (of_nat (length s) :: u16) @ s"

definition text_field :: "string \<Rightarrow> string" where
  "text_field s = be_bytes 4 (of_nat (length s) :: u32) @ s"

lemma take_user_entry_iff [codec_simps]:
  "take_user_entry data offset = Some (s, offset') \<longleftrightarrow>
     length s < 65536 \<and> occurs data offset (name_field s) \<and> offset' = offset + length (name_field s)"
    (is "?l \<longleftrightarrow> ?r")
proof
  assume ?l
  then obtain n :: u16 where n: "occurs data offset (be_bytes 2 n)" "length s = unat n"
    "occurs data (offset + 2) s" "offset' = offset + 2 + length s"
    by (auto simp: take_user_entry_def codec_simps)
  then have "(of_nat (length s) :: u16) = n" by simp
  with n show ?r using unat_u16_less [of n] by (simp add: name_field_def occurs_append)
next
  assume ?r
  then show ?l
    by (auto simp: take_user_entry_def codec_simps name_field_def occurs_append unat_of_nat_u16
        Option.bind_eq_Some_conv)
qed

lemma take_text_iff [codec_simps]:
  "take_text data offset = Some (s, offset') \<longleftrightarrow>
     length s < 4294967296 \<and> occurs data offset (text_field s) \<and> offset' = offset + length (text_field s)"
    (is "?l \<longleftrightarrow> ?r")
proof
  assume ?l
  then obtain n :: u32 where n: "occurs data offset (be_bytes 4 n)" "length s = unat n"
    "occurs data (offset + 4) s" "offset' = offset + 4 + length s"
    by (auto simp: take_text_def codec_simps)
  then have "(of_nat (length s) :: u32) = n" by simp
  with n show ?r using unat_u32_less [of n] by (simp add: text_field_def occurs_append)
next
  assume ?r
  then show ?l
    by (auto simp: take_text_def codec_simps text_field_def occurs_append unat_of_nat_u32
        Option.bind_eq_Some_conv)
qed

section \<open>The record codecs\<close>

definition fits_chat_message :: "ChatMessage \<Rightarrow> bool" where
  "fits_chat_message m \<longleftrightarrow> length (msg_room m) < 65536 \<and> length (msg_username m) < 65536 \<and>
     length (msg_content m) < 4294967296"

definition fits_direct_message :: "DirectMessage \<Rightarrow> bool" where
  "fits_direct_message m \<longleftrightarrow> length (dm_from m) < 65536 \<and> length (dm_to m) < 65536 \<and>
     length (dm_content m) < 4294967296"

definition fits_name :: "string \<Rightarrow> bool" where
  "fits_name s \<longleftrightarrow> length s < 65536"

lemma encode_chat_message_eq [codec_simps]:
  "encode_chat_message m = name_field (msg_room m) @ name_field (msg_username m) @
     be_bytes 8 (msg_timestamp m) @ text_field (msg_content m)"
  by (simp add: encode_chat_message_def codec_simps name_field_def text_field_def)

lemma encode_direct_message_eq [codec_simps]:
  "encode_direct_message m = name_field (dm_from m) @ name_field (dm_to m) @
     be_bytes 8 (dm_timestamp m) @ text_field (dm_content m)"
  by (simp add: encode_direct_message_def codec_simps name_field_def text_field_def)

lemma take_history_entry_chain:
  "take_history_entry payload offset =
     do {
       (room, offset) \<leftarrow> take_user_entry payload offset;
       (username, offset) \<leftarrow> take_user_entry payload offset;
       (timestamp, offset) \<leftarrow> take_u64 payload offset;
       (content, offset) \<leftarrow> take_text payload offset;
       Some (\<lparr>msg_room = room, msg_username = username, msg_content = content,
              msg_timestamp = timestamp\<rparr>, offset)
     }"
  by (simp add: take_history_entry_def take_user_entry_def take_text_def split_def)

lemma decode_chat_message_chain:
  "decode_chat_message payload = map_option fst (take_history_entry payload 0)"
  by (simp add: decode_chat_message_def take_history_entry_def split_def Option.map_conv_bind_option)

lemma decode_direct_message_chain:
  "decode_direct_message payload =
     do {
       (from, offset) \<leftarrow> take_user_entry payload 0;
       (to, offset) \<leftarrow> take_user_entry payload offset;
       (timestamp, offset) \<leftarrow> take_u64 payload offset;
       (content, offset) \<leftarrow> take_text payload offset;
       Some \<lparr>dm_from = from, dm_to = to, dm_content = content, dm_timestamp = timestamp\<rparr>
     }"
  by (simp add: decode_direct_message_def take_user_entry_def take_text_def split_def)

lemma take_history_entry_iff:
  "take_history_entry data offset = Some (m, offset') \<longleftrightarrow>
     fits_chat_message m \<and> occurs data offset (encode_chat_message m) \<and>
     offset' = offset + length (encode_chat_message m)"
  by (cases m) (auto simp: take_history_entry_chain codec_simps Option.bind_eq_Some_conv
      fits_chat_message_def occurs_append add.assoc)

text \<open>The decoders keep the contract of \<open>Codec_Interface\<close>.\<close>

definition count_field :: "nat \<Rightarrow> string" where
  "count_field n = be_bytes 2 (of_nat n :: u16)"

definition take_count :: "string \<Rightarrow> (nat \<times> nat) option" where
  "take_count data = map_option (\<lambda>(n, offset). (unat n, offset)) (take_u16 data 0)"

lemma take_count_iff:
  "take_count data = Some (n, offset) \<longleftrightarrow>
     n < 65536 \<and> occurs data 0 (count_field n) \<and> offset = length (count_field n)"
proof
  assume "take_count data = Some (n, offset)"
  then obtain v :: u16 where "take_u16 data 0 = Some (v, offset)" and n: "n = unat v"
    by (auto simp: take_count_def)
  moreover have "(of_nat n :: u16) = v" using n by simp
  ultimately show "n < 65536 \<and> occurs data 0 (count_field n) \<and> offset = length (count_field n)"
    using n unat_u16_less [of v] by (simp add: codec_simps count_field_def)
next
  assume r: "n < 65536 \<and> occurs data 0 (count_field n) \<and> offset = length (count_field n)"
  then have "take_u16 data 0 = Some (of_nat n, offset)"
    by (simp add: codec_simps count_field_def)
  with r show "take_count data = Some (n, offset)"
    by (simp add: take_count_def unat_of_nat_u16)
qed

lemma foldl_append_concat: "foldl (\<lambda>acc x. acc @ f x) pre xs = pre @ concat (map f xs)"
  by (induction xs arbitrary: pre) simp_all

lemma encode_history_eq: "encode_history ms = count_field (length ms) @ concat (map encode_chat_message ms)"
  by (simp add: encode_history_def foldl_append_concat count_field_def append_u16_eq)

lemma encode_user_list_eq: "encode_user_list us = count_field (length us) @ concat (map name_field us)"
proof -
  have "(\<lambda>payload name. append_u16 payload (of_nat (length name)) @ name) =
      (\<lambda>payload name. payload @ name_field name)"
    by (simp add: fun_eq_iff codec_simps name_field_def)
  then show ?thesis
    by (simp add: encode_user_list_def foldl_append_concat count_field_def codec_simps)
qed

lemma decode_history_eq: "decode_history data =
    Option.bind (take_count data) (\<lambda>(n, offset). map_option fst (decode_history_loop n data offset []))"
  by (cases "take_u16 data 0")
    (simp_all add: decode_history_def take_count_def split_def map_conv_bind_option comp_def)

lemma decode_user_list_eq: "decode_user_list data =
    Option.bind (take_count data) (\<lambda>(n, offset). map_option fst (decode_user_list_loop n data offset []))"
  by (cases "take_u16 data 0")
    (simp_all add: decode_user_list_def take_count_def split_def map_conv_bind_option comp_def)

interpretation chat_codec: message_codec encode_chat_message decode_chat_message fits_chat_message
  by unfold_locales (auto simp: decode_chat_message_chain take_history_entry_iff)

interpretation direct_codec: message_codec encode_direct_message decode_direct_message fits_direct_message
proof unfold_locales
  fix data x
  show "decode_direct_message data = Some x \<longleftrightarrow> fits_direct_message x \<and> prefix (encode_direct_message x) data"
    unfolding occurs_0 [symmetric]
    by (cases x) (auto simp: decode_direct_message_chain codec_simps Option.bind_eq_Some_conv
        fits_direct_message_def occurs_append add.assoc)
qed

interpretation history_codec: counted_codec encode_chat_message take_history_entry fits_chat_message
  decode_history_loop encode_history decode_history count_field take_count
  by unfold_locales
    (auto simp: take_history_entry_iff take_count_iff encode_history_eq decode_history_eq)

interpretation users_codec: counted_codec name_field take_user_entry fits_name
  decode_user_list_loop encode_user_list decode_user_list count_field take_count
  by unfold_locales
    (auto simp: take_user_entry_iff take_count_iff encode_user_list_eq decode_user_list_eq fits_name_def)

section \<open>Typed messages\<close>

lemma msg_codes_recovered: "list_all (\<lambda>t. msg_of_code (msg_code t) = t) msg_types"
  by code_simp

lemma msg_of_code_msg_code: "t \<in> set msg_types \<Longrightarrow> msg_of_code (msg_code t) = t"
  using msg_codes_recovered by (simp add: list_all_iff)

lemma msg_code_msg_of_code: "msg_code (msg_of_code b) = b"
  by (auto simp: msg_of_code_def find_Some_iff split: option.splits)

lemma decode_message_Some_iff:
  "decode_message frame = Some (t, payload) \<longleftrightarrow>
     frame = encode_message t payload \<and> t = msg_of_code (msg_code t)"
  by (cases frame) (auto simp: decode_message_def encode_message_def msg_code_msg_of_code)

lemma decode_message_encode:
  "t \<in> set msg_types \<Longrightarrow> decode_message (encode_message t p) = Some (t, p)"
  by (simp add: decode_message_Some_iff msg_of_code_msg_code)

lemma decode_message_None_iff: "decode_message frame = None \<longleftrightarrow> frame = []"
  by (simp add: decode_message_def split: list.split)

end
