(* ===== verification/Store_Interface.thy ===== *)
theory Store_Interface
  imports Sqlite_Engine Wire_Codec
begin

text \<open>
  What the server relies on of its database object. \<open>accounts\<close> and \<open>rows\<close> are the abstract
  contents (the registered names with their stored hashes, and the log of stored messages);
  strings reach them as C strings. A store may fail any call, but then changes nothing; it never
  drops an account or a message, never registers a name twice, and answers a history query only
  with messages of the room asked for.
\<close>

definition stored_message :: "ChatMessage \<Rightarrow> message_row \<Rightarrow> bool" where
  "stored_message m r \<longleftrightarrow> m_room r = c_str (msg_room m) \<and> m_user r = c_str (msg_username m) \<and>
     m_content r = c_str (msg_content m) \<and> m_sent r = msg_timestamp m"

definition message_of_row :: "message_row \<Rightarrow> ChatMessage" where
  "message_of_row r = \<lparr>msg_room = c_str (m_room r), msg_username = c_str (m_user r),
     msg_content = c_str (m_content r), msg_timestamp = m_sent r\<rparr>"

locale chat_store =
  fixes good :: "'db \<Rightarrow> bool"
    and accounts :: "'db \<Rightarrow> string \<rightharpoonup> string"
    and rows :: "'db \<Rightarrow> message_row list"
    and matches :: "string \<Rightarrow> string \<Rightarrow> bool"
    and register :: "'s \<Rightarrow> i64 \<Rightarrow> string \<Rightarrow> string \<Rightarrow> 'db \<Rightarrow> string option \<times> 'db"
    and authenticate :: "string \<Rightarrow> string \<Rightarrow> 'db \<Rightarrow> string option \<times> 'db"
    and add :: "ChatMessage \<Rightarrow> 'db \<Rightarrow> bool \<times> 'db"
    and recent :: "string \<Rightarrow> int \<Rightarrow> 'db \<Rightarrow> ChatMessage list \<times> 'db"
    and list_rooms :: "int \<Rightarrow> 'db \<Rightarrow> string list \<times> 'db"
  assumes register_law: "good db \<Longrightarrow> register salt now u p db = (err, db') \<Longrightarrow>
      good db' \<and> rows db' = rows db \<and>
      (if err = None then accounts db (c_str u) = None \<and>
         (\<exists>h. matches h p \<and> accounts db' = (accounts db)(c_str u \<mapsto> h))
       else accounts db' = accounts db)"
    and authenticate_law: "good db \<Longrightarrow> authenticate u p db = (err, db') \<Longrightarrow>
      good db' \<and> rows db' = rows db \<and> accounts db' = accounts db \<and>
      (err = None \<longrightarrow> (\<exists>h. accounts db (c_str u) = Some h \<and> matches h p))"
    and add_law: "good db \<Longrightarrow> add m db = (stored, db') \<Longrightarrow>
      good db' \<and> accounts db' = accounts db \<and>
      (if stored then \<exists>r. stored_message m r \<and> rows db' = rows db @ [r] else rows db' = rows db)"
    and recent_law: "good db \<Longrightarrow> recent room n db = (ms, db') \<Longrightarrow>
      good db' \<and> accounts db' = accounts db \<and> rows db' = rows db \<and>
      set ms \<subseteq> message_of_row ` {r \<in> set (rows db). m_room r = c_str room}"
    and list_rooms_law: "good db \<Longrightarrow> list_rooms n db = (rs, db') \<Longrightarrow>
      good db' \<and> accounts db' = accounts db \<and> rows db' = rows db \<and>
      set rs \<subseteq> (\<lambda>r. c_str (m_room r)) ` set (rows db)"
begin

text \<open>A registered name stays registered and cannot be registered again, whatever its spelling.\<close>

lemma register_keeps: "good db \<Longrightarrow> register salt now u p db = (err, db') \<Longrightarrow> accounts db \<subseteq>\<^sub>m accounts db'"
  using register_law [of db salt now u p err db'] by (auto simp: map_le_def split: if_splits)

lemma register_taken:
  "good db \<Longrightarrow> accounts db (c_str u) \<noteq> None \<Longrightarrow> register salt now u p db = (err, db') \<Longrightarrow>
     err \<noteq> None \<and> accounts db' = accounts db"
  using register_law [of db salt now u p err db'] by (auto split: if_splits)

lemma register_dom:
  "good db \<Longrightarrow> register salt now u p db = (err, db') \<Longrightarrow>
     dom (accounts db') = (if err = None then insert (c_str u) (dom (accounts db)) else dom (accounts db))"
  using register_law [of db salt now u p err db'] by (auto split: if_splits)

lemma authenticate_registered:
  "good db \<Longrightarrow> authenticate u p db = (None, db') \<Longrightarrow> c_str u \<in> dom (accounts db)"
  using authenticate_law [of db u p None db'] by auto

lemma add_rows:
  "good db \<Longrightarrow> add m db = (stored, db') \<Longrightarrow> r \<in> set (rows db') \<Longrightarrow>
     r \<in> set (rows db) \<or> (stored \<and> stored_message m r)"
  using add_law [of db m stored db'] by (auto split: if_splits)

lemma recent_room:
  "good db \<Longrightarrow> recent room n db = (ms, db') \<Longrightarrow> m \<in> set ms \<Longrightarrow> msg_room m = c_str room"
  using recent_law [of db room n ms db'] by (auto simp: message_of_row_def)

end

end
