(* ===== verification/Chat_Db.thy ===== *)
theory Chat_Db
  imports Store_Interface Sha256
begin

text \<open>
  chat_db.cpp: the object \<^verbatim>\<open>ChatDatabase\<close> with its account and message operations, over the engine
  parameter of \<open>Sqlite_Engine\<close>. Each operation runs under the object's mutex, so it is one atomic
  step. The reading of the clock and the random bytes of the salt are arguments.
\<close>

section \<open>Passwords\<close>

text \<open>\<open>rnd i\<close> is the i-th number drawn from \<^verbatim>\<open>uniform_int_distribution(0, 255)\<close>.\<close>

definition generate_salt :: "(nat \<Rightarrow> u32) \<Rightarrow> string" where
  "generate_salt rnd =
     foldl (\<lambda>salt i. (salt @ [kHex ! unat (drop_bit 4 (rnd i) AND 0x0F)]) @ [kHex ! unat (rnd i AND 0x0F)])
       '''' [0..<16]"

definition hash_password :: "string \<Rightarrow> string \<Rightarrow> string" where
  "hash_password salt password = salt @ ''$'' @ sha256_hex (salt @ password)"

section \<open>The database object\<close>

record 'd ChatDatabase =
  cd_path :: string
  cd_db :: "'d option"

definition ChatDatabase_new :: "string \<Rightarrow> 'd ChatDatabase" where
  "ChatDatabase_new path = \<lparr>cd_path = path, cd_db = None\<rparr>"

definition is_open :: "'d ChatDatabase \<Rightarrow> bool" where
  "is_open db \<longleftrightarrow> cd_db db \<noteq> None"

definition db_open :: "'d sqlite \<Rightarrow> 'd ChatDatabase \<Rightarrow> bool \<times> 'd ChatDatabase" where
  "db_open e db =
     (case cd_db db of
        Some d \<Rightarrow> (True, db)
      | None \<Rightarrow>
          (case sqlite3_open e (c_str (cd_path db)) of
             (rc, raw) \<Rightarrow>
               if rc \<noteq> SQLITE_OK then (False, db)
               else (case sqlite3_exec e raw sql_schema of
                       (rc, raw) \<Rightarrow>
                         if rc \<noteq> SQLITE_OK then (False, db\<lparr>cd_db := Some raw\<rparr>)
                         else (True, db\<lparr>cd_db := Some raw\<rparr>))))"

section \<open>Accounts\<close>

text \<open>None is the returned \<^verbatim>\<open>true\<close>; Some carries the text assigned to \<^verbatim>\<open>error\<close>.\<close>

definition register_user ::
    "'d sqlite \<Rightarrow> (nat \<Rightarrow> u32) \<Rightarrow> i64 \<Rightarrow> string \<Rightarrow> string \<Rightarrow> 'd ChatDatabase \<Rightarrow>
     string option \<times> 'd ChatDatabase" where
  "register_user e rnd now username password db =
     (case cd_db db of
        None \<Rightarrow> (Some ''database is not open'', db)
      | Some d \<Rightarrow>
          if sqlite3_prepare_v2 e d sql_insert_user \<noteq> SQLITE_OK
          then (Some ''failed to prepare statement'', db)
          else
            (let salt = generate_salt rnd;
                 password_hash = hash_password salt password
             in case sqlite3_steps e d sql_insert_user
                       [SqlText (c_str username), SqlText (c_str password_hash), SqlInt now] of
                  (rows, rc, d') \<Rightarrow>
                    let rc = first_step_rc rows rc; db = db\<lparr>cd_db := Some d'\<rparr>
                    in if rc = SQLITE_CONSTRAINT then (Some ''username is already taken'', db)
                       else if rc \<noteq> SQLITE_DONE then (Some ''failed to store the account'', db)
                       else (None, db)))"

definition authenticate_user ::
    "'d sqlite \<Rightarrow> string \<Rightarrow> string \<Rightarrow> 'd ChatDatabase \<Rightarrow> string option \<times> 'd ChatDatabase" where
  "authenticate_user e username password db =
     (case cd_db db of
        None \<Rightarrow> (Some ''database is not open'', db)
      | Some d \<Rightarrow>
          if sqlite3_prepare_v2 e d sql_select_hash \<noteq> SQLITE_OK
          then (Some ''failed to prepare statement'', db)
          else
            (case sqlite3_steps e d sql_select_hash [SqlText (c_str username)] of
               (rows, rc, d') \<Rightarrow>
                 let db = db\<lparr>cd_db := Some d'\<rparr>
                 in case rows of
                      row # _ \<Rightarrow>
                        (let stored_hash = text_or_empty (column_text row 0)
                         in case find_char stored_hash (CHR ''$'') of
                              None \<Rightarrow> (Some ''corrupt account record'', db)
                            | Some separator \<Rightarrow>
                                (let salt = substr stored_hash 0 separator;
                                     digest = substr_from stored_hash (separator + 1)
                                 in if digest = sha256_hex (salt @ password) then (None, db)
                                    else (Some ''invalid username or password'', db)))
                    | [] \<Rightarrow> (Some ''invalid username or password'', db)))"

section \<open>Messages\<close>

definition add_message :: "'d sqlite \<Rightarrow> ChatMessage \<Rightarrow> 'd ChatDatabase \<Rightarrow> bool \<times> 'd ChatDatabase" where
  "add_message e message db =
     (case cd_db db of
        None \<Rightarrow> (False, db)
      | Some d \<Rightarrow>
          if sqlite3_prepare_v2 e d sql_insert_message \<noteq> SQLITE_OK then (False, db)
          else
            (case sqlite3_steps e d sql_insert_message
                    [SqlText (c_str (msg_room message)), SqlText (c_str (msg_username message)),
                     SqlText (c_str (msg_content message)), SqlInt (msg_timestamp message)] of
               (rows, rc, d') \<Rightarrow> (first_step_rc rows rc = SQLITE_DONE, db\<lparr>cd_db := Some d'\<rparr>)))"

definition message_of_cols :: "sqlval list \<Rightarrow> ChatMessage" where
  "message_of_cols cols =
     \<lparr>msg_room = text_or_empty (column_text cols 0),
      msg_username = text_or_empty (column_text cols 1),
      msg_content = text_or_empty (column_text cols 2),
      msg_timestamp = column_int64 cols 3\<rparr>"

definition get_recent_messages ::
    "'d sqlite \<Rightarrow> string \<Rightarrow> int \<Rightarrow> 'd ChatDatabase \<Rightarrow> ChatMessage list \<times> 'd ChatDatabase" where
  "get_recent_messages e room limit db =
     (case cd_db db of
        None \<Rightarrow> ([], db)
      | Some d \<Rightarrow>
          if sqlite3_prepare_v2 e d sql_select_recent \<noteq> SQLITE_OK then ([], db)
          else
            (case sqlite3_steps e d sql_select_recent [SqlText (c_str room), SqlInt (of_int limit)] of
               (rows, rc, d') \<Rightarrow>
                 (foldl (\<lambda>messages cols. messages @ [message_of_cols cols]) [] rows,
                  db\<lparr>cd_db := Some d'\<rparr>)))"

definition list_rooms ::
    "'d sqlite \<Rightarrow> int \<Rightarrow> 'd ChatDatabase \<Rightarrow> string list \<times> 'd ChatDatabase" where
  "list_rooms e limit db =
     (case cd_db db of
        None \<Rightarrow> ([], db)
      | Some d \<Rightarrow>
          if sqlite3_prepare_v2 e d sql_select_rooms \<noteq> SQLITE_OK then ([], db)
          else
            (case sqlite3_steps e d sql_select_rooms [SqlInt (of_int limit)] of
               (rows, rc, d') \<Rightarrow>
                 (foldl (\<lambda>rooms cols. case column_text cols 0 of
                                        Some bytes \<Rightarrow> rooms @ [c_str bytes]
                                      | None \<Rightarrow> rooms) [] rows,
                  db\<lparr>cd_db := Some d'\<rparr>)))"

section \<open>Passwords: what the stored form means\<close>

lemma set_generate_salt: "set (generate_salt rnd) \<subseteq> set kHex"
proof -
  let ?f = "\<lambda>salt i. (salt @ [kHex ! unat (drop_bit 4 (rnd i) AND 0x0F)]) @ [kHex ! unat (rnd i AND 0x0F)]"
  have "set (foldl ?f pre is) \<subseteq> set kHex" if "set pre \<subseteq> set kHex" for pre "is"
    using that by (induction "is" arbitrary: pre) (auto simp: nibble_digit)
  from this [of "[]" "[0..<16]"] show ?thesis
    unfolding generate_salt_def by simp
qed

lemma length_generate_salt: "length (generate_salt rnd) = 32"
  by (simp add: generate_salt_def upt_rec)

lemma generate_salt_no_special: "CHR ''$'' \<notin> set (generate_salt rnd)" "CHR 0x00 \<notin> set (generate_salt rnd)"
  using set_generate_salt [of rnd] kHex_no_special by auto

text \<open>The check of \<^const>\<open>authenticate_user\<close> on a stored hash.\<close>

definition password_matches :: "string \<Rightarrow> string \<Rightarrow> bool" where
  "password_matches stored password =
     (case find_char stored (CHR ''$'') of
        None \<Rightarrow> False
      | Some i \<Rightarrow> substr_from stored (i + 1) = sha256_hex (substr stored 0 i @ password))"

lemma password_matches_hash:
  assumes "CHR ''$'' \<notin> set salt"
  shows "password_matches (hash_password salt q) p \<longleftrightarrow> sha256_hex (salt @ q) = sha256_hex (salt @ p)"
proof -
  have "find_char (hash_password salt q) (CHR ''$'') = Some (length salt)"
    using find_char_first [OF assms, of "sha256_hex (salt @ q)"] by (simp add: hash_password_def)
  then show ?thesis
    by (simp add: password_matches_def substr_from_def substr_def hash_password_def)
qed

lemma c_str_hash_password: "c_str (hash_password (generate_salt rnd) p) = hash_password (generate_salt rnd) p"
  using generate_salt_no_special(2) [of rnd] set_sha256_hex [of "generate_salt rnd @ p"] kHex_no_special(2)
  by (intro c_str_no_nul) (auto simp: hash_password_def)

section \<open>The abstract contents\<close>

definition contents :: "('d \<Rightarrow> tables) \<Rightarrow> 'd ChatDatabase \<Rightarrow> tables" where
  "contents T db = (case cd_db db of None \<Rightarrow> empty_tables | Some d \<Rightarrow> T d)"

definition accounts :: "('d \<Rightarrow> tables) \<Rightarrow> 'd ChatDatabase \<Rightarrow> string \<rightharpoonup> string" where
  "accounts T db = map_of (map (\<lambda>u. (u_name u, c_str (u_hash u))) (t_users (contents T db)))"

definition message_rows :: "('d \<Rightarrow> tables) \<Rightarrow> 'd ChatDatabase \<Rightarrow> message_row list" where
  "message_rows T db = t_messages (contents T db)"

lemma contents_simps [db_simps]:
  "cd_db db = Some d \<Longrightarrow> contents T db = T d"
  "contents T (db\<lparr>cd_db := Some d\<rparr>) = T d"
  by (simp_all add: contents_def)

lemma accounts_None_iff: "accounts T db name = None \<longleftrightarrow> \<not> name_taken name (contents T db)"
  by (auto simp: accounts_def name_taken_def map_of_eq_None_iff image_image)

lemma accounts_insert:
  assumes "contents T db' = insert_user_row name hash created (contents T db)"
    and "\<not> name_taken name (contents T db)"
  shows "accounts T db' = (accounts T db)(name \<mapsto> c_str hash)"
proof -
  have "accounts T db name = None" using assms(2) by (simp add: accounts_None_iff)
  moreover have "accounts T db' = [name \<mapsto> c_str hash] ++ accounts T db"
    using assms(1) by (simp add: accounts_def insert_user_row_def)
  ultimately show ?thesis by (auto simp: fun_eq_iff map_add_def split: option.splits)
qed

lemma accounts_same: "contents T db' = contents T db \<Longrightarrow> accounts T db' = accounts T db"
  by (simp add: accounts_def)

lemma rows_same: "contents T db' = contents T db \<Longrightarrow> message_rows T db' = message_rows T db"
  by (simp add: message_rows_def)

text \<open>The two forms of engine promise, ready to use.\<close>

lemma insert_userD:
  assumes "sqlite_documented e T"
    and "sqlite3_steps e d sql_insert_user [SqlText name, SqlText hash, SqlInt created] = (rows, rc, d')"
  shows "rows = [] \<and> (rc = SQLITE_DONE \<longrightarrow> \<not> name_taken name (T d) \<and> T d' = insert_user_row name hash created (T d)) \<and>
    (rc \<noteq> SQLITE_DONE \<longrightarrow> T d' = T d) \<and> (rc = SQLITE_CONSTRAINT \<longrightarrow> name_taken name (T d))"
  using insert_documentedD [OF sqlite_documentedD(1) [OF assms(1)] assms(2)] .

lemma insert_messageD:
  assumes "sqlite_documented e T"
    and "sqlite3_steps e d sql_insert_message [SqlText room, SqlText user, SqlText content, SqlInt sent] = (rows, rc, d')"
  shows "rows = [] \<and> (rc = SQLITE_DONE \<longrightarrow> T d' = insert_message_row room user content sent (T d)) \<and>
    (rc \<noteq> SQLITE_DONE \<longrightarrow> T d' = T d)"
  using insert_documentedD [OF sqlite_documentedD(3) [OF assms(1)] assms(2)] by simp

lemma query_hashD:
  assumes "sqlite_documented e T" and "sqlite3_steps e d sql_select_hash [SqlText name] = (rows, rc, d')"
  shows "T d' = T d \<and> prefix rows (select_hash name (T d)) \<and> (rc = SQLITE_DONE \<longrightarrow> rows = select_hash name (T d))"
  using query_documentedD [OF sqlite_documentedD(2) [OF assms(1)] assms(2)] .

lemma query_recentD:
  assumes "sqlite_documented e T"
    and "sqlite3_steps e d sql_select_recent [SqlText room, SqlInt limit] = (rows, rc, d')"
  shows "T d' = T d \<and> prefix rows (select_recent room limit (T d)) \<and>
    (rc = SQLITE_DONE \<longrightarrow> rows = select_recent room limit (T d))"
  using query_documentedD [OF sqlite_documentedD(4) [OF assms(1)] assms(2)] .

lemma query_roomsD:
  assumes "sqlite_documented e T" and "sqlite3_steps e d sql_select_rooms [SqlInt limit] = (rows, rc, d')"
  shows "T d' = T d \<and> prefix rows (select_rooms limit (T d)) \<and>
    (rc = SQLITE_DONE \<longrightarrow> rows = select_rooms limit (T d))"
  using query_documentedD [OF sqlite_documentedD(5) [OF assms(1)] assms(2)] .

section \<open>The operations keep the contract of \<open>Store_Interface\<close>\<close>

text \<open>The ways through each operation, one lemma each.\<close>

lemma register_user_cases:
  assumes "register_user e rnd now u p db = (err, db')"
  obtains (refused) "err \<noteq> None" "db' = db"
  | (ran) d rows rc d' where "cd_db db = Some d"
      "sqlite3_steps e d sql_insert_user
         [SqlText (c_str u), SqlText (c_str (hash_password (generate_salt rnd) p)), SqlInt now] = (rows, rc, d')"
      "db' = db\<lparr>cd_db := Some d'\<rparr>" "err = None \<longleftrightarrow> first_step_rc rows rc = SQLITE_DONE"
  using assms unfolding register_user_def Let_def
  by (auto split: option.splits prod.splits if_splits simp: sqlite_codes)

lemma register_user_law:
  assumes doc: "sqlite_documented e T" and run: "register_user e rnd now u p db = (err, db')"
  shows "message_rows T db' = message_rows T db \<and>
    (if err = None
     then accounts T db (c_str u) = None \<and>
       accounts T db' = (accounts T db)(c_str u \<mapsto> hash_password (generate_salt rnd) p)
     else accounts T db' = accounts T db)"
  using run
proof (cases rule: register_user_cases)
  case refused
  then show ?thesis by auto
next
  case (ran d rows rc d')
  let ?h = "hash_password (generate_salt rnd) p"
  note E = insert_userD [OF doc ran(2)]
  have c: "contents T db = T d" "contents T db' = T d'"
    using ran by (simp_all add: db_simps)
  show ?thesis
  proof (cases "err = None")
    case True
    with ran(4) E have "rc = SQLITE_DONE" by (simp add: first_step_rc_def)
    with E c have n: "\<not> name_taken (c_str u) (contents T db)"
      and i: "contents T db' = insert_user_row (c_str u) (c_str ?h) now (contents T db)" by auto
    from accounts_insert [OF i n] n i True show ?thesis
      by (simp add: accounts_None_iff c_str_hash_password message_rows_def insert_user_row_def)
  next
    case False
    with ran(4) E have "rc \<noteq> SQLITE_DONE" by (simp add: first_step_rc_def)
    with E c False show ?thesis by (auto simp: accounts_same [of T db' db] rows_same [of T db' db])
  qed
qed

lemma select_hash_account:
  assumes "row # rest = select_hash name (contents T db) \<or> prefix (row # rest) (select_hash name (contents T db))"
  shows "accounts T db name = Some (text_or_empty (column_text row 0))"
proof -
  have "prefix (row # rest) (select_hash name (contents T db))" using assms by auto
  then obtain more where "filter (\<lambda>u. u_name u = name) (t_users (contents T db)) = more \<and>
      map (\<lambda>u. [SqlText (u_hash u)]) more = row # tl (map (\<lambda>u. [SqlText (u_hash u)]) more)"
    by (auto simp: select_hash_def prefix_def)
  then obtain u us where f: "filter (\<lambda>u. u_name u = name) (t_users (contents T db)) = u # us"
    and row: "row = [SqlText (u_hash u)]" by auto
  have "map_of (map (\<lambda>u. (u_name u, c_str (u_hash u))) xs) name = Some (c_str (u_hash u))"
    if "filter (\<lambda>u. u_name u = name) xs = u # us" for xs
    using that by (induction xs) (auto split: if_splits)
  from this [OF f] row show ?thesis
    by (simp add: accounts_def text_or_empty_def column_text_def)
qed

text \<open>What the account row makes of a login attempt.\<close>

definition login_error :: "sqlval list list \<Rightarrow> string \<Rightarrow> string option" where
  "login_error rows p =
     (case rows of
        [] \<Rightarrow> Some ''invalid username or password''
      | row # _ \<Rightarrow>
          (let stored = text_or_empty (column_text row 0)
           in if find_char stored (CHR ''$'') = None then Some ''corrupt account record''
              else if password_matches stored p then None
              else Some ''invalid username or password''))"

lemma authenticate_user_run:
  assumes "cd_db db = Some d" and "sqlite3_prepare_v2 e d sql_select_hash = SQLITE_OK"
    and "sqlite3_steps e d sql_select_hash [SqlText (c_str u)] = (rows, rc, d')"
  shows "authenticate_user e u p db = (login_error rows p, db\<lparr>cd_db := Some d'\<rparr>)"
  using assms
  by (simp add: authenticate_user_def login_error_def password_matches_def Let_def
      split: list.split option.split)

lemma login_error_None_iff:
  "login_error rows p = None \<longleftrightarrow>
     (\<exists>row rest. rows = row # rest \<and> password_matches (text_or_empty (column_text row 0)) p)"
  by (auto simp: login_error_def Let_def password_matches_def split: list.split option.splits)

lemma authenticate_user_law:
  assumes doc: "sqlite_documented e T" and run: "authenticate_user e u p db = (err, db')"
  shows "message_rows T db' = message_rows T db \<and> accounts T db' = accounts T db \<and>
    (err = None \<longrightarrow> (\<exists>h. accounts T db (c_str u) = Some h \<and> password_matches h p))"
proof (cases "\<exists>d. cd_db db = Some d \<and> sqlite3_prepare_v2 e d sql_select_hash = SQLITE_OK")
  case False
  with run have "db' = db \<and> err \<noteq> None"
    by (auto simp: authenticate_user_def split: option.splits if_splits)
  then show ?thesis by auto
next
  case True
  then obtain d where d: "cd_db db = Some d" "sqlite3_prepare_v2 e d sql_select_hash = SQLITE_OK" by blast
  obtain rows rc d' where st: "sqlite3_steps e d sql_select_hash [SqlText (c_str u)] = (rows, rc, d')"
    using prod_cases3 by blast
  note E = query_hashD [OF doc st]
  from authenticate_user_run [OF d st, of p] run
  have r: "err = login_error rows p" "db' = db\<lparr>cd_db := Some d'\<rparr>" by simp_all
  then have same: "contents T db' = contents T db" using E d by (simp add: db_simps)
  have "\<exists>h. accounts T db (c_str u) = Some h \<and> password_matches h p" if "err = None"
  proof -
    from that r(1) obtain row rest where rows: "rows = row # rest"
      and m: "password_matches (text_or_empty (column_text row 0)) p"
      by (auto simp: login_error_None_iff)
    from E rows d have "accounts T db (c_str u) = Some (text_or_empty (column_text row 0))"
      by (intro select_hash_account [where rest = rest]) (simp add: db_simps)
    with m show ?thesis by blast
  qed
  with same show ?thesis by (simp add: accounts_same [of T db' db] rows_same [of T db' db])
qed

lemma add_message_law:
  assumes doc: "sqlite_documented e T" and run: "add_message e m db = (stored, db')"
  shows "accounts T db' = accounts T db \<and>
    (if stored then \<exists>r. stored_message m r \<and> message_rows T db' = message_rows T db @ [r]
     else message_rows T db' = message_rows T db)"
proof (cases "\<exists>d. cd_db db = Some d \<and> sqlite3_prepare_v2 e d sql_insert_message = SQLITE_OK")
  case False
  with run have "db' = db \<and> \<not> stored"
    by (auto simp: add_message_def split: option.splits if_splits)
  then show ?thesis by simp
next
  case True
  then obtain d where d: "cd_db db = Some d" "sqlite3_prepare_v2 e d sql_insert_message = SQLITE_OK" by blast
  obtain rows rc d' where st: "sqlite3_steps e d sql_insert_message
      [SqlText (c_str (msg_room m)), SqlText (c_str (msg_username m)), SqlText (c_str (msg_content m)),
       SqlInt (msg_timestamp m)] = (rows, rc, d')"
    using prod_cases3 by blast
  note E = insert_messageD [OF doc st]
  have "db' = db\<lparr>cd_db := Some d'\<rparr>" "stored \<longleftrightarrow> rc = SQLITE_DONE"
    using run d st E by (auto simp: add_message_def first_step_rc_def)
  then show ?thesis using E d
    by (auto simp: accounts_def message_rows_def db_simps insert_message_row_def stored_message_def)
qed

lemma add_message_row:
  assumes "sqlite_documented e T" and "add_message e p db = (stored, db')"
  shows "message_rows T db' = message_rows T db @
      (if stored then [\<lparr>m_id = next_id (map m_id (message_rows T db)), m_room = c_str (msg_room p),
         m_user = c_str (msg_username p), m_content = c_str (msg_content p), m_sent = msg_timestamp p\<rparr>] else [])"
proof (cases "cd_db db = None \<or> sqlite3_prepare_v2 e (the (cd_db db)) sql_insert_message \<noteq> SQLITE_OK")
  case True
  with assms(2) show ?thesis by (auto simp: add_message_def split: option.splits)
next
  case False
  then obtain d where d: "cd_db db = Some d" "sqlite3_prepare_v2 e d sql_insert_message = SQLITE_OK" by auto
  obtain rows rc d' where st: "sqlite3_steps e d sql_insert_message
      [SqlText (c_str (msg_room p)), SqlText (c_str (msg_username p)), SqlText (c_str (msg_content p)),
       SqlInt (msg_timestamp p)] = (rows, rc, d')" using prod_cases3 by blast
  note I = insert_messageD [OF assms(1) st]
  from assms(2) d st I have "stored \<longleftrightarrow> rc = SQLITE_DONE" "db' = db\<lparr>cd_db := Some d'\<rparr>"
    by (auto simp: add_message_def first_step_rc_def)
  with I d show ?thesis
    by (cases "rc = SQLITE_DONE") (simp_all add: message_rows_def contents_def insert_message_row_def)
qed

lemma message_of_message_cols [simp]: "message_of_cols (message_cols r) = message_of_row r"
  by (simp add: message_of_cols_def message_cols_def message_of_row_def column_text_def
      column_int64_def text_or_empty_def)

lemma foldl_snoc_map: "foldl (\<lambda>acc x. acc @ [f x]) pre xs = pre @ map f xs"
  by (induction xs arbitrary: pre) simp_all

lemma set_sql_limit: "set (sql_limit n xs) \<subseteq> set xs"
  by (auto simp: sql_limit_def dest: in_set_takeD)

lemma set_recent_rows:
  "set (recent_rows room n t) \<subseteq> {r \<in> set (t_messages t). m_room r = room}"
  using set_sql_limit [of n "rev (sort_key sent_key (filter (\<lambda>m. m_room m = room) (t_messages t)))"]
  by (auto simp: recent_rows_def)

text \<open>Either the call changes nothing and answers nothing, or the engine has run the query.\<close>

lemma get_recent_cases:
  assumes "get_recent_messages e room n db = (ms, db')"
  obtains (empty) "ms = []" "db' = db"
  | (ran) d rows rc d' where "cd_db db = Some d"
      "sqlite3_steps e d sql_select_recent [SqlText (c_str room), SqlInt (of_int n)] = (rows, rc, d')"
      "db' = db\<lparr>cd_db := Some d'\<rparr>" "ms = map message_of_cols rows"
  using assms unfolding get_recent_messages_def
  by (auto simp: foldl_snoc_map split: option.splits prod.splits if_splits)

lemma get_recent_law:
  assumes doc: "sqlite_documented e T" and run: "get_recent_messages e room n db = (ms, db')"
  shows "accounts T db' = accounts T db \<and> message_rows T db' = message_rows T db \<and>
    set ms \<subseteq> message_of_row ` {r \<in> set (message_rows T db). m_room r = c_str room} \<and>
    prefix ms (map message_of_row (recent_rows (c_str room) (of_int n) (contents T db)))"
  using run
proof (cases rule: get_recent_cases)
  case empty
  then show ?thesis by simp
next
  case (ran d rows rc d')
  note E = query_recentD [OF doc ran(2)]
  have c: "contents T db = T d" "contents T db' = T d'" using ran by (simp_all add: db_simps)
  let ?rr = "recent_rows (c_str room) (of_int n) (T d)"
  have "prefix rows (map message_cols ?rr)" using E by (simp add: select_recent_def)
  then have "prefix (map message_of_cols rows) (map message_of_cols (map message_cols ?rr))"
    by (rule map_mono_prefix)
  then have p: "prefix ms (map message_of_row ?rr)" using ran(4) by (simp add: comp_def)
  then have "set ms \<subseteq> message_of_row ` set ?rr" by (metis list.set_map set_mono_prefix)
  with set_recent_rows [of "c_str room" "of_int n" "T d"]
  have "set ms \<subseteq> message_of_row ` {r \<in> set (t_messages (T d)). m_room r = c_str room}"
    by (meson image_mono subset_trans)
  with p E c show ?thesis by (simp add: accounts_same [of T db' db] rows_same [of T db' db] message_rows_def)
qed

lemma list_rooms_cases:
  assumes "list_rooms e n db = (rs, db')"
  obtains (empty) "rs = []" "db' = db"
  | (ran) d rows rc d' where "cd_db db = Some d"
      "sqlite3_steps e d sql_select_rooms [SqlInt (of_int n)] = (rows, rc, d')"
      "db' = db\<lparr>cd_db := Some d'\<rparr>"
      "rs = foldl (\<lambda>rooms cols. case column_text cols 0 of Some b \<Rightarrow> rooms @ [c_str b] | None \<Rightarrow> rooms) [] rows"
  using assms unfolding list_rooms_def by (auto split: option.splits prod.splits if_splits)

lemma rooms_of_rows:
  "foldl (\<lambda>rooms cols. case column_text cols 0 of Some b \<Rightarrow> rooms @ [c_str b] | None \<Rightarrow> rooms) pre
     (map (\<lambda>r. [SqlText r]) rs) = pre @ map c_str rs"
  by (induction rs arbitrary: pre) (simp_all add: column_text_def)

lemma list_rooms_law:
  assumes doc: "sqlite_documented e T" and run: "list_rooms e n db = (rs, db')"
  shows "accounts T db' = accounts T db \<and> message_rows T db' = message_rows T db \<and>
    set rs \<subseteq> (\<lambda>r. c_str (m_room r)) ` set (message_rows T db)"
  using run
proof (cases rule: list_rooms_cases)
  case empty
  then show ?thesis by simp
next
  case (ran d rows rc d')
  note E = query_roomsD [OF doc ran(2)]
  have c: "contents T db = T d" "contents T db' = T d'" using ran by (simp_all add: db_simps)
  let ?all = "sql_limit (of_int n) (sort (remdups (map m_room (t_messages (T d)))))"
  obtain more where "map (\<lambda>r. [SqlText r]) ?all = rows @ more"
    using E by (auto simp: select_rooms_def prefix_def)
  then have rows: "rows = map (\<lambda>r. [SqlText r]) (take (length rows) ?all)"
    by (metis append_eq_conv_conj take_map)
  have "rs = map c_str (take (length rows) ?all)"
    using ran(4) rooms_of_rows [of "[]" "take (length rows) ?all"] rows by simp
  moreover have "set (take (length rows) ?all) \<subseteq> m_room ` set (t_messages (T d))"
    using set_sql_limit [of "of_int n" "sort (remdups (map m_room (t_messages (T d))))"]
      set_take_subset [of "length rows" ?all] by auto
  ultimately show ?thesis using E c
    by (auto simp: accounts_same [of T db' db] rows_same [of T db' db] message_rows_def)
qed

interpretation store: chat_store "\<lambda>db. sqlite_documented e T" "accounts T" "message_rows T" password_matches
  "register_user e" "authenticate_user e" "add_message e" "get_recent_messages e" "list_rooms e"
  for e :: "'d sqlite" and T :: "'d \<Rightarrow> tables"
proof unfold_locales
  fix db :: "'d ChatDatabase" and db' rnd now u p err
  assume "sqlite_documented e T" and run: "register_user e rnd now u p db = (err, db')"
  from register_user_law [OF this] show "sqlite_documented e T \<and> message_rows T db' = message_rows T db \<and>
      (if err = None then accounts T db (c_str u) = None \<and>
         (\<exists>h. password_matches h p \<and> accounts T db' = (accounts T db)(c_str u \<mapsto> h))
       else accounts T db' = accounts T db)"
    using \<open>sqlite_documented e T\<close> password_matches_hash [OF generate_salt_no_special(1), of rnd p p]
    by auto
qed ((frule (1) authenticate_user_law add_message_law get_recent_law list_rooms_law, simp)+)

end
