(* ===== verification/Store_Properties.thy ===== *)
theory Store_Properties
  imports Chat_Db "HOL-Library.Multiset"
begin

text \<open>
  What the database object guarantees when the engine does not fail: accounts and passwords, and
  the history of a room; and what it does on a failed start.
\<close>

section \<open>Closed forms under a reliable engine\<close>

lemma sqlite_reliable_documented: "sqlite_reliable e T \<Longrightarrow> sqlite_documented e T"
  by (simp add: sqlite_reliable_def)

lemma reliable_prepare: "sqlite_reliable e T \<Longrightarrow> sqlite3_prepare_v2 e d sql = SQLITE_OK"
  by (simp add: sqlite_reliable_def)

lemma reliable_insert:
  "sqlite_reliable e T \<Longrightarrow>
     sqlite3_steps e d sql_insert_user [SqlText name, SqlText hash, SqlInt created] = (rows, rc, d') \<Longrightarrow>
     rc = (if name_taken name (T d) then SQLITE_CONSTRAINT else SQLITE_DONE)"
  unfolding sqlite_reliable_def by blast

lemma reliable_done:
  "sqlite_reliable e T \<Longrightarrow> sqlite3_steps e d sql binds = (rows, rc, d') \<Longrightarrow>
     sql \<in> {sql_select_hash, sql_insert_message, sql_select_recent, sql_select_rooms} \<Longrightarrow> rc = SQLITE_DONE"
  unfolding sqlite_reliable_def by blast

lemma select_hash_cases:
  obtains (none) "accounts T db name = None" "select_hash name (contents T db) = []"
  | (some) row rest h where "select_hash name (contents T db) = row # rest"
      "accounts T db name = Some h" "text_or_empty (column_text row 0) = h"
proof (cases "select_hash name (contents T db)")
  case Nil
  then have "\<not> name_taken name (contents T db)"
    by (auto simp: select_hash_def name_taken_def filter_empty_conv)
  with Nil show thesis by (intro none) (simp_all add: accounts_None_iff)
next
  case (Cons row rest)
  with select_hash_account [of row rest name T db] show thesis by (intro some) auto
qed

lemma authenticate_user_reliable:
  assumes rel: "sqlite_reliable e T" and open_db: "is_open db"
  shows "fst (authenticate_user e u p db) =
    (case accounts T db (c_str u) of
       None \<Rightarrow> Some ''invalid username or password''
     | Some h \<Rightarrow>
         if find_char h (CHR ''$'') = None then Some ''corrupt account record''
         else if password_matches h p then None
         else Some ''invalid username or password'')"
proof -
  obtain d where d: "cd_db db = Some d" using open_db by (auto simp: is_open_def)
  obtain rows rc d' where st: "sqlite3_steps e d sql_select_hash [SqlText (c_str u)] = (rows, rc, d')"
    using prod_cases3 by blast
  have "rc = SQLITE_DONE" using reliable_done [OF rel st] by simp
  with query_hashD [OF sqlite_reliable_documented [OF rel] st] d
  have rows: "rows = select_hash (c_str u) (contents T db)" by (simp add: db_simps)
  have "fst (authenticate_user e u p db) = login_error rows p"
    using authenticate_user_run [OF d reliable_prepare [OF rel] st, of p] by simp
  then show ?thesis
    by (cases rule: select_hash_cases [of T db "c_str u"]) (simp_all add: rows login_error_def Let_def)
qed

lemma register_user_reliable:
  assumes rel: "sqlite_reliable e T" and open_db: "is_open db" and run: "register_user e rnd now u p db = (err, db')"
  shows "err = (if accounts T db (c_str u) = None then None else Some ''username is already taken'')"
    and "is_open db'"
proof -
  obtain d where d: "cd_db db = Some d" using open_db by (auto simp: is_open_def)
  obtain rows rc d' where st: "sqlite3_steps e d sql_insert_user
      [SqlText (c_str u), SqlText (c_str (hash_password (generate_salt rnd) p)), SqlInt now] = (rows, rc, d')"
    using prod_cases3 by blast
  have "rows = []" using insert_userD [OF sqlite_reliable_documented [OF rel] st] by blast
  moreover have "rc = (if name_taken (c_str u) (contents T db) then SQLITE_CONSTRAINT else SQLITE_DONE)"
    using reliable_insert [OF rel st] d by (simp add: db_simps)
  ultimately show "err = (if accounts T db (c_str u) = None then None else Some ''username is already taken'')"
    "is_open db'"
    using run d st reliable_prepare [OF rel]
    by (auto simp: register_user_def Let_def first_step_rc_def sqlite_codes accounts_None_iff is_open_def split: if_splits)
qed

section \<open>Accounts\<close>

text \<open>C15 (login). After a successful registration, exactly those passwords log the name in whose digest with the
  stored salt is the digest of the registered one: the registered password does, and another one
  only with a collision of SHA-256. The logins of all other names are as before.\<close>

theorem register_then_login:
  assumes "sqlite_reliable e T" and "is_open db" and "register_user e rnd now u p db = (None, db')"
  shows "fst (authenticate_user e u q db') =
      (if sha256_hex (generate_salt rnd @ q) = sha256_hex (generate_salt rnd @ p) then None
       else Some ''invalid username or password'') \<and>
    (c_str v = c_str u \<or> fst (authenticate_user e v q db') = fst (authenticate_user e v q db))"
proof -
  let ?h = "hash_password (generate_salt rnd) p"
  note rel = assms(1)
  have op: "is_open db'" by (rule register_user_reliable(2) [OF assms])
  have acc: "accounts T db' = (accounts T db)(c_str u \<mapsto> ?h)"
    using register_user_law [OF sqlite_reliable_documented [OF rel] assms(3)] by simp
  have "find_char ?h (CHR ''$'') \<noteq> None"
    by (simp add: find_char_None_iff hash_password_def)
  moreover have "password_matches ?h q \<longleftrightarrow>
      sha256_hex (generate_salt rnd @ q) = sha256_hex (generate_salt rnd @ p)"
    using password_matches_hash [OF generate_salt_no_special(1), of rnd p q] by auto
  ultimately show ?thesis
    using authenticate_user_reliable [OF rel op, of u q] authenticate_user_reliable [OF rel op, of v q]
      authenticate_user_reliable [OF rel assms(2), of v q] acc
    by auto
qed

definition empty_db :: "tables ChatDatabase" where
  "empty_db = \<lparr>cd_path = ''chat.db'', cd_db = Some empty_tables\<rparr>"

lemma empty_db_register: "\<exists>db'. register_user table_engine rnd now u p empty_db = (None, db')"
proof -
  obtain err db' where r: "register_user table_engine rnd now u p empty_db = (err, db')" by fastforce
  have "is_open empty_db" by (simp add: is_open_def empty_db_def)
  moreover have "accounts (\<lambda>d. d) empty_db (c_str u) = None"
    by (simp add: accounts_def contents_def empty_db_def empty_tables_def)
  ultimately have "err = None" using register_user_reliable(1) [OF table_engine_reliable _ r] by simp
  with r show ?thesis by blast
qed

lemma register_then_login_witness:
  "\<exists>db'. register_user table_engine (\<lambda>_. 0) 0 ''alice'' ''secret1'' empty_db = (None, db') \<and>
     fst (authenticate_user table_engine ''alice'' ''secret1'' db') = None"
proof -
  obtain db' where r: "register_user table_engine (\<lambda>_. 0) 0 ''alice'' ''secret1'' empty_db = (None, db')"
    using empty_db_register by blast
  have "is_open empty_db" by (simp add: is_open_def empty_db_def)
  from register_then_login [OF table_engine_reliable this r, of "''secret1''"] r show ?thesis by auto
qed

text \<open>A name that is registered, also one that only agrees with it up to a NUL byte, cannot be
  registered again, whatever the engine does; the first account stays as it is.\<close>

theorem registered_name_is_taken:
  assumes "sqlite_documented e T" and "register_user e rnd now u p db = (None, db')"
    and "c_str v = c_str u" and "register_user e rnd' now' v q db' = (err, db'')"
  shows "err \<noteq> None \<and> accounts T db'' (c_str u) = accounts T db' (c_str u)"
proof -
  have "accounts T db' (c_str u) \<noteq> None"
    using register_user_law [OF assms(1,2)] by simp
  with store.register_taken [OF assms(1) _ assms(4)] assms(3) show ?thesis by simp
qed

lemma registered_name_is_taken_witness:
  "\<exists>db' err db''. register_user table_engine (\<lambda>_. 0) 0 ''alice'' ''secret1'' empty_db = (None, db') \<and>
     register_user table_engine (\<lambda>_. 0) 0 ''alice'' ''another'' db' = (err, db'') \<and> err \<noteq> None"
proof -
  obtain db' where r: "register_user table_engine (\<lambda>_. 0) 0 ''alice'' ''secret1'' empty_db = (None, db')"
    using empty_db_register by blast
  obtain err db'' where r2: "register_user table_engine (\<lambda>_. 0) 0 ''alice'' ''another'' db' = (err, db'')" by fastforce
  from registered_name_is_taken [OF table_engine_documented r refl r2] r r2 show ?thesis by blast
qed

section \<open>History\<close>

text \<open>The rows of a room in the order of time, and the last \<open>n\<close> of them.\<close>

lemma recent_rows_last:
  assumes "distinct (map m_id (t_messages t))" and "0 \<le> sint limit"
  shows "recent_rows room limit t =
    (let rows = sort_key sent_key (filter (\<lambda>r. m_room r = room) (t_messages t))
     in drop (length rows - nat (sint limit)) rows)"
proof -
  let ?rows = "sort_key sent_key (filter (\<lambda>r. m_room r = room) (t_messages t))"
  let ?n = "nat (sint limit)"
  have "take ?n (rev ?rows) = rev (drop (length ?rows - ?n) ?rows)" by (simp add: take_rev)
  moreover have "sort_key sent_key (rev (drop (length ?rows - ?n) ?rows)) = drop (length ?rows - ?n) ?rows"
  proof -
    let ?d = "drop (length ?rows - ?n) ?rows"
    have "inj_on sent_key (set (t_messages t))"
      using assms(1) by (auto simp: distinct_map sent_key_def inj_on_def)
    then have inj: "inj_on sent_key (set ?d)"
      by (rule inj_on_subset) (auto dest: in_set_dropD)
    have sd: "sorted (map sent_key ?d)" by (simp add: drop_map [symmetric] sorted_wrt_drop)
    show ?thesis by (rule sort_key_inj_key_eq) (use sd inj in simp_all)
  qed
  ultimately show ?thesis using assms(2) by (simp add: recent_rows_def sql_limit_def Let_def)
qed

lemma get_recent_reliable:
  assumes rel: "sqlite_reliable e T" and open_db: "is_open db"
  shows "fst (get_recent_messages e room n db) = map message_of_row (recent_rows (c_str room) (of_int n) (contents T db))"
proof -
  obtain d where d: "cd_db db = Some d" using open_db by (auto simp: is_open_def)
  obtain rows rc d' where st: "sqlite3_steps e d sql_select_recent [SqlText (c_str room), SqlInt (of_int n)] = (rows, rc, d')"
    using prod_cases3 by blast
  have "rc = SQLITE_DONE" using reliable_done [OF rel st] by simp
  with query_recentD [OF sqlite_reliable_documented [OF rel] st] d
  have "rows = map message_cols (recent_rows (c_str room) (of_int n) (contents T db))"
    by (simp add: select_recent_def db_simps)
  with d st reliable_prepare [OF rel] show ?thesis
    by (simp add: get_recent_messages_def foldl_snoc_map comp_def)
qed

text \<open>C33 (history). A history query returns the messages of the room in the order of time, ties in the order of
  storing, and of these the last \<open>n\<close>: the newest ones, oldest first.\<close>

theorem recent_messages_newest:
  assumes "sqlite_reliable e T" and "is_open db" and "distinct (map m_id (message_rows T db))"
    and "0 \<le> n" and "n < 2 ^ 31"
  shows "fst (get_recent_messages e room n db) =
    (let rows = sort_key sent_key (filter (\<lambda>r. m_room r = c_str room) (message_rows T db))
     in map message_of_row (drop (length rows - nat n) rows))"
proof -
  have "sint (of_int n :: i64) = n" using assms(4,5) by (simp add: signed_of_int signed_take_bit_int_eq_self)
  with recent_rows_last [of "contents T db" "of_int n" "c_str room"] assms(3,4)
    get_recent_reliable [OF assms(1,2), of room n]
  show ?thesis by (simp add: message_rows_def Let_def)
qed

definition three_messages :: tables where
  "three_messages = \<lparr>t_users = [], t_messages =
     [\<lparr>m_id = 1, m_room = ''r'', m_user = ''a'', m_content = ''one'', m_sent = 5\<rparr>,
      \<lparr>m_id = 2, m_room = ''q'', m_user = ''a'', m_content = ''two'', m_sent = 6\<rparr>,
      \<lparr>m_id = 3, m_room = ''r'', m_user = ''b'', m_content = ''three'', m_sent = 4\<rparr>]\<rparr>"

lemma recent_messages_newest_witness:
  "fst (get_recent_messages table_engine ''r'' 1 \<lparr>cd_path = [], cd_db = Some three_messages\<rparr>) =
     [\<lparr>msg_room = ''r'', msg_username = ''a'', msg_content = ''one'', msg_timestamp = 5\<rparr>]"
proof -
  let ?db = "\<lparr>cd_path = [], cd_db = Some three_messages\<rparr>"
  have c: "c_str ''r'' = ''r''" "c_str ''a'' = ''a''" "c_str ''one'' = ''one''" by code_simp+
  have "is_open ?db" "distinct (map m_id (message_rows (\<lambda>d. d) ?db))"
    by (simp_all add: is_open_def message_rows_def contents_def three_messages_def)
  from recent_messages_newest [OF table_engine_reliable this, of 1 "''r''"] show ?thesis
    by (simp add: c message_rows_def contents_def three_messages_def sent_key_def message_of_row_def)
qed

lemma list_rooms_reliable:
  assumes rel: "sqlite_reliable e T" and open_db: "is_open db"
  shows "fst (list_rooms e n db) =
    map c_str (sql_limit (of_int n) (sort (remdups (map m_room (message_rows T db)))))"
proof -
  obtain d where d: "cd_db db = Some d" using open_db by (auto simp: is_open_def)
  obtain rows rc d' where st: "sqlite3_steps e d sql_select_rooms [SqlInt (of_int n)] = (rows, rc, d')"
    using prod_cases3 by blast
  have "rc = SQLITE_DONE" using reliable_done [OF rel st] by simp
  with query_roomsD [OF sqlite_reliable_documented [OF rel] st] d
  have "rows = select_rooms (of_int n) (contents T db)" by (simp add: db_simps)
  with d st reliable_prepare [OF rel] show ?thesis
    by (simp add: list_rooms_def select_rooms_def rooms_of_rows message_rows_def)
qed

section \<open>A start that fails\<close>

text \<open>After a start whose schema script failed, the object counts as open, and a second call of
  \<^verbatim>\<open>open\<close> reports success although the tables were never created.\<close>

theorem failed_open_then_succeeds:
  assumes "cd_db db = None" and "sqlite3_open e (c_str (cd_path db)) = (SQLITE_OK, raw)"
    and "sqlite3_exec e raw sql_schema = (rc, raw')" and "rc \<noteq> SQLITE_OK"
  shows "\<exists>db'. db_open e db = (False, db') \<and> is_open db' \<and> db_open e db' = (True, db')"
  using assms by (simp add: db_open_def is_open_def)

lemma failed_open_then_succeeds_witness:
  "\<exists>db'. db_open (table_engine\<lparr>sqlite3_exec := (\<lambda>d sql. (1, d))\<rparr>) (ChatDatabase_new ''chat.db'') = (False, db') \<and>
     db_open (table_engine\<lparr>sqlite3_exec := (\<lambda>d sql. (1, d))\<rparr>) db' = (True, db')"
  using failed_open_then_succeeds [of "ChatDatabase_new ''chat.db''" "table_engine\<lparr>sqlite3_exec := (\<lambda>d sql. (1, d))\<rparr>"
      empty_tables 1 empty_tables]
  by (auto simp: ChatDatabase_new_def table_engine_def sqlite_codes)

end
