(* ===== verification/Stream_Interface.thy ===== *)
theory Stream_Interface
  imports Chat_Prelude
begin

text \<open>
  The contract between a decoder of a byte stream and a receiver that gets the stream in
  arbitrary pieces: \<open>stream_decoder\<close> says that decoding can be resumed from the undecoded rest,
  and its client lemma \<open>feed_concat\<close> that a receiver which decodes after every piece delivers
  the messages of the whole stream, however it was cut. A result is the decoded messages, the
  undecoded rest and whether the stream was well formed so far.
\<close>

type_synonym ('b, 'm) decoded = "'m list \<times> 'b list \<times> bool"

text \<open>A receiver: append the next piece to the rest, decode, go on unless the decoder refused.\<close>

fun feed :: "('b list \<Rightarrow> ('b, 'm) decoded) \<Rightarrow> 'b list \<Rightarrow> 'b list list \<Rightarrow> ('b, 'm) decoded" where
  "feed decode buf [] = ([], buf, True)"
| "feed decode buf (piece # pieces) =
     (case decode (buf @ piece) of
        (ms, rest, ok) \<Rightarrow>
          if ok then (case feed decode rest pieces of (ms', rest', ok') \<Rightarrow> (ms @ ms', rest', ok'))
          else (ms, rest, False))"

locale stream_decoder =
  fixes decode :: "'b list \<Rightarrow> ('b, 'm) decoded"
  assumes decode_Nil: "decode [] = ([], [], True)"
    and decode_resume: "decode s = (ms, rest, True) \<Longrightarrow> decode (rest @ t) = (ms', rest', ok) \<Longrightarrow>
      \<exists>rest''. decode (s @ t) = (ms @ ms', rest'', ok) \<and> (ok \<longrightarrow> rest'' = rest')"
    and decode_refused: "decode s = (ms, rest, False) \<Longrightarrow>
      \<exists>rest'. decode (s @ t) = (ms, rest', False)"
    and decode_rest: "decode s = (ms, rest, True) \<Longrightarrow> decode rest = ([], rest, True)"
begin

lemma feed_concat:
  assumes "decode buf = ([], buf, True)"
  shows "fst (feed decode buf pieces) = fst (decode (buf @ concat pieces)) \<and>
    snd (snd (feed decode buf pieces)) = snd (snd (decode (buf @ concat pieces))) \<and>
    (snd (snd (decode (buf @ concat pieces))) \<longrightarrow>
       feed decode buf pieces = decode (buf @ concat pieces))"
  using assms
proof (induction pieces arbitrary: buf)
  case Nil
  then show ?case by simp
next
  case (Cons piece pieces)
  obtain ms rest ok where d: "decode (buf @ piece) = (ms, rest, ok)" by (cases "decode (buf @ piece)")
  show ?case
  proof (cases ok)
    case True
    with d have d: "decode (buf @ piece) = (ms, rest, True)" by simp
    then have "decode rest = ([], rest, True)" by (rule decode_rest)
    note IH = Cons.IH [OF this]
    obtain ms' rest' ok' where t: "decode (rest @ concat pieces) = (ms', rest', ok')"
      by (cases "decode (rest @ concat pieces)")
    from decode_resume [OF d t] IH t d show ?thesis
      by (auto split: prod.splits)
  next
    case False
    with d decode_refused [of "buf @ piece" ms rest "concat pieces"] show ?thesis
      by (auto split: prod.splits)
  qed
qed

corollary feed_whole:
  "snd (snd (decode (concat pieces))) \<Longrightarrow> feed decode [] pieces = decode (concat pieces)"
  using feed_concat [of "[]" pieces] decode_Nil by simp

corollary feed_messages:
  "fst (feed decode [] pieces) = fst (decode (concat pieces)) \<and>
   snd (snd (feed decode [] pieces)) = snd (snd (decode (concat pieces)))"
  using feed_concat [of "[]" pieces] decode_Nil by simp

corollary feed_recut:
  "concat pieces = concat pieces' \<Longrightarrow> fst (feed decode [] pieces) = fst (feed decode [] pieces')"
  using feed_messages [of pieces] feed_messages [of pieces'] by simp

end

end
