(* ===== verification/Framing.thy ===== *)
theory Framing
  imports Wire_Codec Stream_Interface
begin

text \<open>
  The framing half of protocol.cpp: \<^verbatim>\<open>send_all\<close>, \<^verbatim>\<open>send_frame\<close>, \<^verbatim>\<open>send_message\<close> and
  \<^verbatim>\<open>extract_frames\<close>. The socket calls of the operating system are the parameter \<open>'w net\<close>: a
  function for \<^verbatim>\<open>send\<close> and one for \<^verbatim>\<open>recv\<close> over a state \<open>'w\<close> of the network. What the code
  relies on of them is \<open>net_documented\<close>, the POSIX behaviour of a stream socket.
\<close>

section \<open>Constants and the socket interface\<close>

type_synonym SOCKET = int

definition INVALID_SOCKET :: SOCKET where
  "INVALID_SOCKET = -1"

definition kFrameHeaderSize :: nat where
  "kFrameHeaderSize = 4"

definition kMaxFramePayloadSize :: nat where
  "kMaxFramePayloadSize = 64 * 1024"

text \<open>
  \<open>net_send\<close> takes the bytes offered and returns the call's result; \<open>net_recv\<close> takes the size of
  the buffer and returns the received bytes, none of them standing for a result of 0 or less
  (end of stream or error), which the callers do not distinguish.
\<close>

record 'w net =
  net_send :: "'w \<Rightarrow> SOCKET \<Rightarrow> string \<Rightarrow> int \<times> 'w"
  net_recv :: "'w \<Rightarrow> SOCKET \<Rightarrow> nat \<Rightarrow> u8 list \<times> 'w"

section \<open>Sending\<close>

function send_all_loop :: "'w net \<Rightarrow> 'w \<Rightarrow> SOCKET \<Rightarrow> string \<Rightarrow> nat \<Rightarrow> bool \<times> 'w" where
  "send_all_loop net w sock data sent =
     (if sent < length data
      then (case net_send net w sock (drop sent data) of
              (bytes_sent, w') \<Rightarrow>
                if bytes_sent \<le> 0 then (False, w')
                else send_all_loop net w' sock data (sent + nat bytes_sent))
      else (True, w))"
  by pat_completeness auto
termination
  by (relation "measure (\<lambda>(net, w, sock, data, sent). length data - sent)") auto

declare send_all_loop.simps [simp del]

definition send_all :: "'w net \<Rightarrow> 'w \<Rightarrow> SOCKET \<Rightarrow> string \<Rightarrow> bool \<times> 'w" where
  "send_all net w sock data = send_all_loop net w sock data 0"

text \<open>The four bytes of \<^verbatim>\<open>htonl\<close> of the length, in memory order.\<close>

definition length_header :: "string \<Rightarrow> string" where
  "length_header payload = map char_of_u8 (be_split 4 (of_nat (length payload) :: u32))"

definition send_frame :: "'w net \<Rightarrow> 'w \<Rightarrow> SOCKET \<Rightarrow> string \<Rightarrow> bool \<times> 'w" where
  "send_frame net w sock payload =
     (if length payload > kMaxFramePayloadSize then (False, w)
      else (case send_all net w sock (length_header payload) of
              (ok, w') \<Rightarrow> if ok then send_all net w' sock payload else (False, w')))"

definition send_message :: "'w net \<Rightarrow> 'w \<Rightarrow> SOCKET \<Rightarrow> MsgType \<Rightarrow> string \<Rightarrow> bool \<times> 'w" where
  "send_message net w sock type payload = send_frame net w sock (encode_message type payload)"

section \<open>Extracting frames\<close>

text \<open>
  \<^verbatim>\<open>memcpy\<close> of four bytes followed by \<^verbatim>\<open>ntohl\<close> reads a big-endian number on every host. The
  loop keeps \<open>offset \<le> length pending\<close>, so the code's unsigned differences do not wrap.
\<close>

function extract_loop :: "u8 list \<Rightarrow> nat \<Rightarrow> string list \<Rightarrow> bool \<times> nat \<times> string list" where
  "extract_loop pending offset frames =
     (if kFrameHeaderSize \<le> length pending - offset
      then (let payload_length = unat (be_join (take kFrameHeaderSize (drop offset pending)) :: u32)
            in if payload_length > kMaxFramePayloadSize then (False, offset, frames)
               else (let frame_size = kFrameHeaderSize + payload_length
                     in if length pending - offset < frame_size then (True, offset, frames)
                        else extract_loop pending (offset + frame_size)
                               (frames @ [map char_of_u8 (take payload_length
                                            (drop (offset + kFrameHeaderSize) pending))])))
      else (True, offset, frames))"
  by pat_completeness auto
termination
  by (relation "measure (\<lambda>(pending, offset, frames). length pending - offset)")
    (auto simp: kFrameHeaderSize_def)

declare extract_loop.simps [simp del]

text \<open>
  The result is the returned flag and the new contents of \<^verbatim>\<open>pending\<close> and \<^verbatim>\<open>frames\<close>. On failure
  \<^verbatim>\<open>pending\<close> is left as it was and the frames before the bad one stay appended.
\<close>

definition extract_frames :: "u8 list \<Rightarrow> string list \<Rightarrow> bool \<times> u8 list \<times> string list" where
  "extract_frames pending frames =
     (case extract_loop pending 0 frames of
        (ok, offset, frames') \<Rightarrow> if ok then (True, drop offset pending, frames') else (False, pending, frames'))"

section \<open>What the operating system promises\<close>

text \<open>
  POSIX \<^verbatim>\<open>send\<close> on a stream socket: the result is at most the number of bytes offered, and that
  many bytes, from the front, are added to the socket's outgoing stream. \<open>wire w s\<close> is what has
  been accepted for socket \<open>s\<close> so far.
\<close>

definition net_documented :: "'w net \<Rightarrow> ('w \<Rightarrow> SOCKET \<Rightarrow> string) \<Rightarrow> bool" where
  "net_documented net wire \<longleftrightarrow>
     (\<forall>w s data n w'. net_send net w s data = (n, w') \<longrightarrow>
        n \<le> int (length data) \<and> wire w' = (wire w)(s := wire w s @ take (nat n) data))"

lemma net_documentedD:
  "net_documented net wire \<Longrightarrow> net_send net w s data = (n, w') \<Longrightarrow>
     n \<le> int (length data) \<and> wire w' = (wire w)(s := wire w s @ take (nat n) data)"
  by (auto simp: net_documented_def)

lemma send_all_loop_wire:
  assumes "net_documented net wire" and "send_all_loop net w sock data sent = (ok, w')"
    and "sent \<le> length data"
  shows "\<exists>k. wire w' = (wire w)(sock := wire w sock @ take k (drop sent data)) \<and>
    (ok \<longleftrightarrow> k = length data - sent) \<and> k \<le> length data - sent"
  using assms
proof (induction net w sock data sent arbitrary: ok w' rule: send_all_loop.induct)
  case (1 net w sock data sent)
  note run = "1.prems"(2) [unfolded send_all_loop.simps [of net w sock data sent]]
  show ?case
  proof (cases "sent < length data")
    case True
    obtain n w1 where n: "net_send net w sock (drop sent data) = (n, w1)" by fastforce
    with "1.prems"(1) have c: "n \<le> int (length data - sent)"
      "wire w1 = (wire w)(sock := wire w sock @ take (nat n) (drop sent data))"
      by (auto dest!: net_documentedD)
    show ?thesis
    proof (cases "n \<le> 0")
      case True
      with run n c \<open>sent < length data\<close> show ?thesis by (intro exI [of _ 0]) auto
    next
      case False
      let ?n = "nat n"
      have le: "sent + ?n \<le> length data" using c(1) True by linarith
      have "send_all_loop net w1 sock data (sent + ?n) = (ok, w')"
        using run n False True by simp
      from "1.IH" [OF True n [symmetric] False "1.prems"(1) this le] obtain k where
        k: "wire w' = (wire w1)(sock := wire w1 sock @ take k (drop (sent + ?n) data))"
          "ok \<longleftrightarrow> k = length data - (sent + ?n)" "k \<le> length data - (sent + ?n)"
        by blast
      have "take ?n (drop sent data) @ take k (drop (sent + ?n) data) = take (?n + k) (drop sent data)"
        by (metis take_add drop_drop add.commute)
      with k c le show ?thesis by (intro exI [of _ "?n + k"]) auto
    qed
  next
    case False
    with run "1.prems"(3) show ?thesis by (intro exI [of _ 0]) auto
  qed
qed

text \<open>\<^verbatim>\<open>send_all\<close> either puts all its bytes on the wire, in order, or a proper prefix of them.\<close>

lemma send_all_wire:
  assumes "net_documented net wire" and "send_all net w sock data = (ok, w')"
  shows "\<exists>k. wire w' = (wire w)(sock := wire w sock @ take k data) \<and>
    (ok \<longleftrightarrow> k = length data) \<and> k \<le> length data"
  using send_all_loop_wire [of net wire w sock data 0 ok w'] assms by (simp add: send_all_def)

definition frame_bytes :: "string \<Rightarrow> string" where
  "frame_bytes payload = length_header payload @ payload"

lemma length_header_length [simp]: "length (length_header payload) = 4"
  by (simp add: length_header_def)

text \<open>
  A frame that fits is put on the wire whole when \<^verbatim>\<open>send_frame\<close> reports success, and cut short
  when it reports failure; one that does not fit is not sent at all.
\<close>

lemma send_frame_wire:
  assumes net: "net_documented net wire" and run: "send_frame net w sock payload = (ok, w')"
  shows "\<exists>k. wire w' = (wire w)(sock := wire w sock @ take k (frame_bytes payload)) \<and>
    (ok \<longleftrightarrow> length payload \<le> kMaxFramePayloadSize \<and> k = length (frame_bytes payload)) \<and>
    k \<le> length (frame_bytes payload) \<and> (length payload > kMaxFramePayloadSize \<longrightarrow> w' = w)"
proof (cases "length payload > kMaxFramePayloadSize")
  case True
  with run show ?thesis by (intro exI [of _ 0]) (auto simp: send_frame_def)
next
  case False
  obtain ok1 w1 where h: "send_all net w sock (length_header payload) = (ok1, w1)" by fastforce
  from send_all_wire [OF net h] obtain k1 where k1:
    "wire w1 = (wire w)(sock := wire w sock @ take k1 (length_header payload))"
    "ok1 \<longleftrightarrow> k1 = 4" "k1 \<le> 4" by auto
  show ?thesis
  proof (cases ok1)
    case ok1: True
    with False run h have b: "send_all net w1 sock payload = (ok, w')" by (simp add: send_frame_def)
    from send_all_wire [OF net b] obtain k where
      "wire w' = (wire w1)(sock := wire w1 sock @ take k payload)" "ok \<longleftrightarrow> k = length payload"
      "k \<le> length payload" by auto
    with k1 ok1 False show ?thesis by (intro exI [of _ "4 + k"]) (auto simp: frame_bytes_def)
  next
    case False1: False
    with False run h k1 show ?thesis
      by (intro exI [of _ k1]) (auto simp: frame_bytes_def send_frame_def)
  qed
qed

section \<open>What extraction computes\<close>

text \<open>
  The reference: cut the stream into frames from its front, by recursion on the rest of the
  stream instead of an offset into a fixed buffer.
\<close>

function split_frames :: "u8 list \<Rightarrow> (u8, string) decoded" where
  "split_frames s =
     (if 4 \<le> length s
      then (let n = unat (be_join (take 4 s) :: u32)
            in if n > kMaxFramePayloadSize then ([], s, False)
               else if length s < 4 + n then ([], s, True)
               else (case split_frames (drop (4 + n) s) of
                       (fs, rest, ok) \<Rightarrow> (map char_of_u8 (take n (drop 4 s)) # fs, rest, ok)))
      else ([], s, True))"
  by pat_completeness auto
termination
  by (relation "measure length") auto

declare split_frames.simps [simp del]

lemma split_frames_short: "length s < 4 \<Longrightarrow> split_frames s = ([], s, True)"
  by (simp add: split_frames.simps [of s])

lemma split_frames_incomplete:
  "4 \<le> length s \<Longrightarrow> unat (be_join (take 4 s) :: u32) \<le> kMaxFramePayloadSize \<Longrightarrow>
   length s < 4 + unat (be_join (take 4 s) :: u32) \<Longrightarrow> split_frames s = ([], s, True)"
  by (simp add: split_frames.simps [of s])

lemma split_frames_oversized:
  "4 \<le> length s \<Longrightarrow> unat (be_join (take 4 s) :: u32) > kMaxFramePayloadSize \<Longrightarrow>
   split_frames s = ([], s, False)"
  by (simp add: split_frames.simps [of s])

lemma split_frames_Cons:
  "4 \<le> length s \<Longrightarrow> n = unat (be_join (take 4 s) :: u32) \<Longrightarrow> n \<le> kMaxFramePayloadSize \<Longrightarrow>
   4 + n \<le> length s \<Longrightarrow> split_frames s =
     (case split_frames (drop (4 + n) s) of
        (fs, rest, ok) \<Rightarrow> (map char_of_u8 (take n (drop 4 s)) # fs, rest, ok))"
  by (simp add: split_frames.simps [of s] Let_def)

lemma split_frames_cases:
  obtains (short) "length s < 4"
  | (oversized) "4 \<le> length s" "unat (be_join (take 4 s) :: u32) > kMaxFramePayloadSize"
  | (incomplete) "4 \<le> length s" "unat (be_join (take 4 s) :: u32) \<le> kMaxFramePayloadSize"
      "length s < 4 + unat (be_join (take 4 s) :: u32)"
  | (frame) n where "4 \<le> length s" "n = unat (be_join (take 4 s) :: u32)"
      "n \<le> kMaxFramePayloadSize" "4 + n \<le> length s"
  by (meson not_le_imp_less not_less)

lemma split_frames_rest:
  "split_frames s = (fs, rest, True) \<Longrightarrow>
     split_frames rest = ([], rest, True) \<and> length rest < 4 + kMaxFramePayloadSize"
proof (induction s arbitrary: fs rule: split_frames.induct)
  case (1 s)
  show ?case
  proof (cases s rule: split_frames_cases)
    case short
    with "1.prems" show ?thesis by (auto simp: split_frames_short)
  next
    case oversized
    with "1.prems" show ?thesis by (simp add: split_frames_oversized)
  next
    case incomplete
    then have "split_frames s = ([], s, True)" by (rule split_frames_incomplete)
    with "1.prems" incomplete show ?thesis by auto
  next
    case (frame n)
    with "1.prems" obtain fs' where "split_frames (drop (4 + n) s) = (fs', rest, True)"
      by (auto simp: split_frames_Cons [OF frame] split: prod.splits)
    with "1.IH" [OF frame(1,2)] frame show ?thesis by simp
  qed
qed

lemma split_frames_Nil: "split_frames s = ([], rest, True) \<Longrightarrow> rest = s"
proof (cases s rule: split_frames_cases)
  case (frame n)
  assume "split_frames s = ([], rest, True)"
  then show ?thesis by (simp add: split_frames_Cons [OF frame] split: prod.splits)
qed (simp_all add: split_frames_short split_frames_oversized split_frames_incomplete)

lemma split_frames_append:
  "split_frames s = (fs, rest, True) \<Longrightarrow>
     split_frames (s @ t) = (case split_frames (rest @ t) of (fs', rest', ok) \<Rightarrow> (fs @ fs', rest', ok))"
proof (induction s arbitrary: fs rule: split_frames.induct)
  case (1 s)
  show ?case
  proof (cases s rule: split_frames_cases)
    case (frame n)
    with "1.prems" obtain fs' where r: "split_frames (drop (4 + n) s) = (fs', rest, True)"
      and fs: "fs = map char_of_u8 (take n (drop 4 s)) # fs'"
      by (auto simp: split_frames_Cons [OF frame] split: prod.splits)
    have "split_frames (s @ t) = (case split_frames (drop (4 + n) (s @ t)) of
        (fs, rest, ok) \<Rightarrow> (map char_of_u8 (take n (drop 4 (s @ t))) # fs, rest, ok))"
      using frame by (intro split_frames_Cons) auto
    with "1.IH" [OF frame(1,2) _ _ r] frame fs show ?thesis
      by (auto split: prod.splits)
  qed (use "1.prems" in \<open>auto simp: split_frames_short split_frames_oversized split_frames_incomplete
        split: prod.splits\<close>)
qed

lemma split_frames_append_refused:
  "split_frames s = (fs, rest, False) \<Longrightarrow> split_frames (s @ t) = (fs, rest @ t, False)"
proof (induction s arbitrary: fs rule: split_frames.induct)
  case (1 s)
  show ?case
  proof (cases s rule: split_frames_cases)
    case oversized
    then have "split_frames (s @ t) = ([], s @ t, False)"
      by (intro split_frames_oversized) auto
    with "1.prems" oversized show ?thesis by (auto simp: split_frames_oversized)
  next
    case (frame n)
    with "1.prems" obtain fs' where r: "split_frames (drop (4 + n) s) = (fs', rest, False)"
      and fs: "fs = map char_of_u8 (take n (drop 4 s)) # fs'"
      by (auto simp: split_frames_Cons [OF frame] split: prod.splits)
    have "split_frames (s @ t) = (case split_frames (drop (4 + n) (s @ t)) of
        (fs, rest, ok) \<Rightarrow> (map char_of_u8 (take n (drop 4 (s @ t))) # fs, rest, ok))"
      using frame by (intro split_frames_Cons) auto
    with "1.IH" [OF frame(1,2) _ _ r] frame fs show ?thesis
      by (auto split: prod.splits)
  qed (use "1.prems" in \<open>auto simp: split_frames_short split_frames_incomplete\<close>)
qed

lemma extract_loop_eq:
  "offset \<le> length pending \<Longrightarrow> extract_loop pending offset frames =
     (case split_frames (drop offset pending) of
        (fs, rest, ok) \<Rightarrow> (ok, length pending - length rest, frames @ fs))"
proof (induction pending offset frames rule: extract_loop.induct)
  case (1 pending offset frames)
  let ?s = "drop offset pending"
  show ?case
  proof (cases ?s rule: split_frames_cases)
    case short
    with "1.prems" show ?thesis
      by (simp add: extract_loop.simps [of pending offset] split_frames_short kFrameHeaderSize_def)
  next
    case oversized
    with "1.prems" show ?thesis
      by (simp add: extract_loop.simps [of pending offset] split_frames_oversized kFrameHeaderSize_def Let_def)
  next
    case incomplete
    with "1.prems" show ?thesis
      by (simp add: extract_loop.simps [of pending offset] split_frames_incomplete kFrameHeaderSize_def Let_def)
  next
    case (frame n)
    let ?f = "map char_of_u8 (take n (drop (offset + kFrameHeaderSize) pending))"
    have h: "kFrameHeaderSize \<le> length pending - offset"
      "n = unat (be_join (take kFrameHeaderSize ?s) :: u32)"
      "\<not> n > kMaxFramePayloadSize" "\<not> length pending - offset < kFrameHeaderSize + n"
      using frame by (auto simp: kFrameHeaderSize_def)
    then have step: "extract_loop pending offset frames =
        extract_loop pending (offset + (kFrameHeaderSize + n)) (frames @ [?f])"
      by (simp add: extract_loop.simps [of pending offset] Let_def)
    have "offset + (kFrameHeaderSize + n) \<le> length pending"
      using h "1.prems" by (auto simp: kFrameHeaderSize_def)
    from "1.IH" [OF h(1,2,3) refl h(4) this]
    have "extract_loop pending offset frames =
        (case split_frames (drop (4 + n) ?s) of
           (fs, rest, ok) \<Rightarrow> (ok, length pending - length rest, frames @ ?f # fs))"
      by (simp add: step kFrameHeaderSize_def add.commute add.left_commute)
    then show ?thesis
      by (simp add: split_frames_Cons [OF frame] kFrameHeaderSize_def add.commute split: prod.splits)
  qed
qed

lemma split_frames_suffix: "split_frames s = (fs, rest, ok) \<Longrightarrow> drop (length s - length rest) s = rest"
proof (induction s arbitrary: fs rule: split_frames.induct)
  case (1 s)
  show ?case
  proof (cases s rule: split_frames_cases)
    case (frame n)
    with "1.prems" obtain fs' where r: "split_frames (drop (4 + n) s) = (fs', rest, ok)"
      by (auto simp: split_frames_Cons [OF frame] split: prod.splits)
    from "1.IH" [OF frame(1,2) _ _ r] frame
    have d: "drop (length s - (4 + n) - length rest) (drop (4 + n) s) = rest" by simp
    then have "length rest \<le> length s - (4 + n)"
      by (metis diff_le_self length_drop)
    with d frame(4) show ?thesis by (simp add: add.commute)
  qed (use "1.prems" in \<open>auto simp: split_frames_short split_frames_oversized split_frames_incomplete\<close>)
qed

lemma extract_frames_eq:
  "extract_frames pending frames =
     (case split_frames pending of
        (fs, rest, ok) \<Rightarrow> (ok, if ok then rest else pending, frames @ fs))"
  by (auto simp: extract_frames_def extract_loop_eq split_frames_suffix split: prod.splits)

text \<open>\<^const>\<open>extract_frames\<close> on one buffer, in the shape of the receiver's contract.\<close>

definition extract_stream :: "u8 list \<Rightarrow> (u8, string) decoded" where
  "extract_stream s = (case extract_frames s [] of (ok, rest, frames) \<Rightarrow> (frames, rest, ok))"

lemma extract_stream_eq:
  "extract_stream s = (case split_frames s of (fs, rest, ok) \<Rightarrow> (fs, if ok then rest else s, ok))"
  by (simp add: extract_stream_def extract_frames_eq split: prod.splits)

interpretation frames: stream_decoder extract_stream
proof unfold_locales
  show "extract_stream [] = ([], [], True)"
    by (simp add: extract_stream_eq split_frames_short)
next
  fix s ms rest t ms' rest' ok
  assume "extract_stream s = (ms, rest, True)" and t: "extract_stream (rest @ t) = (ms', rest', ok)"
  then have "split_frames s = (ms, rest, True)" by (auto simp: extract_stream_eq split: prod.splits if_splits)
  with t show "\<exists>rest''. extract_stream (s @ t) = (ms @ ms', rest'', ok) \<and> (ok \<longrightarrow> rest'' = rest')"
    using split_frames_append [of s ms rest t] by (auto simp: extract_stream_eq split: prod.splits if_splits)
next
  fix s ms rest t
  assume "extract_stream s = (ms, rest, False)"
  then obtain rest' where "split_frames s = (ms, rest', False)"
    by (auto simp: extract_stream_eq split: prod.splits)
  then show "\<exists>rest'. extract_stream (s @ t) = (ms, rest', False)"
    using split_frames_append_refused [of s ms rest' t] by (simp add: extract_stream_eq)
next
  fix s ms rest
  assume "extract_stream s = (ms, rest, True)"
  then have "split_frames s = (ms, rest, True)" by (auto simp: extract_stream_eq split: prod.splits if_splits)
  then show "extract_stream rest = ([], rest, True)"
    using split_frames_rest [of s ms rest] by (simp add: extract_stream_eq)
qed

section \<open>Round trip\<close>

definition wire_bytes :: "string list \<Rightarrow> u8 list" where
  "wire_bytes payloads = map u8_of_char (concat (map frame_bytes payloads))"

lemma wire_bytes_simps [simp]:
  "wire_bytes [] = []"
  "wire_bytes (p # ps) = map u8_of_char (frame_bytes p) @ wire_bytes ps"
  by (simp_all add: wire_bytes_def)

lemma header_value:
  assumes "length p \<le> kMaxFramePayloadSize"
  shows "unat (be_join (take 4 (map u8_of_char (frame_bytes p) @ t)) :: u32) = length p"
proof -
  have head: "take 4 (map u8_of_char (frame_bytes p) @ t) = be_split 4 (of_nat (length p) :: u32)"
    by (simp add: frame_bytes_def length_header_def comp_def)
  have "be_join (be_split 4 (of_nat (length p) :: u32)) = (of_nat (length p) :: u32)"
    by (rule be_join_split) simp
  then show ?thesis
    using assms by (simp only: head kMaxFramePayloadSize_def unat_of_nat_u32)
qed

lemma split_frames_frame:
  assumes "length p \<le> kMaxFramePayloadSize"
  shows "split_frames (map u8_of_char (frame_bytes p) @ t) =
    (case split_frames t of (fs, rest, ok) \<Rightarrow> (p # fs, rest, ok))"
proof -
  let ?s = "map u8_of_char (frame_bytes p) @ t"
  have len: "4 + length p \<le> length ?s" by (simp add: frame_bytes_def)
  then have "split_frames ?s = (case split_frames (drop (4 + length p) ?s) of
      (fs, rest, ok) \<Rightarrow> (map char_of_u8 (take (length p) (drop 4 ?s)) # fs, rest, ok))"
    using header_value [OF assms, of t] assms by (intro split_frames_Cons) simp_all
  moreover have "drop (4 + length p) ?s = t" and "map char_of_u8 (take (length p) (drop 4 ?s)) = p"
    by (simp_all add: frame_bytes_def comp_def)
  ultimately show ?thesis by (simp only:)
qed

lemma split_frames_wire:
  "list_all (\<lambda>p. length p \<le> kMaxFramePayloadSize) ps \<Longrightarrow>
     split_frames (wire_bytes ps @ t) = (case split_frames t of (fs, rest, ok) \<Rightarrow> (ps @ fs, rest, ok))"
  by (induction ps) (auto simp: split_frames_frame split: prod.splits)

end
