(* ===== verification/Server_State.thy ===== *)
theory Server_State
  imports Chat_Db Framing
begin

text \<open>
  The shared state of chat_server.cpp and the helpers that work on it: the table \<^verbatim>\<open>clients\<close> under
  \<^verbatim>\<open>clients_mutex\<close>, the database object, room names, direct-message keys and the effects a
  handler has on sockets and on the console. The server looks at no result of a send, so a
  handler is a function from the state to the new state and the list of its effects in order;
  \<open>perform\<close> carries such a list out over the socket interface of \<open>Framing\<close>.
\<close>

section \<open>State and effects\<close>

definition kDefaultRoom :: string where "kDefaultRoom = ''general''"
definition kDefaultDbPath :: string where "kDefaultDbPath = ''chat.db''"
definition kDefaultPort :: int where "kDefaultPort = 8080"
definition kHistoryLimit :: int where "kHistoryLimit = 50"

record ClientInfo =
  cl_socket :: SOCKET
  cl_username :: string
  cl_room :: string

record 'd server =
  clients :: "ClientInfo list"
  sdb :: "'d ChatDatabase"

datatype effect =
    SendFrame SOCKET string
  | CloseSocket SOCKET
  | ServerLog string

fun perform :: "'w net \<Rightarrow> effect list \<Rightarrow> 'w \<Rightarrow> 'w" where
  "perform net [] w = w"
| "perform net (SendFrame sock frame # effs) w = perform net effs (snd (send_frame net w sock frame))"
| "perform net (_ # effs) w = perform net effs w"

text \<open>The text the console shows for a log line (\<^verbatim>\<open>server_log\<close>).\<close>

definition server_log_line :: "bool \<Rightarrow> string \<Rightarrow> string" where
  "server_log_line console_color text =
     (if console_color then CHR 0x1B # ''[1;32m[server]'' @ CHR 0x1B # ''[0m '' @ text
      else ''[server] '' @ text)"

definition send_msg :: "SOCKET \<Rightarrow> MsgType \<Rightarrow> string \<Rightarrow> effect" where
  "send_msg sock type payload = SendFrame sock (encode_message type payload)"

definition send_system :: "SOCKET \<Rightarrow> string \<Rightarrow> effect" where
  "send_system sock text = send_msg sock System text"

definition quoted :: "string \<Rightarrow> string" where
  "quoted s = CHR 0x27 # s @ [CHR 0x27]"

section \<open>Room names\<close>

definition sanitize_char :: "char \<Rightarrow> char" where
  "sanitize_char c =
     (if \<not> isalnum c \<and> c \<noteq> CHR ''_'' \<and> c \<noteq> CHR ''-'' \<and> c \<noteq> CHR '' '' then CHR ''_'' else c)"

definition sanitize_room :: "string \<Rightarrow> string" where
  "sanitize_room raw_room =
     (let room = trim raw_room;
          room = (if length room > 32 then substr room 0 32 else room)
      in map sanitize_char room)"

definition dm_room_key :: "string \<Rightarrow> string \<Rightarrow> string" where
  "dm_room_key user_a user_b =
     (if user_a < user_b then ''dm:'' @ user_a @ '':'' @ user_b else ''dm:'' @ user_b @ '':'' @ user_a)"

section \<open>The table of connected clients\<close>

definition broadcast_to_room :: "string \<Rightarrow> string \<Rightarrow> SOCKET \<Rightarrow> 'd server \<Rightarrow> effect list" where
  "broadcast_to_room room frame exclude st =
     (let recipients = foldl (\<lambda>recipients client.
            if cl_room client = room \<and> cl_socket client \<noteq> exclude
            then recipients @ [cl_socket client] else recipients) [] (clients st)
      in map (\<lambda>sock. SendFrame sock frame) recipients)"

fun set_room_in :: "SOCKET \<Rightarrow> string \<Rightarrow> ClientInfo list \<Rightarrow> ClientInfo list" where
  "set_room_in sock room [] = []"
| "set_room_in sock room (client # rest) =
     (if cl_socket client = sock then client\<lparr>cl_room := room\<rparr> # rest
      else client # set_room_in sock room rest)"

definition set_room :: "SOCKET \<Rightarrow> string \<Rightarrow> 'd server \<Rightarrow> 'd server" where
  "set_room sock room st = st\<lparr>clients := set_room_in sock room (clients st)\<rparr>"

fun find_in :: "string \<Rightarrow> ClientInfo list \<Rightarrow> SOCKET" where
  "find_in username [] = INVALID_SOCKET"
| "find_in username (client # rest) =
     (if cl_username client = username then cl_socket client else find_in username rest)"

definition find_client_by_username :: "string \<Rightarrow> 'd server \<Rightarrow> SOCKET" where
  "find_client_by_username username st = find_in username (clients st)"

definition users_in_room :: "string \<Rightarrow> 'd server \<Rightarrow> string list" where
  "users_in_room room st =
     foldl (\<lambda>names client. if cl_room client = room then names @ [cl_username client] else names)
       [] (clients st)"

definition add_client :: "SOCKET \<Rightarrow> string \<Rightarrow> string \<Rightarrow> 'd server \<Rightarrow> 'd server" where
  "add_client sock username room st =
     st\<lparr>clients := clients st @ [\<lparr>cl_socket = sock, cl_username = username, cl_room = room\<rparr>]\<rparr>"

definition remove_client :: "SOCKET \<Rightarrow> 'd server \<Rightarrow> 'd server" where
  "remove_client sock st = st\<lparr>clients := filter (\<lambda>client. \<not> cl_socket client = sock) (clients st)\<rparr>"

section \<open>The list of rooms\<close>

definition online_count :: "string \<Rightarrow> ClientInfo list \<Rightarrow> int" where
  "online_count room cs = foldl (\<lambda>n client. if cl_room client = room then n + 1 else n) 0 cs"

text \<open>\<^verbatim>\<open>std::set\<close> of the known and the online rooms, in its order.\<close>

definition build_room_list :: "'d sqlite \<Rightarrow> 'd server \<Rightarrow> string \<times> 'd server" where
  "build_room_list e st =
     (case list_rooms e 200 (sdb st) of
        (known_rooms, db) \<Rightarrow>
          let rooms = sort (remdups (known_rooms @ map cl_room (clients st)));
              text = ''Known rooms:'';
              text = (if rooms = [] then text @ ''\<newline>  (none yet)'' else text);
              text = foldl (\<lambda>text room. text @ ''\<newline>  '' @ room @ ''  (online: '' @
                              to_string (online_count room (clients st)) @ '')'') text rooms
          in (text, st\<lparr>sdb := db\<rparr>))"

end
