(* ===== verification/Server_Handlers.thy ===== *)
theory Server_Handlers
  imports Server_State
begin

text \<open>
  The request handlers of chat_server.cpp and the thread \<^verbatim>\<open>handle_client\<close>. A frame a thread reads,
  the reading of the clock and the random bytes of a salt come from outside and are arguments.
\<close>

section \<open>Authentication\<close>

datatype AuthResult = Success string | Retry | Disconnected

text \<open>
  \<^verbatim>\<open>handle_auth\<close>. The argument \<open>input\<close> is what \<^verbatim>\<open>read_next_frame\<close> gave: None when it failed.
  \<open>Success\<close> carries the value of \<^verbatim>\<open>out_username\<close>, which is assigned in this case only.
\<close>

definition handle_auth ::
    "'d sqlite \<Rightarrow> (nat \<Rightarrow> u32) \<Rightarrow> i64 \<Rightarrow> SOCKET \<Rightarrow> string option \<Rightarrow> 'd server \<Rightarrow>
     AuthResult \<times> 'd server \<times> effect list" where
  "handle_auth e rnd now sock input st =
     (case input of
        None \<Rightarrow> (Disconnected, st, [])
      | Some frame \<Rightarrow>
          (case decode_message frame of
             None \<Rightarrow> (Retry, st, [send_msg sock AuthFail ''Malformed login request.''])
           | Some (type, payload) \<Rightarrow>
               if type \<noteq> Login \<and> type \<noteq> Register
               then (Retry, st, [send_msg sock AuthFail ''Please log in or register an account first.''])
               else
                 (case find_char payload (CHR 0x0A) of
                    None \<Rightarrow> (Retry, st, [send_msg sock AuthFail ''Invalid credentials format.''])
                  | Some separator \<Rightarrow>
                      (let username = trim (substr payload 0 separator);
                           password = substr_from payload (separator + 1)
                       in if type = Register
                          then
                            if \<not> valid_username username
                            then (Retry, st, [send_msg sock AuthFail
                              ''Username must be 3-20 characters (letters, digits, '_' or '-').''])
                            else if length password < 6
                            then (Retry, st, [send_msg sock AuthFail ''Password must be at least 6 characters.''])
                            else
                              (case register_user e rnd now username password (sdb st) of
                                 (Some error, db) \<Rightarrow>
                                   (Retry, st\<lparr>sdb := db\<rparr>, [send_msg sock AuthFail (''Registration failed: '' @ error)])
                               | (None, db) \<Rightarrow>
                                   (Success username, st\<lparr>sdb := db\<rparr>,
                                    [send_system sock (''Account '' @ quoted username @ '' created. Welcome!''),
                                     ServerLog (''new account registered: '' @ username)]))
                          else
                            (case authenticate_user e username password (sdb st) of
                               (Some error, db) \<Rightarrow>
                                 (Retry, st\<lparr>sdb := db\<rparr>, [send_msg sock AuthFail (''Login failed: '' @ error)])
                             | (None, db) \<Rightarrow>
                                 (Success username, st\<lparr>sdb := db\<rparr>, [ServerLog (username @ '' logged in.'')]))))))"

section \<open>History\<close>

definition replay_history ::
    "'d sqlite \<Rightarrow> SOCKET \<Rightarrow> string \<Rightarrow> int \<Rightarrow> 'd server \<Rightarrow> 'd server \<times> effect list" where
  "replay_history e sock room limit st =
     (case get_recent_messages e room limit (sdb st) of
        (history, db) \<Rightarrow>
          if history = []
          then (st\<lparr>sdb := db\<rparr>, [send_system sock (''No message history in room '' @ quoted room @ '' yet.'')])
          else (st\<lparr>sdb := db\<rparr>, [send_msg sock History (encode_history history)]))"

text \<open>\<^verbatim>\<open>int limit = ...\<close> of a history request: the default, or the number clamped to 1 .. 200.\<close>

definition history_limit :: "string \<Rightarrow> int" where
  "history_limit text =
     (if text = [] then kHistoryLimit
      else (let limit = (case stoi text of Some n \<Rightarrow> n | None \<Rightarrow> kHistoryLimit);
                limit = (if limit \<le> 0 then 1 else limit)
            in if limit > 200 then 200 else limit))"

definition handle_history_request ::
    "'d sqlite \<Rightarrow> SOCKET \<Rightarrow> string \<Rightarrow> string \<Rightarrow> string \<Rightarrow> 'd server \<Rightarrow> 'd server \<times> effect list" where
  "handle_history_request e sock raw_limit username room st =
     (let text = trim raw_limit
      in if text \<noteq> [] \<and> text ! 0 = CHR ''@''
         then
           (let space = find_char text (CHR '' '');
                target_user = (case space of None \<Rightarrow> substr_from text 1 | Some p \<Rightarrow> substr text 1 (p - 1))
            in if target_user = [] then (st, [send_system sock ''Usage: /dmhistory <user> [N]''])
               else
                 (let target_room = dm_room_key username target_user;
                      text = (case space of None \<Rightarrow> '''' | Some p \<Rightarrow> trim (substr_from text (p + 1)))
                  in replay_history e sock target_room (history_limit text) st))
         else replay_history e sock room (history_limit text) st)"

section \<open>Rooms\<close>

text \<open>\<^verbatim>\<open>handle_join\<close>: the first component is the new value of \<^verbatim>\<open>current_room\<close>.\<close>

definition handle_join ::
    "'d sqlite \<Rightarrow> SOCKET \<Rightarrow> string \<Rightarrow> string \<Rightarrow> string \<Rightarrow> 'd server \<Rightarrow> string \<times> 'd server \<times> effect list" where
  "handle_join e sock raw_room username current_room st =
     (let new_room = sanitize_room raw_room
      in if new_room = [] then (current_room, st, [send_system sock ''Room name cannot be empty.''])
         else if new_room = current_room
         then (current_room, st, [send_system sock (''You are already in room '' @ quoted current_room @ ''.'')])
         else
           (let left = broadcast_to_room current_room
                  (encode_message System (username @ '' left '' @ current_room)) sock st;
                current_room = new_room;
                st = set_room sock current_room st;
                joined = broadcast_to_room current_room
                  (encode_message System (username @ '' joined '' @ current_room)) sock st
            in case replay_history e sock current_room kHistoryLimit st of
                 (st, replay) \<Rightarrow>
                   (current_room, st, left @ [send_msg sock Joined current_room] @ joined @ replay)))"

section \<open>Messages\<close>

definition handle_chat ::
    "'d sqlite \<Rightarrow> i64 \<Rightarrow> SOCKET \<Rightarrow> string \<Rightarrow> string \<Rightarrow> string \<Rightarrow> 'd server \<Rightarrow> 'd server \<times> effect list" where
  "handle_chat e now sock payload username room st =
     (let content = trim payload
      in if content = [] then (st, [])
         else
           (let message = \<lparr>msg_room = room, msg_username = username, msg_content = content, msg_timestamp = now\<rparr>
            in case add_message e message (sdb st) of
                 (stored, db) \<Rightarrow>
                   let st = st\<lparr>sdb := db\<rparr>
                   in (st, (if \<not> stored then [send_system sock ''Failed to store the message in history.''] else []) @
                           broadcast_to_room room
                             (encode_message ChatMsg (encode_chat_message message)) sock st)))"

definition handle_direct ::
    "'d sqlite \<Rightarrow> i64 \<Rightarrow> SOCKET \<Rightarrow> string \<Rightarrow> string \<Rightarrow> 'd server \<Rightarrow> 'd server \<times> effect list" where
  "handle_direct e now sock payload username st =
     (case find_char payload (CHR 0x0A) of
        None \<Rightarrow> (st, [send_system sock ''Usage: /msg <user> <message>''])
      | Some separator \<Rightarrow>
          (let target = trim (substr payload 0 separator);
               content = trim (substr_from payload (separator + 1))
           in if target = [] \<or> content = []
              then (st, [send_system sock ''Usage: /msg <user> <message>''])
              else
                (let target_socket = find_client_by_username target st
                 in if target_socket = INVALID_SOCKET
                    then (st, [send_system sock (''User '' @ quoted target @ '' not found or offline.'')])
                    else
                      (let dm = \<lparr>dm_from = username, dm_to = target, dm_content = content, dm_timestamp = now\<rparr>
                       in case add_message e
                              \<lparr>msg_room = dm_room_key username target, msg_username = username,
                               msg_content = content, msg_timestamp = dm_timestamp dm\<rparr> (sdb st) of
                            (stored, db) \<Rightarrow>
                              let st = st\<lparr>sdb := db\<rparr>;
                                  frame = encode_message DirectMsg (encode_direct_message dm)
                              in (st, (if \<not> stored
                                       then [send_system sock ''Failed to store the direct message in history.'']
                                       else []) @
                                      [SendFrame target_socket frame, SendFrame sock frame])))))"

definition handle_users :: "SOCKET \<Rightarrow> string \<Rightarrow> string \<Rightarrow> 'd server \<Rightarrow> effect list" where
  "handle_users sock payload room st =
     (let target_room = (if trim payload = [] then room else sanitize_room payload)
      in [send_msg sock UsersList (encode_user_list (users_in_room target_room st))])"

section \<open>One frame of a logged-in client\<close>

text \<open>
  The body of the loop of \<^verbatim>\<open>handle_client\<close>: the results are the new values of the thread's \<^verbatim>\<open>room\<close>
  and \<^verbatim>\<open>running\<close>.
\<close>

definition handle_frame ::
    "'d sqlite \<Rightarrow> i64 \<Rightarrow> SOCKET \<Rightarrow> string \<Rightarrow> string \<Rightarrow> string \<Rightarrow> 'd server \<Rightarrow>
     (string \<times> bool) \<times> 'd server \<times> effect list" where
  "handle_frame e now sock username room frame st =
     (case decode_message frame of
        None \<Rightarrow> ((room, True), st, [send_system sock ''Received a malformed message.''])
      | Some (type, payload) \<Rightarrow>
          (case type of
             Chat \<Rightarrow>
               (case handle_chat e now sock payload username room st of
                  (st, effs) \<Rightarrow> ((room, True), st, effs))
           | Join \<Rightarrow>
               (case handle_join e sock payload username room st of
                  (room, st, effs) \<Rightarrow> ((room, True), st, effs))
           | HistoryReq \<Rightarrow>
               (case handle_history_request e sock payload username room st of
                  (st, effs) \<Rightarrow> ((room, True), st, effs))
           | RoomsReq \<Rightarrow>
               (case build_room_list e st of
                  (text, st) \<Rightarrow> ((room, True), st, [send_system sock text]))
           | Direct \<Rightarrow>
               (case handle_direct e now sock payload username st of
                  (st, effs) \<Rightarrow> ((room, True), st, effs))
           | UsersReq \<Rightarrow> ((room, True), st, handle_users sock payload room st)
           | Quit \<Rightarrow> ((room, False), st, [send_system sock (''Goodbye, '' @ username @ ''!'')])
           | _ \<Rightarrow> ((room, True), st, [send_system sock ''Unsupported message type.''])))"

section \<open>The thread of a client\<close>

text \<open>From the successful login to the loop, and from the loop to the end.\<close>

definition client_enter ::
    "'d sqlite \<Rightarrow> SOCKET \<Rightarrow> string \<Rightarrow> 'd server \<Rightarrow> string \<times> 'd server \<times> effect list" where
  "client_enter e sock username st =
     (let room = kDefaultRoom;
          st = add_client sock username room st;
          greeting =
            [send_msg sock AuthOk (username @ ''\<newline>'' @ room),
             send_system sock (''Welcome, '' @ username @ ''! You are in room '' @ quoted room @ ''.''),
             send_system sock ''Commands: /join <room> | /history [N] | /rooms | /msg <user> <text> | /who [room] | /dmhistory <user> [N] | /help | /quit'']
      in case replay_history e sock room kHistoryLimit st of
           (st, replay) \<Rightarrow>
             (room, st,
              greeting @ replay @ [ServerLog (username @ '' connected (room: '' @ room @ '').'')] @
              broadcast_to_room room (encode_message System (username @ '' joined '' @ room)) sock st))"

definition client_leave :: "SOCKET \<Rightarrow> string \<Rightarrow> string \<Rightarrow> 'd server \<Rightarrow> 'd server \<times> effect list" where
  "client_leave sock username room st =
     (let st = remove_client sock st
      in (st, broadcast_to_room room (encode_message System (username @ '' left '' @ room)) INVALID_SOCKET st @
              [CloseSocket sock, ServerLog (username @ '' disconnected.'')]))"

text \<open>
  What one read of the thread brings with it: the frame, the reading of the clock and the random
  bytes in case it is a registration. \<open>handle_client\<close> is run on the list of the frames the client
  sends until its connection ends.
\<close>

record stim =
  in_frame :: string
  in_now :: i64
  in_rnd :: "nat \<Rightarrow> u32"

fun client_loop ::
    "'d sqlite \<Rightarrow> SOCKET \<Rightarrow> string \<Rightarrow> string \<Rightarrow> bool \<Rightarrow> stim list \<Rightarrow> 'd server \<Rightarrow>
     string \<times> 'd server \<times> effect list" where
  "client_loop e sock username room running [] st = (room, st, [])"
| "client_loop e sock username room running (input # inputs) st =
     (if \<not> running then (room, st, [])
      else
        (case handle_frame e (in_now input) sock username room (in_frame input) st of
           ((room, running), st, effs) \<Rightarrow>
             (case client_loop e sock username room running inputs st of
                (room, st, effs') \<Rightarrow> (room, st, effs @ effs'))))"

fun handle_client :: "'d sqlite \<Rightarrow> SOCKET \<Rightarrow> stim list \<Rightarrow> 'd server \<Rightarrow> 'd server \<times> effect list" where
  "handle_client e sock [] st =
     (case handle_auth e (\<lambda>_. 0) 0 sock None st of (_, st, effs) \<Rightarrow> (st, effs @ [CloseSocket sock]))"
| "handle_client e sock (input # inputs) st =
     (case handle_auth e (in_rnd input) (in_now input) sock (Some (in_frame input)) st of
        (Success username, st, effs) \<Rightarrow>
          (case client_enter e sock username st of
             (room, st, effs1) \<Rightarrow>
               (case client_loop e sock username room True inputs st of
                  (room, st, effs2) \<Rightarrow>
                    (case client_leave sock username room st of
                       (st, effs3) \<Rightarrow> (st, effs @ effs1 @ effs2 @ effs3))))
      | (Disconnected, st, effs) \<Rightarrow> (st, effs @ [CloseSocket sock])
      | (Retry, st, effs) \<Rightarrow>
          (case handle_client e sock inputs st of (st, effs') \<Rightarrow> (st, effs @ effs')))"

end
