(* ===== verification/Registry_Interface.thy ===== *)
theory Registry_Interface
  imports Chat_Prelude
begin

text \<open>
  What the handlers rely on of the table of connected clients: a finite map from sockets to a
  user and a room, of which the code keeps a list. Recipients of a broadcast, the users of a room
  and the search by name are queries on this map; entering, leaving and moving are its updates.
\<close>

locale presence_registry =
  fixes good :: "'r \<Rightarrow> bool"
    and lookup :: "'r \<Rightarrow> int \<rightharpoonup> string \<times> string"
    and add :: "int \<Rightarrow> string \<Rightarrow> string \<Rightarrow> 'r \<Rightarrow> 'r"
    and remove :: "int \<Rightarrow> 'r \<Rightarrow> 'r"
    and move :: "int \<Rightarrow> string \<Rightarrow> 'r \<Rightarrow> 'r"
    and recipients :: "string \<Rightarrow> int \<Rightarrow> 'r \<Rightarrow> int list"
    and users :: "string \<Rightarrow> 'r \<Rightarrow> string list"
    and find_user :: "string \<Rightarrow> 'r \<Rightarrow> int"
    and none :: int
  assumes none_law: "good r \<Longrightarrow> lookup r none = None"
    and add_law: "good r \<Longrightarrow> lookup r s = None \<Longrightarrow> s \<noteq> none \<Longrightarrow>
      good (add s u m r) \<and> lookup (add s u m r) = (lookup r)(s \<mapsto> (u, m))"
    and remove_law: "good r \<Longrightarrow> good (remove s r) \<and> lookup (remove s r) = (lookup r)(s := None)"
    and move_law: "good r \<Longrightarrow> good (move s m r) \<and>
      lookup (move s m r) = (lookup r)(s := map_option (\<lambda>(u, _). (u, m)) (lookup r s))"
    and recipients_law: "good r \<Longrightarrow> distinct (recipients m ex r) \<and>
      set (recipients m ex r) = {s. s \<noteq> ex \<and> (\<exists>u. lookup r s = Some (u, m))}"
    and users_law: "good r \<Longrightarrow> set (users m r) = {u. \<exists>s. lookup r s = Some (u, m)}"
    and find_law: "good r \<Longrightarrow>
      (if \<exists>s m. lookup r s = Some (u, m) then \<exists>m. lookup r (find_user u r) = Some (u, m)
       else find_user u r = none)"
begin

lemma recipient_iff:
  "good r \<Longrightarrow> s \<in> set (recipients m ex r) \<longleftrightarrow> s \<noteq> ex \<and> (\<exists>u. lookup r s = Some (u, m))"
  by (simp add: recipients_law)

lemma broadcast_to_all: "good r \<Longrightarrow> set (recipients m none r) = {s. \<exists>u. lookup r s = Some (u, m)}"
  by (auto simp: recipients_law none_law)

text \<open>A client that moves is heard by its new room only, and the other clients by the same ones.\<close>

lemma recipients_move:
  assumes "good r" and "lookup r s = Some (u, m)"
  shows "set (recipients m'' ex (move s m' r)) =
    (set (recipients m'' ex r) - {s}) \<union> (if m'' = m' \<and> s \<noteq> ex then {s} else {})"
  using assms by (auto simp: recipients_law move_law split: if_splits)

lemma recipients_add:
  assumes "good r" and "lookup r s = None" and "s \<noteq> none"
  shows "set (recipients m' ex (add s u m r)) =
    set (recipients m' ex r) \<union> (if m' = m \<and> s \<noteq> ex then {s} else {})"
  using assms by (auto simp: recipients_law add_law)

lemma recipients_remove:
  "good r \<Longrightarrow> set (recipients m ex (remove s r)) = set (recipients m ex r) - {s}"
  by (auto simp: recipients_law remove_law split: if_splits)

lemma find_user_Some:
  "good r \<Longrightarrow> find_user u r \<noteq> none \<Longrightarrow> \<exists>m. lookup r (find_user u r) = Some (u, m)"
  using find_law [of r u] by (auto split: if_splits)

lemma find_user_none: "good r \<Longrightarrow> find_user u r = none \<longleftrightarrow> (\<forall>s m. lookup r s \<noteq> Some (u, m))"
  using find_law [of r u] none_law [of r] by (auto split: if_splits)

lemma round_trip:
  "good r \<Longrightarrow> lookup r s = None \<Longrightarrow> s \<noteq> none \<Longrightarrow> lookup (remove s (move s m' (add s u m r))) = lookup r"
  by (auto simp: remove_law move_law add_law fun_eq_iff)

end

end
