(* ===== verification/Server_Registry.thy ===== *)
theory Server_Registry
  imports Server_State Registry_Interface
begin

text \<open>
  The table \<^verbatim>\<open>clients\<close> as a map from sockets to user and room: the loops of the helpers of
  chat_server.cpp in closed form, and the proof that they keep the contract of
  \<open>Registry_Interface\<close> as long as no socket is entered twice.
\<close>

section \<open>Closed forms\<close>

lemma foldl_filter_map:
  "foldl (\<lambda>acc x. if P x then acc @ [f x] else acc) pre xs = pre @ map f (filter P xs)"
  by (induction xs arbitrary: pre) simp_all

definition recipients_in :: "string \<Rightarrow> SOCKET \<Rightarrow> ClientInfo list \<Rightarrow> SOCKET list" where
  "recipients_in room exclude cs =
     map cl_socket (filter (\<lambda>c. cl_room c = room \<and> cl_socket c \<noteq> exclude) cs)"

lemma broadcast_to_room_eq [registry_simps]:
  "broadcast_to_room room frame exclude st =
     map (\<lambda>sock. SendFrame sock frame) (recipients_in room exclude (clients st))"
  by (simp add: broadcast_to_room_def recipients_in_def foldl_filter_map [where P = "\<lambda>c. cl_room c = room \<and> cl_socket c \<noteq> exclude"])

lemma users_in_room_eq [registry_simps]:
  "users_in_room room st = map cl_username (filter (\<lambda>c. cl_room c = room) (clients st))"
  by (simp add: users_in_room_def foldl_filter_map)

lemma online_count_eq [registry_simps]:
  "online_count room cs = int (length (filter (\<lambda>c. cl_room c = room) cs))"
proof -
  have "foldl (\<lambda>n client. if cl_room client = room then n + 1 else n) k cs =
      k + int (length (filter (\<lambda>c. cl_room c = room) cs))" for k :: int
    by (induction cs arbitrary: k) simp_all
  then show ?thesis by (simp add: online_count_def)
qed

lemma set_room_in_sockets [simp]: "map cl_socket (set_room_in sock room cs) = map cl_socket cs"
  by (induction cs) simp_all

lemma set_room_in_usernames [simp]: "map cl_username (set_room_in sock room cs) = map cl_username cs"
  by (induction cs) simp_all

lemma set_room_in_absent: "sock \<notin> cl_socket ` set cs \<Longrightarrow> set_room_in sock room cs = cs"
  by (induction cs) auto

lemma find_in_cases:
  "(find_in u cs = INVALID_SOCKET \<and> (\<forall>c\<in>set cs. cl_username c \<noteq> u)) \<or>
   (\<exists>c\<in>set cs. cl_username c = u \<and> find_in u cs = cl_socket c)"
  by (induction cs) auto

section \<open>The table as a map\<close>

definition presence :: "ClientInfo list \<Rightarrow> SOCKET \<rightharpoonup> string \<times> string" where
  "presence cs = map_of (map (\<lambda>c. (cl_socket c, (cl_username c, cl_room c))) cs)"

definition registry_ok :: "ClientInfo list \<Rightarrow> bool" where
  "registry_ok cs \<longleftrightarrow> distinct (map cl_socket cs) \<and> INVALID_SOCKET \<notin> cl_socket ` set cs"

lemma presence_simps [simp]:
  "presence [] = Map.empty"
  "presence (c # cs) = (presence cs)(cl_socket c \<mapsto> (cl_username c, cl_room c))"
  by (simp_all add: presence_def)

lemma presence_None: "presence cs s = None \<longleftrightarrow> s \<notin> cl_socket ` set cs"
  by (induction cs) auto

lemma presence_iff:
  "distinct (map cl_socket cs) \<Longrightarrow> presence cs s = Some (u, m) \<longleftrightarrow>
     (\<exists>c\<in>set cs. cl_socket c = s \<and> cl_username c = u \<and> cl_room c = m)"
  by (induction cs) (auto simp: image_iff)

lemma presence_append:
  "s \<notin> cl_socket ` set cs \<Longrightarrow> presence (cs @ [\<lparr>cl_socket = s, cl_username = u, cl_room = m\<rparr>]) =
     (presence cs)(s \<mapsto> (u, m))"
  by (induction cs) (auto simp: fun_eq_iff)

lemma presence_filter: "presence (filter (\<lambda>c. \<not> cl_socket c = s) cs) = (presence cs)(s := None)"
  by (induction cs) (auto simp: fun_eq_iff)

lemma presence_set_room_in:
  "presence (set_room_in s m cs) = (presence cs)(s := map_option (\<lambda>(u, _). (u, m)) (presence cs s))"
  by (induction cs) (auto simp: fun_eq_iff)

lemma distinct_recipients_in: "distinct (map cl_socket cs) \<Longrightarrow> distinct (recipients_in m ex cs)"
  by (simp add: recipients_in_def distinct_map inj_on_def)

lemma set_recipients_in:
  "distinct (map cl_socket cs) \<Longrightarrow>
     set (recipients_in m ex cs) = {s. s \<noteq> ex \<and> (\<exists>u. presence cs s = Some (u, m))}"
  by (auto simp: recipients_in_def presence_iff image_iff)

definition users_in :: "string \<Rightarrow> ClientInfo list \<Rightarrow> string list" where
  "users_in m cs = map cl_username (filter (\<lambda>c. cl_room c = m) cs)"

definition add_in :: "SOCKET \<Rightarrow> string \<Rightarrow> string \<Rightarrow> ClientInfo list \<Rightarrow> ClientInfo list" where
  "add_in s u m cs = cs @ [\<lparr>cl_socket = s, cl_username = u, cl_room = m\<rparr>]"

definition remove_in :: "SOCKET \<Rightarrow> ClientInfo list \<Rightarrow> ClientInfo list" where
  "remove_in s cs = filter (\<lambda>c. \<not> cl_socket c = s) cs"

lemma server_tables [registry_simps]:
  "clients (add_client s u m st) = add_in s u m (clients st)"
  "clients (remove_client s st) = remove_in s (clients st)"
  "clients (set_room s m st) = set_room_in s m (clients st)"
  "users_in_room m st = users_in m (clients st)"
  "find_client_by_username u st = find_in u (clients st)"
  by (simp_all add: add_client_def add_in_def remove_client_def remove_in_def set_room_def
      users_in_room_eq users_in_def find_client_by_username_def)

interpretation registry: presence_registry registry_ok presence add_in remove_in set_room_in
  recipients_in users_in find_in INVALID_SOCKET
proof unfold_locales
  fix r :: "ClientInfo list" and s u m
  assume "registry_ok r" "presence r s = None" "s \<noteq> INVALID_SOCKET"
  then show "registry_ok (add_in s u m r) \<and> presence (add_in s u m r) = (presence r)(s \<mapsto> (u, m))"
    by (auto simp: registry_ok_def add_in_def presence_append presence_None)
next
  fix r :: "ClientInfo list" and s
  assume "registry_ok r"
  then show "registry_ok (remove_in s r) \<and> presence (remove_in s r) = (presence r)(s := None)"
    by (auto simp: registry_ok_def remove_in_def presence_filter distinct_map_filter)
next
  fix r :: "ClientInfo list" and s m
  assume "registry_ok r"
  moreover have "cl_socket ` set (set_room_in s m r) = cl_socket ` set r"
    by (metis set_room_in_sockets list.set_map)
  ultimately show "registry_ok (set_room_in s m r) \<and>
      presence (set_room_in s m r) = (presence r)(s := map_option (\<lambda>(u, _). (u, m)) (presence r s))"
    by (simp add: registry_ok_def presence_set_room_in)
next
  fix r :: "ClientInfo list" and u
  assume r: "registry_ok r"
  then show "if \<exists>s m. presence r s = Some (u, m) then \<exists>m. presence r (find_in u r) = Some (u, m)
      else find_in u r = INVALID_SOCKET"
    using find_in_cases [of u r] by (auto simp: registry_ok_def presence_iff) blast
qed (auto simp: registry_ok_def presence_None distinct_recipients_in set_recipients_in users_in_def
    presence_iff image_iff)

end
