(* ===== verification/Server_Facts.thy ===== *)
theory Server_Facts
  imports Server_Handlers Server_Registry
begin

text \<open>
  What each handler of chat_server.cpp does to the three parts of the shared state: the table of
  connected clients, the accounts and the stored messages; and to which sockets it writes. The
  facts about the database come from the laws of \<open>Store_Interface\<close>.
\<close>

definition targets :: "effect list \<Rightarrow> SOCKET set" where
  "targets effs = {s. \<exists>f. SendFrame s f \<in> set effs}"

lemma targets_simps [effect_simps]:
  "targets [] = {}"
  "targets (SendFrame s f # effs) = insert s (targets effs)"
  "targets (CloseSocket s # effs) = targets effs"
  "targets (ServerLog t # effs) = targets effs"
  "targets (effs @ effs') = targets effs \<union> targets effs'"
  "targets (send_msg s type p # effs) = insert s (targets effs)"
  "targets (send_system s p # effs) = insert s (targets effs)"
  by (auto simp: targets_def send_msg_def send_system_def)

lemma targets_broadcast [effect_simps]:
  "targets (broadcast_to_room m f ex st) = set (recipients_in m ex (clients st))"
  by (auto simp: targets_def broadcast_to_room_eq)

section \<open>Changes of the state\<close>

text \<open>
  \<open>db_grows\<close> is the relation all handlers keep: accounts stay as they are, and the message log is
  only extended, by messages of the user the thread is logged in as.
\<close>

definition db_grows :: "('d \<Rightarrow> tables) \<Rightarrow> string \<Rightarrow> 'd server \<Rightarrow> 'd server \<Rightarrow> bool" where
  "db_grows T u st st' \<longleftrightarrow> accounts T (sdb st') = accounts T (sdb st) \<and>
     (\<exists>new. message_rows T (sdb st') = message_rows T (sdb st) @ new \<and> m_user ` set new \<subseteq> {c_str u})"

lemma db_grows_refl [simp, intro!]: "db_grows T u st st"
  by (simp add: db_grows_def)

lemma db_grows_clients [simp]: "db_grows T u st (st'\<lparr>clients := cs\<rparr>) = db_grows T u st st'"
  by (simp add: db_grows_def)

lemma db_grows_registry [simp]:
  "db_grows T u (add_client s v m st) st' = db_grows T u st st'"
  "db_grows T u (remove_client s st) st' = db_grows T u st st'"
  "db_grows T u (set_room s m st) st' = db_grows T u st st'"
  "db_grows T u st (add_client s v m st') = db_grows T u st st'"
  "db_grows T u st (remove_client s st') = db_grows T u st st'"
  "db_grows T u st (set_room s m st') = db_grows T u st st'"
  by (simp_all add: db_grows_def add_client_def remove_client_def set_room_def)

lemma replay_history_facts:
  assumes "replay_history e s m n st = (st', effs)"
  shows "clients st' = clients st" and "targets effs = {s}"
    and "sqlite_documented e T \<Longrightarrow> db_grows T u st st'"
proof -
  obtain ms db where g: "get_recent_messages e m n (sdb st) = (ms, db)" by fastforce
  with assms have st: "st' = st\<lparr>sdb := db\<rparr>"
    and "effs = [send_system s (''No message history in room '' @ quoted m @ '' yet.'')] \<or>
      effs = [send_msg s History (encode_history ms)]"
    by (auto simp: replay_history_def split: if_splits)
  then show "clients st' = clients st" "targets effs = {s}" by (auto simp: effect_simps)
  show "db_grows T u st st'" if "sqlite_documented e T"
    using store.recent_law [OF that g] st by (simp add: db_grows_def)
qed

lemma handle_history_request_facts:
  assumes "handle_history_request e s raw u m st = (st', effs)"
  shows "clients st' = clients st" and "targets effs = {s}"
    and "sqlite_documented e T \<Longrightarrow> db_grows T u st st'"
  using assms
  by (auto simp: handle_history_request_def Let_def effect_simps replay_history_facts(1,2)
      dest: replay_history_facts(3) split: if_splits option.splits)

lemma build_room_list_facts:
  assumes "build_room_list e st = (answer, st')"
  shows "clients st' = clients st" and "sqlite_documented e T \<Longrightarrow> db_grows T u st st'"
proof -
  obtain rs db where g: "list_rooms e 200 (sdb st) = (rs, db)" by fastforce
  with assms have st: "st' = st\<lparr>sdb := db\<rparr>" by (auto simp: build_room_list_def Let_def)
  then show "clients st' = clients st" by simp
  show "db_grows T u st st'" if "sqlite_documented e T"
    using store.list_rooms_law [OF that g] st by (simp add: db_grows_def)
qed

lemma add_message_grows:
  assumes "sqlite_documented e T" and "add_message e msg (sdb st) = (stored, db)"
  shows "db_grows T (msg_username msg) st (st\<lparr>sdb := db\<rparr>)"
  using store.add_law [OF assms] by (auto simp: db_grows_def stored_message_def split: if_splits)

lemma handle_chat_facts:
  assumes "handle_chat e now s payload u m st = (st', effs)"
  shows "clients st' = clients st" and "targets effs \<subseteq> insert s (set (recipients_in m s (clients st)))"
    and "sqlite_documented e T \<Longrightarrow> db_grows T u st st'"
proof -
  let ?msg = "\<lparr>msg_room = m, msg_username = u, msg_content = trim payload, msg_timestamp = now\<rparr>"
  obtain stored db where a: "add_message e ?msg (sdb st) = (stored, db)" by fastforce
  from assms show "clients st' = clients st" "targets effs \<subseteq> insert s (set (recipients_in m s (clients st)))"
    by (auto simp: handle_chat_def Let_def effect_simps split: if_splits prod.splits)
  have "st' = st \<or> st' = st\<lparr>sdb := db\<rparr>"
    using assms a by (auto simp: handle_chat_def Let_def split: if_splits)
  then show "db_grows T u st st'" if "sqlite_documented e T"
    using add_message_grows [OF that a] by auto
qed

lemma handle_direct_cases:
  assumes "handle_direct e now s payload u st = (st', effs)"
  obtains (refused) reply where "st' = st" "effs = [send_system s reply]"
  | (sent) target content stored db where
      "find_in target (clients st) \<noteq> INVALID_SOCKET" "content \<noteq> []"
      "add_message e \<lparr>msg_room = dm_room_key u target, msg_username = u, msg_content = content,
         msg_timestamp = now\<rparr> (sdb st) = (stored, db)"
      "st' = st\<lparr>sdb := db\<rparr>"
      "effs = (if stored then [] else [send_system s ''Failed to store the direct message in history.'']) @
         map (\<lambda>sock. SendFrame sock (encode_message DirectMsg (encode_direct_message
           \<lparr>dm_from = u, dm_to = target, dm_content = content, dm_timestamp = now\<rparr>)))
           [find_in target (clients st), s]"
proof (cases "find_char payload (CHR 0x0A)")
  case None
  with assms show ?thesis by (intro refused) (auto simp: handle_direct_def)
next
  case (Some i)
  let ?t = "trim (substr payload 0 i)" and ?c = "trim (substr_from payload (i + 1))"
  obtain stored db where "add_message e \<lparr>msg_room = dm_room_key u ?t, msg_username = u,
      msg_content = ?c, msg_timestamp = now\<rparr> (sdb st) = (stored, db)" by fastforce
  note add = this
  show ?thesis
  proof (cases "?t = [] \<or> ?c = [] \<or> find_in ?t (clients st) = INVALID_SOCKET")
    case True
    with assms Some show ?thesis
      by (intro refused [of "if ?t = [] \<or> ?c = [] then ''Usage: /msg <user> <message>''
            else ''User '' @ quoted ?t @ '' not found or offline.''"])
        (auto simp: handle_direct_def Let_def server_tables split: if_splits)
  next
    case False
    with assms Some add show ?thesis
      by (intro sent [OF _ _ add])
        (simp_all add: handle_direct_def Let_def server_tables split: if_splits)
  qed
qed

lemma handle_direct_facts:
  assumes "handle_direct e now s payload u st = (st', effs)"
  shows "clients st' = clients st" and "registry_ok (clients st) \<Longrightarrow> targets effs \<subseteq> insert s (dom (presence (clients st)))"
    and "sqlite_documented e T \<Longrightarrow> db_grows T u st st'"
proof -
  show "clients st' = clients st" using assms by (cases rule: handle_direct_cases) simp_all
  show "targets effs \<subseteq> insert s (dom (presence (clients st)))" if "registry_ok (clients st)"
    using assms
    by (cases rule: handle_direct_cases)
      (use registry.find_user_Some [OF that] in \<open>auto simp: effect_simps\<close>)
  show "db_grows T u st st'" if "sqlite_documented e T"
    using assms by (cases rule: handle_direct_cases) (use add_message_grows [OF that] in fastforce)+
qed

text \<open>\<^const>\<open>handle_join\<close> either leaves room and table alone, or moves the client.\<close>

lemma handle_join_cases:
  assumes "handle_join e s raw u m st = (m', st', effs)"
  obtains (stay) reply where "m' = m" "st' = st" "effs = [send_system s reply]"
  | (move) replay where "m' = sanitize_room raw" "m' \<noteq> []" "m' \<noteq> m"
      "replay_history e s m' kHistoryLimit (set_room s m' st) = (st', replay)"
      "effs = broadcast_to_room m (encode_message System (u @ '' left '' @ m)) s st @
         [send_msg s Joined m'] @
         broadcast_to_room m' (encode_message System (u @ '' joined '' @ m')) s (set_room s m' st) @ replay"
  using assms unfolding handle_join_def Let_def
  by (auto simp: effect_simps split: if_splits prod.splits)

lemma handle_join_facts:
  assumes "handle_join e s raw u m st = (m', st', effs)"
  shows "clients st' = (if m' = m then clients st else set_room_in s m' (clients st))"
    and "registry_ok (clients st) \<Longrightarrow> targets effs \<subseteq> insert s (dom (presence (clients st)))"
    and "sqlite_documented e T \<Longrightarrow> db_grows T u st st'"
proof -
  show "clients st' = (if m' = m then clients st else set_room_in s m' (clients st))"
    using assms by (cases rule: handle_join_cases) (auto simp: replay_history_facts(1) registry_simps)
  show "db_grows T u st st'" if "sqlite_documented e T"
    using assms by (cases rule: handle_join_cases) (auto dest: replay_history_facts(3) [OF _ that])
  show "targets effs \<subseteq> insert s (dom (presence (clients st)))" if ok: "registry_ok (clients st)"
    using assms
  proof (cases rule: handle_join_cases)
    case (move replay)
    have "registry_ok (set_room_in s m' (clients st))" using registry.move_law [OF ok] by blast
    then show ?thesis
      using move ok replay_history_facts(2) [OF move(4)] registry.move_law [OF ok, of s m']
      by (auto simp: effect_simps server_tables registry.recipient_iff split: if_splits)
  qed (auto simp: effect_simps)
qed

text \<open>No handler closes a socket.\<close>

definition closes :: "effect list \<Rightarrow> SOCKET set" where
  "closes effs = {s. CloseSocket s \<in> set effs}"

lemma closes_simps [effect_simps]:
  "closes [] = {}"
  "closes (SendFrame s f # effs) = closes effs"
  "closes (CloseSocket s # effs) = insert s (closes effs)"
  "closes (ServerLog t # effs) = closes effs"
  "closes (effs @ effs') = closes effs \<union> closes effs'"
  "closes (send_msg s type p # effs) = closes effs"
  "closes (send_system s p # effs) = closes effs"
  "closes (broadcast_to_room m f ex st) = {}"
  "closes (map (\<lambda>sock. SendFrame sock f) socks) = {}"
  by (auto simp: closes_def send_msg_def send_system_def broadcast_to_room_eq)

lemma replay_history_closes: "replay_history e s m n st = (st', effs) \<Longrightarrow> closes effs = {}"
  by (auto simp: replay_history_def effect_simps split: prod.splits if_splits)

section \<open>One frame\<close>

text \<open>The outcomes of \<^const>\<open>handle_frame\<close>, by the type of the frame.\<close>

lemma handle_frame_cases:
  assumes "handle_frame e now s u m frame st = ((m', running), st', effs)"
  obtains (reply) "m' = m" "st' = st" "targets effs = {s}"
  | (quit) p where "decode_message frame = Some (Quit, p)" "m' = m" "st' = st" "targets effs = {s}" "\<not> running"
  | (chat) p where "decode_message frame = Some (Chat, p)" "m' = m" "running"
      "handle_chat e now s p u m st = (st', effs)"
  | (join) p where "decode_message frame = Some (Join, p)" "running"
      "handle_join e s p u m st = (m', st', effs)"
  | (history) p where "decode_message frame = Some (HistoryReq, p)" "m' = m" "running"
      "handle_history_request e s p u m st = (st', effs)"
  | (rooms) p answer where "decode_message frame = Some (RoomsReq, p)" "m' = m" "running"
      "build_room_list e st = (answer, st')" "effs = [send_system s answer]"
  | (direct) p where "decode_message frame = Some (Direct, p)" "m' = m" "running"
      "handle_direct e now s p u st = (st', effs)"
proof (cases "decode_message frame")
  case None
  with assms show ?thesis by (intro reply) (auto simp: handle_frame_def effect_simps)
next
  case (Some tp)
  obtain t p where tp: "tp = (t, p)" by (cases tp)
  show ?thesis
    using assms Some that unfolding handle_frame_def tp handle_users_def
    by (cases t) (auto simp: effect_simps split: prod.splits)
qed

lemma handle_frame_facts:
  assumes "handle_frame e now s u m frame st = ((m', running), st', effs)"
  shows "clients st' = (if m' = m then clients st else set_room_in s m' (clients st))"
    and "registry_ok (clients st) \<Longrightarrow> targets effs \<subseteq> insert s (dom (presence (clients st)))"
    and "sqlite_documented e T \<Longrightarrow> db_grows T u st st'"
proof -
  show "clients st' = (if m' = m then clients st else set_room_in s m' (clients st))"
    using assms
    by (cases rule: handle_frame_cases)
      (simp_all add: handle_chat_facts(1) handle_join_facts(1) handle_history_request_facts(1)
        build_room_list_facts(1) handle_direct_facts(1))
  show "db_grows T u st st'" if "sqlite_documented e T"
    using assms
    by (cases rule: handle_frame_cases)
      (auto intro: that handle_chat_facts(3) handle_join_facts(3) handle_history_request_facts(3)
        build_room_list_facts(2) handle_direct_facts(3))
  show "targets effs \<subseteq> insert s (dom (presence (clients st)))" if ok: "registry_ok (clients st)"
    using assms
  proof (cases rule: handle_frame_cases)
    case chat
    have "set (recipients_in m s (clients st)) \<subseteq> dom (presence (clients st))"
      using registry.recipient_iff [OF ok] by auto
    with handle_chat_facts(2) [OF chat(4)] show ?thesis by blast
  next
    case history
    with handle_history_request_facts(2) [OF history(4)] show ?thesis by auto
  next
    case join
    from handle_join_facts(2) [OF join(3) ok] show ?thesis .
  next
    case direct
    from handle_direct_facts(2) [OF direct(4) ok] show ?thesis .
  qed (auto simp: effect_simps)
qed

lemma handle_history_request_closes:
  "handle_history_request e s p u m st = (st', effs) \<Longrightarrow> closes effs = {}"
  by (simp add: handle_history_request_def Let_def effect_simps split: option.splits if_splits)
    (auto simp: effect_simps replay_history_closes)

lemma handle_frame_closes:
  assumes "handle_frame e now s u m frame st = ((m', running), st', effs)"
  shows "closes effs = {}"
proof -
  have chat: "closes effs = {}" if "handle_chat e now s p u m st = (st', effs)" for p
    using that by (auto simp: handle_chat_def Let_def effect_simps split: prod.splits if_splits)
  have join: "closes effs = {}" if "handle_join e s p u m st = (m', st', effs)" for p
    using that
    by (cases rule: handle_join_cases) (auto simp: effect_simps replay_history_closes)
  have direct: "closes effs = {}" if "handle_direct e now s p u st = (st', effs)" for p
    using that by (cases rule: handle_direct_cases) (simp_all add: effect_simps)
  note hist = handle_history_request_closes [of e s _ u m st st' effs]
  show ?thesis
  proof (cases "decode_message frame")
    case None
    with assms show ?thesis by (auto simp: handle_frame_def effect_simps)
  next
    case (Some tp)
    obtain t p where "tp = (t, p)" by (cases tp)
    with Some assms chat hist join direct show ?thesis
      by (cases t) (auto simp: handle_frame_def handle_users_def effect_simps split: prod.splits)
  qed
qed

section \<open>Authentication\<close>

text \<open>The ways through \<^const>\<open>handle_auth\<close>: a request that reached the database, or one that did not.\<close>

lemma handle_auth_cases:
  assumes "handle_auth e rnd now s input st = (result, st', effs)"
  obtains (lost) "input = None" "result = Disconnected" "st' = st" "effs = []"
  | (rejected) reply where "result = Retry" "st' = st" "effs = [send_msg s AuthFail reply]"
  | (registration) frame payload i u p err db where "input = Some frame"
      "decode_message frame = Some (Register, payload)" "find_char payload (CHR 0x0A) = Some i"
      "u = trim (substr payload 0 i)" "p = substr_from payload (i + 1)"
      "valid_username u" "6 \<le> length p"
      "register_user e rnd now u p (sdb st) = (err, db)" "st' = st\<lparr>sdb := db\<rparr>"
      "(result, effs) = (case err of
         Some m \<Rightarrow> (Retry, [send_msg s AuthFail (''Registration failed: '' @ m)])
       | None \<Rightarrow> (Success u, [send_system s (''Account '' @ quoted u @ '' created. Welcome!''),
           ServerLog (''new account registered: '' @ u)]))"
  | (login) frame payload i u p err db where "input = Some frame"
      "decode_message frame = Some (Login, payload)" "find_char payload (CHR 0x0A) = Some i"
      "u = trim (substr payload 0 i)" "p = substr_from payload (i + 1)"
      "authenticate_user e u p (sdb st) = (err, db)" "st' = st\<lparr>sdb := db\<rparr>"
      "(result, effs) = (case err of
         Some m \<Rightarrow> (Retry, [send_msg s AuthFail (''Login failed: '' @ m)])
       | None \<Rightarrow> (Success u, [ServerLog (u @ '' logged in.'')]))"
proof (cases "\<exists>frame t payload i. input = Some frame \<and> decode_message frame = Some (t, payload) \<and>
    (t = Login \<or> t = Register) \<and> find_char payload (CHR 0x0A) = Some i")
  case False
  with assms show ?thesis
    by (auto simp: handle_auth_def intro: lost rejected split: option.splits if_splits)
next
  case True
  then obtain frame t payload i where f: "input = Some frame" "decode_message frame = Some (t, payload)"
    "t = Login \<or> t = Register" "find_char payload (CHR 0x0A) = Some i" by blast
  let ?u = "trim (substr payload 0 i)" and ?p = "substr_from payload (i + 1)"
  from f(3) show ?thesis
  proof
    assume t: "t = Login"
    obtain err db where a: "authenticate_user e ?u ?p (sdb st) = (err, db)" by fastforce
    with assms f t have "st' = st\<lparr>sdb := db\<rparr>"
      "(result, effs) = (case err of Some m \<Rightarrow> (Retry, [send_msg s AuthFail (''Login failed: '' @ m)])
        | None \<Rightarrow> (Success ?u, [ServerLog (?u @ '' logged in.'')]))"
      by (auto simp: handle_auth_def Let_def split: option.splits)
    with f t a show ?thesis by (intro login) auto
  next
    assume t: "t = Register"
    obtain err db where r: "register_user e rnd now ?u ?p (sdb st) = (err, db)" by fastforce
    show ?thesis
    proof (cases "valid_username ?u \<and> 6 \<le> length ?p")
      case True
      with assms f t r have "st' = st\<lparr>sdb := db\<rparr>"
        "(result, effs) = (case err of
           Some m \<Rightarrow> (Retry, [send_msg s AuthFail (''Registration failed: '' @ m)])
         | None \<Rightarrow> (Success ?u, [send_system s (''Account '' @ quoted ?u @ '' created. Welcome!''),
             ServerLog (''new account registered: '' @ ?u)]))"
        by (auto simp: handle_auth_def Let_def split: option.splits)
      with f t r True show ?thesis by (intro registration) auto
    next
      case False
      with assms f t show ?thesis
        by (auto simp: handle_auth_def Let_def intro: rejected split: if_splits)
    qed
  qed
qed

lemma handle_auth_facts:
  assumes "handle_auth e rnd now s input st = (result, st', effs)"
  shows "clients st' = clients st" and "targets effs \<subseteq> {s}"
    and "result = Disconnected \<longleftrightarrow> input = None" and "closes effs = {}"
proof -
  have "clients st' = clients st \<and> targets effs \<subseteq> {s} \<and> closes effs = {}"
    using assms
  proof (cases rule: handle_auth_cases)
    case (registration frame payload i u p err db)
    then show ?thesis by (cases err) (simp_all add: effect_simps)
  next
    case (login frame payload i u p err db)
    then show ?thesis by (cases err) (simp_all add: effect_simps)
  qed (simp_all add: effect_simps)
  then show "clients st' = clients st" "targets effs \<subseteq> {s}" "closes effs = {}" by auto
  show "result = Disconnected \<longleftrightarrow> input = None"
    using assms
  proof (cases rule: handle_auth_cases)
    case (rejected reply)
    with assms show ?thesis by (cases input) (simp_all add: handle_auth_def)
  next
    case (registration frame payload i u p err db)
    then show ?thesis by (cases err) simp_all
  next
    case (login frame payload i u p err db)
    then show ?thesis by (cases err) simp_all
  qed simp
qed

lemma handle_auth_db:
  assumes "handle_auth e rnd now s input st = (result, st', effs)" and doc: "sqlite_documented e T"
  shows "message_rows T (sdb st') = message_rows T (sdb st)"
    and "accounts T (sdb st) \<subseteq>\<^sub>m accounts T (sdb st')"
    and "result = Success v \<Longrightarrow> c_str v \<in> dom (accounts T (sdb st'))"
proof -
  have "message_rows T (sdb st') = message_rows T (sdb st) \<and>
    accounts T (sdb st) \<subseteq>\<^sub>m accounts T (sdb st') \<and>
    (result = Success v \<longrightarrow> c_str v \<in> dom (accounts T (sdb st')))"
    using assms(1)
  proof (cases rule: handle_auth_cases)
    case (registration frame payload i u p err db)
    note L = store.register_law [OF doc registration(8)] store.register_keeps [OF doc registration(8)]
    from registration(9,10) L show ?thesis by (cases err) auto
  next
    case (login frame payload i u p err db)
    note L = store.authenticate_law [OF doc login(6)]
    from login(7,8) L show ?thesis by (cases err) auto
  qed simp_all
  then show "message_rows T (sdb st') = message_rows T (sdb st)"
    "accounts T (sdb st) \<subseteq>\<^sub>m accounts T (sdb st')"
    "result = Success v \<Longrightarrow> c_str v \<in> dom (accounts T (sdb st'))" by auto
qed

end
