(* ===== verification/Server_System.thy ===== *)
theory Server_System
  imports Server_Facts
begin

text \<open>
  The running server: the shared state, and for every open connection the place its thread
  \<^verbatim>\<open>handle_client\<close> has reached. A step lets one thread perform one handler; the threads take
  their steps in any order, so a reachable state is one some schedule leads to.
\<close>

section \<open>Steps\<close>

text \<open>The value of \<^verbatim>\<open>room\<close> is the thread's own copy; the table of clients holds another one.\<close>

datatype conn =
    Authenticating
  | Entering string
  | InRoom string string
  | Leaving string string

record 'd sys =
  srv :: "'d server"
  conns :: "SOCKET \<rightharpoonup> conn"

definition sys_init :: "'d ChatDatabase \<Rightarrow> 'd sys" where
  "sys_init db = \<lparr>srv = \<lparr>clients = [], sdb = db\<rparr>, conns = Map.empty\<rparr>"

inductive sys_step :: "'d sqlite \<Rightarrow> 'd sys \<Rightarrow> SOCKET \<times> effect list \<Rightarrow> 'd sys \<Rightarrow> bool" for e where
  accept: "conns \<sigma> s = None \<Longrightarrow> s \<noteq> INVALID_SOCKET \<Longrightarrow>
    sys_step e \<sigma> (s, []) (\<sigma>\<lparr>conns := (conns \<sigma>)(s \<mapsto> Authenticating)\<rparr>)"
| auth_success: "conns \<sigma> s = Some Authenticating \<Longrightarrow>
    handle_auth e rnd now s input (srv \<sigma>) = (Success u, st, effs) \<Longrightarrow>
    sys_step e \<sigma> (s, effs) \<lparr>srv = st, conns = (conns \<sigma>)(s \<mapsto> Entering u)\<rparr>"
| auth_retry: "conns \<sigma> s = Some Authenticating \<Longrightarrow>
    handle_auth e rnd now s input (srv \<sigma>) = (Retry, st, effs) \<Longrightarrow>
    sys_step e \<sigma> (s, effs) (\<sigma>\<lparr>srv := st\<rparr>)"
| auth_lost: "conns \<sigma> s = Some Authenticating \<Longrightarrow>
    handle_auth e rnd now s input (srv \<sigma>) = (Disconnected, st, effs) \<Longrightarrow>
    sys_step e \<sigma> (s, effs @ [CloseSocket s]) \<lparr>srv = st, conns = (conns \<sigma>)(s := None)\<rparr>"
| enter: "conns \<sigma> s = Some (Entering u) \<Longrightarrow>
    client_enter e s u (srv \<sigma>) = (m, st, effs) \<Longrightarrow>
    sys_step e \<sigma> (s, effs) \<lparr>srv = st, conns = (conns \<sigma>)(s \<mapsto> InRoom u m)\<rparr>"
| frame: "conns \<sigma> s = Some (InRoom u m) \<Longrightarrow>
    handle_frame e now s u m f (srv \<sigma>) = ((m', running), st, effs) \<Longrightarrow>
    sys_step e \<sigma> (s, effs)
      \<lparr>srv = st, conns = (conns \<sigma>)(s \<mapsto> (if running then InRoom u m' else Leaving u m'))\<rparr>"
| lost: "conns \<sigma> s = Some (InRoom u m) \<Longrightarrow>
    sys_step e \<sigma> (s, []) (\<sigma>\<lparr>conns := (conns \<sigma>)(s \<mapsto> Leaving u m)\<rparr>)"
| leave: "conns \<sigma> s = Some (Leaving u m) \<Longrightarrow>
    client_leave s u m (srv \<sigma>) = (st, effs) \<Longrightarrow>
    sys_step e \<sigma> (s, effs) \<lparr>srv = st, conns = (conns \<sigma>)(s := None)\<rparr>"

inductive_cases sys_stepE: "sys_step e \<sigma> (s, effs) \<sigma>'"

lemma sys_step_cases [consumes 1, case_names accept auth_success auth_retry auth_lost enter frame lost leave]:
  assumes "sys_step e \<sigma> (s, effs) \<sigma>'"
  obtains "conns \<sigma> s = None" "s \<noteq> INVALID_SOCKET" "effs = []"
      "\<sigma>' = \<sigma>\<lparr>conns := (conns \<sigma>)(s \<mapsto> Authenticating)\<rparr>"
  | rnd now input u st where "conns \<sigma> s = Some Authenticating"
      "handle_auth e rnd now s input (srv \<sigma>) = (Success u, st, effs)"
      "\<sigma>' = \<lparr>srv = st, conns = (conns \<sigma>)(s \<mapsto> Entering u)\<rparr>"
  | rnd now input st where "conns \<sigma> s = Some Authenticating"
      "handle_auth e rnd now s input (srv \<sigma>) = (Retry, st, effs)" "\<sigma>' = \<sigma>\<lparr>srv := st\<rparr>"
  | rnd now input st auth where "conns \<sigma> s = Some Authenticating"
      "handle_auth e rnd now s input (srv \<sigma>) = (Disconnected, st, auth)"
      "effs = auth @ [CloseSocket s]" "\<sigma>' = \<lparr>srv = st, conns = (conns \<sigma>)(s := None)\<rparr>"
  | u m st where "conns \<sigma> s = Some (Entering u)" "client_enter e s u (srv \<sigma>) = (m, st, effs)"
      "\<sigma>' = \<lparr>srv = st, conns = (conns \<sigma>)(s \<mapsto> InRoom u m)\<rparr>"
  | u m now f m' running st where "conns \<sigma> s = Some (InRoom u m)"
      "handle_frame e now s u m f (srv \<sigma>) = ((m', running), st, effs)"
      "\<sigma>' = \<lparr>srv = st, conns = (conns \<sigma>)(s \<mapsto> (if running then InRoom u m' else Leaving u m'))\<rparr>"
  | u m where "conns \<sigma> s = Some (InRoom u m)" "effs = []"
      "\<sigma>' = \<sigma>\<lparr>conns := (conns \<sigma>)(s \<mapsto> Leaving u m)\<rparr>"
  | u m st where "conns \<sigma> s = Some (Leaving u m)" "client_leave s u m (srv \<sigma>) = (st, effs)"
      "\<sigma>' = \<lparr>srv = st, conns = (conns \<sigma>)(s := None)\<rparr>"
  using assms by (elim sys_stepE) blast+

inductive reachable :: "'d sqlite \<Rightarrow> 'd sys \<Rightarrow> 'd sys \<Rightarrow> bool" for e \<sigma>\<^sub>0 where
  start: "reachable e \<sigma>\<^sub>0 \<sigma>\<^sub>0"
| step: "reachable e \<sigma>\<^sub>0 \<sigma> \<Longrightarrow> sys_step e \<sigma> label \<sigma>' \<Longrightarrow> reachable e \<sigma>\<^sub>0 \<sigma>'"

section \<open>The invariant\<close>

text \<open>The user and room of a thread that is between entering and leaving.\<close>

fun session_of :: "conn option \<Rightarrow> (string \<times> string) option" where
  "session_of (Some (InRoom u m)) = Some (u, m)"
| "session_of (Some (Leaving u m)) = Some (u, m)"
| "session_of _ = None"

fun user_of :: "conn option \<Rightarrow> string option" where
  "user_of (Some (Entering u)) = Some u"
| "user_of (Some (InRoom u m)) = Some u"
| "user_of (Some (Leaving u m)) = Some u"
| "user_of _ = None"

definition sys_ok :: "('d \<Rightarrow> tables) \<Rightarrow> 'd sys \<Rightarrow> bool" where
  "sys_ok T \<sigma> \<longleftrightarrow> registry_ok (clients (srv \<sigma>)) \<and>
     presence (clients (srv \<sigma>)) = (\<lambda>s. session_of (conns \<sigma> s)) \<and>
     conns \<sigma> INVALID_SOCKET = None \<and>
     (\<forall>s u. user_of (conns \<sigma> s) = Some u \<longrightarrow> c_str u \<in> dom (accounts T (sdb (srv \<sigma>))))"

lemma sys_ok_init: "sys_ok T (sys_init db)"
  by (simp add: sys_ok_def sys_init_def registry_ok_def)

lemma client_enter_facts:
  assumes "client_enter e s u st = (m, st', effs)"
  shows "m = kDefaultRoom" and "clients st' = add_in s u kDefaultRoom (clients st)"
    and "targets effs = insert s (set (recipients_in kDefaultRoom s (clients st')))"
    and "sqlite_documented e T \<Longrightarrow> db_grows T u st st'"
    and "closes effs = {}"
proof -
  obtain replay where r: "replay_history e s kDefaultRoom kHistoryLimit (add_client s u kDefaultRoom st) = (st', replay)"
    and m: "m = kDefaultRoom"
    and effs: "effs = [send_msg s AuthOk (u @ ''\<newline>'' @ kDefaultRoom),
       send_system s (''Welcome, '' @ u @ ''! You are in room '' @ quoted kDefaultRoom @ ''.''),
       send_system s ''Commands: /join <room> | /history [N] | /rooms | /msg <user> <text> | /who [room] | /dmhistory <user> [N] | /help | /quit''] @
      replay @ [ServerLog (u @ '' connected (room: '' @ kDefaultRoom @ '').'')] @
      broadcast_to_room kDefaultRoom (encode_message System (u @ '' joined '' @ kDefaultRoom)) s st'"
    using assms unfolding client_enter_def Let_def by (auto split: prod.splits)
  note R = replay_history_facts [OF r]
  show "m = kDefaultRoom" by (fact m)
  show "clients st' = add_in s u kDefaultRoom (clients st)" using R(1) by (simp add: server_tables)
  show "targets effs = insert s (set (recipients_in kDefaultRoom s (clients st')))"
    using R(2) effs by (simp add: effect_simps)
  show "db_grows T u st st'" if "sqlite_documented e T" using R(3) [OF that] by simp
  show "closes effs = {}" using replay_history_closes [OF r] by (simp add: effs effect_simps)
qed

lemma sdb_registry [simp]:
  "sdb (set_room s m st) = sdb st" "sdb (add_client s u m st) = sdb st" "sdb (remove_client s st) = sdb st"
  by (simp_all add: set_room_def add_client_def remove_client_def)

lemma replay_history_rows:
  "sqlite_documented e T \<Longrightarrow> replay_history e s m n st = (st', effs) \<Longrightarrow> message_rows T (sdb st') = message_rows T (sdb st)"
  by (auto simp: replay_history_def dest: get_recent_law split: prod.splits if_splits)

lemma client_enter_rows:
  "sqlite_documented e T \<Longrightarrow> client_enter e s u st = (m, st', effs) \<Longrightarrow> message_rows T (sdb st') = message_rows T (sdb st)"
  by (auto simp: client_enter_def Let_def dest!: replay_history_rows split: prod.splits)

lemma client_leave_facts:
  assumes "client_leave s u m st = (st', effs)"
  shows "clients st' = remove_in s (clients st)" and "sdb st' = sdb st"
    and "targets effs = set (recipients_in m INVALID_SOCKET (clients st'))"
    and "closes effs = {s}"
  using assms
  by (auto simp: client_leave_def Let_def effect_simps server_tables remove_client_def remove_in_def)

lemma sys_ok_user:
  "sys_ok T \<sigma> \<Longrightarrow> user_of (conns \<sigma> s) = Some u \<Longrightarrow> c_str u \<in> dom (accounts T (sdb (srv \<sigma>)))"
  by (simp add: sys_ok_def)

text \<open>The part about the accounts, for a step of thread \<open>s\<close> that keeps its user and drops no account.\<close>

lemma users_kept:
  assumes "sys_ok T \<sigma>" and "dom (accounts T (sdb (srv \<sigma>))) \<subseteq> dom (accounts T db)"
    and "\<And>v. user_of c = Some v \<Longrightarrow> c_str v \<in> dom (accounts T db)"
    and "user_of (((conns \<sigma>)(s := c)) s') = Some v"
  shows "c_str v \<in> dom (accounts T db)"
  using assms sys_ok_user [OF assms(1), of s' v] by (cases "s' = s") auto

lemma sys_okI:
  assumes "sys_ok T \<sigma>" and "registry_ok (clients st)"
    and "presence (clients st) = (\<lambda>s'. session_of (((conns \<sigma>)(s := c)) s'))"
    and "s \<noteq> INVALID_SOCKET \<or> c = None"
    and "dom (accounts T (sdb (srv \<sigma>))) \<subseteq> dom (accounts T (sdb st))"
    and "\<And>v. user_of c = Some v \<Longrightarrow> c_str v \<in> dom (accounts T (sdb st))"
  shows "sys_ok T \<lparr>srv = st, conns = (conns \<sigma>)(s := c)\<rparr>"
  using assms(2,3,4) users_kept [OF assms(1,5,6)] assms(1) by (auto simp: sys_ok_def)

lemma sys_ok_step:
  assumes "sys_step e \<sigma> (s, effs) \<sigma>'" and ok: "sys_ok T \<sigma>" and doc: "sqlite_documented e T"
  shows "sys_ok T \<sigma>'"
proof -
  have reg: "registry_ok (clients (srv \<sigma>))"
    and pres: "presence (clients (srv \<sigma>)) = (\<lambda>s. session_of (conns \<sigma> s))"
    and inv: "conns \<sigma> INVALID_SOCKET = None" using ok by (simp_all add: sys_ok_def)
  from assms(1) show ?thesis
  proof (cases rule: sys_step_cases)
    case accept
    with ok show ?thesis by (auto simp: sys_ok_def fun_eq_iff)
  next
    case (auth_success rnd now input u st)
    note A = handle_auth_facts(1) [OF auth_success(2)]
      map_le_implies_dom_le [OF handle_auth_db(2) [OF auth_success(2) doc]]
      handle_auth_db(3) [OF auth_success(2) doc refl]
    from auth_success(1) A reg pres inv show ?thesis
      unfolding auth_success(3) by (intro sys_okI [OF ok]) (auto simp: fun_eq_iff)
  next
    case (auth_retry rnd now input st)
    note A = handle_auth_facts(1) [OF auth_retry(2)]
      map_le_implies_dom_le [OF handle_auth_db(2) [OF auth_retry(2) doc]]
    have \<sigma>': "\<sigma>' = \<lparr>srv = st, conns = (conns \<sigma>)(s := Some Authenticating)\<rparr>"
      using auth_retry(1,3) by (auto simp: fun_eq_iff)
    from auth_retry(1) A reg pres inv show ?thesis
      unfolding \<sigma>' by (intro sys_okI [OF ok]) (auto simp: fun_eq_iff)
  next
    case (auth_lost rnd now input st auth)
    note A = handle_auth_facts(1) [OF auth_lost(2)]
      map_le_implies_dom_le [OF handle_auth_db(2) [OF auth_lost(2) doc]]
    from auth_lost(1) A reg pres inv show ?thesis
      unfolding auth_lost(4) by (intro sys_okI [OF ok]) (auto simp: fun_eq_iff)
  next
    case (enter u m st)
    note E = client_enter_facts [OF enter(2)]
    from E(4) [OF doc] have "accounts T (sdb st) = accounts T (sdb (srv \<sigma>))" by (simp add: db_grows_def)
    moreover have "presence (clients (srv \<sigma>)) s = None" "s \<noteq> INVALID_SOCKET"
      using pres inv enter(1) by auto
    ultimately show ?thesis
      using E(1,2) registry.add_law [OF reg, of s u kDefaultRoom] pres
        sys_ok_user [OF ok, of s u] enter(1)
      unfolding enter(3) by (intro sys_okI [OF ok]) (auto simp: fun_eq_iff)
  next
    case (frame u m now f m' running st)
    note F = handle_frame_facts [OF frame(2)]
    from F(3) [OF doc] have "accounts T (sdb st) = accounts T (sdb (srv \<sigma>))" by (simp add: db_grows_def)
    moreover have "registry_ok (clients st) \<and> presence (clients st) = (presence (clients (srv \<sigma>)))(s \<mapsto> (u, m'))"
      using reg pres frame(1) F(1) registry.move_law [OF reg, of s m'] by (auto simp: fun_eq_iff)
    ultimately show ?thesis
      using pres inv sys_ok_user [OF ok, of s u] frame(1)
      unfolding frame(3) by (intro sys_okI [OF ok]) (auto simp: fun_eq_iff split: if_splits)
  next
    case (lost u m)
    with ok show ?thesis
      using sys_ok_user [OF ok, of s u] by (auto simp: sys_ok_def fun_eq_iff)
  next
    case (leave u m st)
    note L = client_leave_facts [OF leave(2)]
    from leave(1) L(1,2) reg pres registry.remove_law [OF reg, of s] show ?thesis
      unfolding leave(3) by (intro sys_okI [OF ok]) (auto simp: fun_eq_iff)
  qed
qed

lemma sys_ok_reachable:
  assumes "reachable e \<sigma>\<^sub>0 \<sigma>" and "sys_ok T \<sigma>\<^sub>0" and "sqlite_documented e T"
  shows "sys_ok T \<sigma>"
  using assms
proof (induction rule: reachable.induct)
  case (step \<sigma> label \<sigma>')
  then show ?case by (cases label) (auto intro: sys_ok_step)
qed

section \<open>What a step writes, and to whom\<close>

lemma step_targets:
  assumes "sys_step e \<sigma> (s, effs) \<sigma>'" and ok: "sys_ok T \<sigma>"
  shows "targets effs \<subseteq> insert s {s'. session_of (conns \<sigma> s') \<noteq> None}"
proof -
  have reg: "registry_ok (clients (srv \<sigma>))"
    and pres: "\<And>s'. session_of (conns \<sigma> s') = presence (clients (srv \<sigma>)) s'"
    using ok by (simp_all add: sys_ok_def)
  from assms(1) show ?thesis
  proof (cases rule: sys_step_cases)
    case (auth_success rnd now input u st)
    with handle_auth_facts(2) [OF auth_success(2)] show ?thesis by auto
  next
    case (auth_retry rnd now input st)
    with handle_auth_facts(2) [OF auth_retry(2)] show ?thesis by auto
  next
    case (auth_lost rnd now input st auth)
    with handle_auth_facts(2) [OF auth_lost(2)] show ?thesis by (auto simp: effect_simps)
  next
    case (enter u m st)
    have free: "presence (clients (srv \<sigma>)) s = None" "s \<noteq> INVALID_SOCKET"
      using enter(1) ok by (auto simp: sys_ok_def)
    then have "set (recipients_in kDefaultRoom s (clients st)) = set (recipients_in kDefaultRoom s (clients (srv \<sigma>)))"
      using client_enter_facts(2) [OF enter(2)] registry.recipients_add [OF reg free] by simp
    with client_enter_facts(3) [OF enter(2)] registry.recipient_iff [OF reg] show ?thesis
      by (auto simp: pres)
  next
    case (frame u m now f m' running st)
    with handle_frame_facts(2) [OF frame(2) reg] show ?thesis by (auto simp: pres)
  next
    case (leave u m st)
    with client_leave_facts(1,3) [OF leave(2)] registry.recipients_remove [OF reg]
      registry.recipient_iff [OF reg] show ?thesis by (auto simp: pres)
  qed (simp_all add: effect_simps)
qed

lemma step_closes:
  assumes "sys_step e \<sigma> (s, effs) \<sigma>'"
  shows "closes effs = (if conns \<sigma> s \<noteq> None \<and> conns \<sigma>' s = None then {s} else {})"
  using assms
proof (cases rule: sys_step_cases)
  case (auth_success rnd now input u st)
  with handle_auth_facts(4) [OF auth_success(2)] show ?thesis by simp
next
  case (auth_retry rnd now input st)
  with handle_auth_facts(4) [OF auth_retry(2)] show ?thesis by simp
next
  case (auth_lost rnd now input st auth)
  with handle_auth_facts(4) [OF auth_lost(2)] show ?thesis by (simp add: effect_simps)
next
  case (enter u m st)
  with client_enter_facts(5) [OF enter(2)] show ?thesis by simp
next
  case (frame u m now f m' running st)
  with handle_frame_closes [OF frame(2)] show ?thesis by simp
next
  case (leave u m st)
  with client_leave_facts(4) [OF leave(2)] show ?thesis by simp
qed (simp_all add: effect_simps)

lemma step_others:
  "sys_step e \<sigma> (s, effs) \<sigma>' \<Longrightarrow> s' \<noteq> s \<Longrightarrow> conns \<sigma>' s' = conns \<sigma> s'"
  by (cases rule: sys_step_cases) auto

text \<open>The database of the running server only grows, and only by messages of registered users.\<close>

lemma step_db:
  assumes "sys_step e \<sigma> (s, effs) \<sigma>'" and doc: "sqlite_documented e T"
  shows "accounts T (sdb (srv \<sigma>)) \<subseteq>\<^sub>m accounts T (sdb (srv \<sigma>'))"
    and "\<exists>new. message_rows T (sdb (srv \<sigma>')) = message_rows T (sdb (srv \<sigma>)) @ new \<and>
      m_user ` set new \<subseteq> {c_str u |u. user_of (conns \<sigma> s) = Some u}"
proof -
  have "accounts T (sdb (srv \<sigma>)) \<subseteq>\<^sub>m accounts T (sdb (srv \<sigma>')) \<and>
    (\<exists>new. message_rows T (sdb (srv \<sigma>')) = message_rows T (sdb (srv \<sigma>)) @ new \<and>
      m_user ` set new \<subseteq> {c_str u |u. user_of (conns \<sigma> s) = Some u})"
    using assms(1)
  proof (cases rule: sys_step_cases)
    case (auth_success rnd now input u st)
    with handle_auth_db(1,2) [OF auth_success(2) doc] show ?thesis by simp
  next
    case (auth_retry rnd now input st)
    with handle_auth_db(1,2) [OF auth_retry(2) doc] show ?thesis by simp
  next
    case (auth_lost rnd now input st auth)
    with handle_auth_db(1,2) [OF auth_lost(2) doc] show ?thesis by simp
  next
    case (enter u m st)
    with client_enter_facts(4) [OF enter(2) doc] show ?thesis by (auto simp: db_grows_def)
  next
    case (frame u m now f m' running st)
    with handle_frame_facts(3) [OF frame(2) doc] show ?thesis by (auto simp: db_grows_def)
  next
    case (leave u m st)
    with client_leave_facts(2) [OF leave(2)] show ?thesis by simp
  qed simp_all
  then show "accounts T (sdb (srv \<sigma>)) \<subseteq>\<^sub>m accounts T (sdb (srv \<sigma>'))"
    "\<exists>new. message_rows T (sdb (srv \<sigma>')) = message_rows T (sdb (srv \<sigma>)) @ new \<and>
      m_user ` set new \<subseteq> {c_str u |u. user_of (conns \<sigma> s) = Some u}" by blast+
qed

lemma reachable_db:
  assumes "reachable e (sys_init db) \<sigma>" and doc: "sqlite_documented e T"
  shows "accounts T db \<subseteq>\<^sub>m accounts T (sdb (srv \<sigma>)) \<and>
    (\<exists>new. message_rows T (sdb (srv \<sigma>)) = message_rows T db @ new \<and>
       m_user ` set new \<subseteq> dom (accounts T (sdb (srv \<sigma>))))"
  using assms(1)
proof (induction rule: reachable.induct)
  case start
  then show ?case by (simp add: sys_init_def)
next
  case (step \<sigma> label \<sigma>')
  obtain s effs where l: "label = (s, effs)" by (cases label)
  note D = step_db [OF step(2) [unfolded l] doc]
  let ?A = "\<lambda>\<sigma>. accounts T (sdb (srv \<sigma>))" and ?R = "\<lambda>\<sigma>. message_rows T (sdb (srv \<sigma>))"
  have mono: "dom (?A \<sigma>) \<subseteq> dom (?A \<sigma>')" by (rule map_le_implies_dom_le [OF D(1)])
  have ok: "sys_ok T \<sigma>" using sys_ok_reachable [OF step(1) sys_ok_init doc] .
  obtain new where new: "?R \<sigma> = message_rows T db @ new" "m_user ` set new \<subseteq> dom (?A \<sigma>)"
    using step(3) by blast
  obtain more where more: "?R \<sigma>' = ?R \<sigma> @ more"
    "m_user ` set more \<subseteq> {c_str u |u. user_of (conns \<sigma> s) = Some u}" using D(2) by blast
  have "m_user ` set more \<subseteq> dom (?A \<sigma>)"
  proof
    fix x assume "x \<in> m_user ` set more"
    with more(2) obtain u where "user_of (conns \<sigma> s) = Some u" "x = c_str u" by (auto dest!: subsetD)
    with sys_ok_user [OF ok] show "x \<in> dom (?A \<sigma>)" by simp
  qed
  then have "m_user ` set (new @ more) \<subseteq> dom (?A \<sigma>')"
    using new(2) mono by (simp only: set_append image_Un Un_subset_iff) (meson subset_trans)
  moreover have "?R \<sigma>' = message_rows T db @ (new @ more)" using new(1) more(1) by simp
  moreover have "accounts T db \<subseteq>\<^sub>m ?A \<sigma>'" using step(3) D(1) map_le_trans by blast
  ultimately show ?case by blast
qed

end
