(* ===== verification/Server_Properties.thy ===== *)
theory Server_Properties
  imports Server_System
begin

text \<open>
  What the server guarantees to its clients: the properties of the running server and of the
  single handlers, each with a run on which it is applied, and the places where the code does
  less than it means to.
\<close>

section \<open>A run\<close>

text \<open>
  On the engine \<^const>\<open>table_engine\<close>: connection 5 registers \<^verbatim>\<open>alice\<close> and enters, then connection 6
  registers \<^verbatim>\<open>bob\<close> and enters.
\<close>

definition demo_db :: "tables ChatDatabase" where
  "demo_db = \<lparr>cd_path = ''chat.db'', cd_db = Some empty_tables\<rparr>"

definition register_frame :: "string \<Rightarrow> string" where
  "register_frame u = encode_message Register (u @ ''\<newline>secret1'')"

lemma register_user_table_engine:
  "cd_db db = Some d \<Longrightarrow> \<not> name_taken (c_str u) d \<Longrightarrow>
     register_user table_engine rnd now u p db =
       (None, db\<lparr>cd_db := Some (insert_user_row (c_str u) (c_str (hash_password (generate_salt rnd) p)) now d)\<rparr>)"
  by (simp add: register_user_def table_engine_def first_step_rc_def sqlite_codes Let_def)

lemma handle_auth_register:
  assumes "valid_username u" and "cd_db (sdb st) = Some d" and "\<not> name_taken u d"
  shows "handle_auth table_engine rnd now s (Some (register_frame u)) st =
    (Success u, st\<lparr>sdb := (sdb st)\<lparr>cd_db := Some (insert_user_row u
        (c_str (hash_password (generate_salt rnd) ''secret1'')) now d)\<rparr>\<rparr>,
     [send_system s (''Account '' @ quoted u @ '' created. Welcome!''),
      ServerLog (''new account registered: '' @ u)])"
proof -
  have nl: "CHR 0x0A \<notin> set u"
    using assms(1) valid_username_no_special by auto
  then have f: "find_char (u @ ''\<newline>secret1'') (CHR 0x0A) = Some (length u)"
    using find_char_first [OF nl, of "''secret1''"] by simp
  have p: "substr (u @ ''\<newline>secret1'') 0 (length u) = u"
    "substr_from (u @ ''\<newline>secret1'') (length u + 1) = ''secret1''"
    by (simp_all add: substr_def substr_from_def)
  have d: "decode_message (register_frame u) = Some (Register, u @ ''\<newline>secret1'')"
    unfolding register_frame_def by (rule decode_message_encode) (simp add: msg_types_def)
  show ?thesis
    using assms register_user_table_engine [of "sdb st" d u rnd now "''secret1''"]
    by (simp add: handle_auth_def d f p [simplified] Let_def valid_username_trim valid_username_c_str)
qed

lemma client_enter_runs:
  "\<exists>st' effs. client_enter e s u st = (kDefaultRoom, st', effs) \<and>
     clients st' = add_in s u kDefaultRoom (clients st)"
proof -
  obtain m st' effs where "client_enter e s u st = (m, st', effs)" by (cases "client_enter e s u st")
  with client_enter_facts(1,2) [OF this] show ?thesis by blast
qed

text \<open>The state of the run: \<open>alice\<close> and \<open>bob\<close> are in the default room.\<close>

lemma demo_run:
  "\<exists>\<sigma>. reachable table_engine (sys_init demo_db) \<sigma> \<and> conns \<sigma> 5 = Some (InRoom ''alice'' kDefaultRoom) \<and>
     conns \<sigma> 6 = Some (InRoom ''bob'' kDefaultRoom) \<and> message_rows (\<lambda>d. d) (sdb (srv \<sigma>)) = []"
proof -
  have v: "valid_username ''alice''" "valid_username ''bob''" by code_simp+
  define rnd where "rnd = (\<lambda>_::nat. 0 :: u32)"
  let ?R = "reachable table_engine (sys_init demo_db)"
  define h where "h = c_str (hash_password (generate_salt rnd) ''secret1'')"
  define \<sigma>1 where "\<sigma>1 = (sys_init demo_db)\<lparr>conns := [5 \<mapsto> Authenticating]\<rparr>"
  have "?R \<sigma>1"
    using reachable.step [OF reachable.start sys_step.accept [of "sys_init demo_db" 5]]
    by (simp add: \<sigma>1_def sys_init_def INVALID_SOCKET_def)
  moreover define \<sigma>2 where "\<sigma>2 = \<sigma>1\<lparr>conns := [5 \<mapsto> Authenticating, 6 \<mapsto> Authenticating]\<rparr>"
  ultimately have "?R \<sigma>2"
    using reachable.step [OF _ sys_step.accept [of \<sigma>1 6]]
    by (simp add: \<sigma>1_def \<sigma>2_def INVALID_SOCKET_def)
  moreover have A: "handle_auth table_engine rnd 0 5 (Some (register_frame ''alice'')) (srv \<sigma>2) =
      (Success ''alice'', (srv \<sigma>2)\<lparr>sdb := (sdb (srv \<sigma>2))\<lparr>cd_db := Some (insert_user_row ''alice'' h 0 empty_tables)\<rparr>\<rparr>,
       [send_system 5 (''Account '' @ quoted ''alice'' @ '' created. Welcome!''),
        ServerLog (''new account registered: '' @ ''alice'')])"
    unfolding h_def by (rule handle_auth_register [OF v(1)])
      (simp_all add: \<sigma>2_def \<sigma>1_def sys_init_def demo_db_def name_taken_def empty_tables_def)
  moreover define \<sigma>3 where "\<sigma>3 = \<lparr>srv = (srv \<sigma>2)\<lparr>sdb := (sdb (srv \<sigma>2))\<lparr>cd_db := Some (insert_user_row ''alice'' h 0 empty_tables)\<rparr>\<rparr>,
      conns = (conns \<sigma>2)(5 \<mapsto> Entering ''alice'')\<rparr>"
  ultimately have "?R \<sigma>3"
    using reachable.step [OF _ sys_step.auth_success [OF _ A]] by (simp add: \<sigma>2_def)
  moreover have B: "handle_auth table_engine rnd 0 6 (Some (register_frame ''bob'')) (srv \<sigma>3) =
      (Success ''bob'', (srv \<sigma>3)\<lparr>sdb := (sdb (srv \<sigma>3))\<lparr>cd_db :=
         Some (insert_user_row ''bob'' h 0 (insert_user_row ''alice'' h 0 empty_tables))\<rparr>\<rparr>,
       [send_system 6 (''Account '' @ quoted ''bob'' @ '' created. Welcome!''),
        ServerLog (''new account registered: '' @ ''bob'')])"
    unfolding h_def by (rule handle_auth_register [OF v(2)])
      (simp_all add: h_def \<sigma>3_def name_taken_def empty_tables_def insert_user_row_def)
  moreover define \<sigma>4 where "\<sigma>4 = \<lparr>srv = (srv \<sigma>3)\<lparr>sdb := (sdb (srv \<sigma>3))\<lparr>cd_db :=
         Some (insert_user_row ''bob'' h 0 (insert_user_row ''alice'' h 0 empty_tables))\<rparr>\<rparr>,
      conns = (conns \<sigma>3)(6 \<mapsto> Entering ''bob'')\<rparr>"
  ultimately have R4: "?R \<sigma>4"
    using reachable.step [OF _ sys_step.auth_success [OF _ B]] by (simp add: \<sigma>3_def \<sigma>2_def)
  obtain st5 effs5 where E: "client_enter table_engine 5 ''alice'' (srv \<sigma>4) = (kDefaultRoom, st5, effs5)"
    using client_enter_runs by blast
  define \<sigma>5 where "\<sigma>5 = \<lparr>srv = st5, conns = (conns \<sigma>4)(5 \<mapsto> InRoom ''alice'' kDefaultRoom)\<rparr>"
  have R5: "?R \<sigma>5"
    using reachable.step [OF R4 sys_step.enter [OF _ E]] by (simp add: \<sigma>4_def \<sigma>3_def \<sigma>5_def)
  obtain st6 effs6 where F: "client_enter table_engine 6 ''bob'' (srv \<sigma>5) = (kDefaultRoom, st6, effs6)"
    using client_enter_runs by blast
  define \<sigma>6 where "\<sigma>6 = \<lparr>srv = st6, conns = (conns \<sigma>5)(6 \<mapsto> InRoom ''bob'' kDefaultRoom)\<rparr>"
  have "?R \<sigma>6"
    using reachable.step [OF R5 sys_step.enter [OF _ F]] by (simp add: \<sigma>5_def \<sigma>4_def \<sigma>6_def)
  moreover have "message_rows (\<lambda>d. d) (sdb st6) = []"
    using client_enter_rows [OF table_engine_documented E] client_enter_rows [OF table_engine_documented F]
    by (simp add: \<sigma>5_def \<sigma>4_def \<sigma>3_def message_rows_def contents_def insert_user_row_def empty_tables_def)
  ultimately show ?thesis by (intro exI [of _ \<sigma>6]) (simp add: \<sigma>6_def \<sigma>5_def)
qed

section \<open>The running server\<close>

text \<open>C1 (registry). In every state the server can reach, whatever the order of its threads, the table of
  connected clients has each socket once and never the invalid one; it lists exactly the clients
  that have entered and not left, each with the user it logged in as and with the room its own
  thread believes it is in; and every such user has an account (under the C-string part of the
  name, which is what the database sees).\<close>

theorem server_registry_invariant:
  assumes "sqlite_documented e T" and "reachable e (sys_init db) \<sigma>"
  shows "distinct (map cl_socket (clients (srv \<sigma>))) \<and> INVALID_SOCKET \<notin> cl_socket ` set (clients (srv \<sigma>)) \<and>
    (\<forall>s. presence (clients (srv \<sigma>)) s = session_of (conns \<sigma> s)) \<and>
    (\<forall>s u. user_of (conns \<sigma> s) = Some u \<longrightarrow> accounts T (sdb (srv \<sigma>)) (c_str u) \<noteq> None)"
  using sys_ok_reachable [OF assms(2) sys_ok_init assms(1)]
  by (auto simp: sys_ok_def registry_ok_def fun_eq_iff)

lemma server_registry_invariant_witness:
  "\<exists>\<sigma> :: tables sys. conns \<sigma> 5 = Some (InRoom ''alice'' kDefaultRoom) \<and>
     presence (clients (srv \<sigma>)) 5 = Some (''alice'', kDefaultRoom) \<and>
     accounts (\<lambda>d. d) (sdb (srv \<sigma>)) ''alice'' \<noteq> None"
proof -
  obtain \<sigma> where r: "reachable table_engine (sys_init demo_db) \<sigma>"
    and c: "conns \<sigma> 5 = Some (InRoom ''alice'' kDefaultRoom)" using demo_run by blast
  have a: "c_str ''alice'' = ''alice''" by code_simp
  note I = server_registry_invariant [OF table_engine_documented r]
  from I c have "presence (clients (srv \<sigma>)) 5 = Some (''alice'', kDefaultRoom)" by simp
  moreover from I have "user_of (conns \<sigma> 5) = Some ''alice'' \<longrightarrow>
      accounts (\<lambda>d. d) (sdb (srv \<sigma>)) (c_str ''alice'') \<noteq> None" by blast
  ultimately show ?thesis using c a by (intro exI [of _ \<sigma>]) simp
qed


text \<open>A socket is closed by the step that ends its connection, and by no other: not twice, and not
  by the thread of another client.\<close>

theorem socket_closed_once:
  assumes "sys_step e \<sigma> (s, effs) \<sigma>'"
  shows "CloseSocket s' \<in> set effs \<longleftrightarrow> conns \<sigma> s' \<noteq> None \<and> conns \<sigma>' s' = None"
proof -
  have "CloseSocket s' \<in> set effs \<longleftrightarrow> s' \<in> closes effs" by (simp add: closes_def)
  with step_closes [OF assms] step_others [OF assms, of s'] show ?thesis
    by (cases "s' = s") auto
qed

text \<open>While the server runs, no account is lost or changed, no stored message is lost or changed,
  and every message stored since the start bears the name of a registered user.\<close>

theorem accounts_and_log_grow:
  assumes "sqlite_documented e T" and "reachable e (sys_init db) \<sigma>"
  shows "accounts T db \<subseteq>\<^sub>m accounts T (sdb (srv \<sigma>)) \<and>
    (\<exists>new. message_rows T (sdb (srv \<sigma>)) = message_rows T db @ new \<and>
       m_user ` set new \<subseteq> dom (accounts T (sdb (srv \<sigma>))))"
  by (rule reachable_db [OF assms(2,1)])


lemma socket_closed_once_witness:
  "\<exists>(\<sigma> :: tables sys) \<sigma>' effs. sys_step table_engine \<sigma> (5, effs) \<sigma>' \<and>
     (CloseSocket 5 \<in> set effs \<longleftrightarrow> conns \<sigma> 5 \<noteq> None \<and> conns \<sigma>' 5 = None)"
proof -
  have "sys_step table_engine (sys_init demo_db) (5, []) ((sys_init demo_db)\<lparr>conns := (conns (sys_init demo_db))(5 \<mapsto> Authenticating)\<rparr>)"
    by (rule sys_step.accept) (simp_all add: sys_init_def INVALID_SOCKET_def)
  from socket_closed_once [OF this] this show ?thesis by blast
qed

lemma accounts_and_log_grow_witness:
  "\<exists>\<sigma> :: tables sys. conns \<sigma> 5 = Some (InRoom ''alice'' kDefaultRoom) \<and>
     accounts (\<lambda>d. d) demo_db \<subseteq>\<^sub>m accounts (\<lambda>d. d) (sdb (srv \<sigma>))"
proof -
  obtain \<sigma> where r: "reachable table_engine (sys_init demo_db) \<sigma>"
    and c: "conns \<sigma> 5 = Some (InRoom ''alice'' kDefaultRoom)" using demo_run by blast
  from accounts_and_log_grow [OF table_engine_documented r] c show ?thesis by blast
qed

section \<open>Delivery of a chat message\<close>

lemma count_list_distinct: "distinct xs \<Longrightarrow> count_list xs x = (if x \<in> set xs then 1 else 0)"
  by (induction xs) auto

lemma count_list_frames:
  "count_list (map (\<lambda>sock. SendFrame sock f) socks) (SendFrame s f) = count_list socks s"
  by (induction socks) auto

lemma encode_message_type: "encode_message t p = encode_message t' p' \<Longrightarrow> msg_code t = msg_code t'"
  by (auto simp: encode_message_def dest: arg_cong [where f = u8_of_char])

text \<open>C6 (delivery). A chat message of a client in room \<open>m\<close> is sent exactly once to every other client that is in
  room \<open>m\<close> at that moment, and to nobody else, the sender included.\<close>

theorem chat_delivered_once:
  assumes "sqlite_documented e T" and "reachable e (sys_init db) \<sigma>"
    and "conns \<sigma> s = Some (InRoom u m)" and "trim p \<noteq> []"
    and "handle_frame e now s u m (encode_message Chat p) (srv \<sigma>) = ((m', running), st, effs)"
  shows "count_list effs (SendFrame s' (encode_message ChatMsg (encode_chat_message
      \<lparr>msg_room = m, msg_username = u, msg_content = trim p, msg_timestamp = now\<rparr>))) =
    (if s' \<noteq> s \<and> (\<exists>v. session_of (conns \<sigma> s') = Some (v, m)) then 1 else 0)"
proof -
  let ?msg = "\<lparr>msg_room = m, msg_username = u, msg_content = trim p, msg_timestamp = now\<rparr>"
  let ?f = "encode_message ChatMsg (encode_chat_message ?msg)"
  have ok: "sys_ok T \<sigma>" using sys_ok_reachable [OF assms(2) sys_ok_init assms(1)] .
  obtain stored db' where a: "add_message e ?msg (sdb (srv \<sigma>)) = (stored, db')" by fastforce
  have "decode_message (encode_message Chat p) = Some (Chat, p)"
    by (rule decode_message_encode) (simp add: msg_types_def)
  with assms(4,5) a have effs: "effs =
      (if \<not> stored then [send_system s ''Failed to store the message in history.''] else []) @
      map (\<lambda>sock. SendFrame sock ?f) (recipients_in m s (clients (srv \<sigma>)))"
    by (auto simp: handle_frame_def handle_chat_def Let_def broadcast_to_room_eq split: if_splits)
  have "send_system s t \<noteq> SendFrame s' ?f" for t
    using encode_message_type [of System t ChatMsg] by (auto simp: send_system_def send_msg_def)
  then have "count_list effs (SendFrame s' ?f) = count_list (recipients_in m s (clients (srv \<sigma>))) s'"
    using effs by (simp add: count_list_frames)
  also have "\<dots> = (if s' \<in> set (recipients_in m s (clients (srv \<sigma>))) then 1 else 0)"
    using ok registry.recipients_law [of "clients (srv \<sigma>)" m s] by (intro count_list_distinct) (simp add: sys_ok_def)
  finally show ?thesis
    using ok registry.recipient_iff [of "clients (srv \<sigma>)" s' m s] by (simp add: sys_ok_def)
qed

lemma chat_delivered_once_witness:
  "\<exists>(\<sigma> :: tables sys) m' running st effs.
     handle_frame table_engine 0 5 ''alice'' kDefaultRoom (encode_message Chat ''hi'') (srv \<sigma>) = ((m', running), st, effs) \<and>
     count_list effs (SendFrame 6 (encode_message ChatMsg (encode_chat_message
       \<lparr>msg_room = kDefaultRoom, msg_username = ''alice'', msg_content = ''hi'', msg_timestamp = 0\<rparr>))) = 1"
proof -
  obtain \<sigma> where r: "reachable table_engine (sys_init demo_db) \<sigma>"
    and c: "conns \<sigma> 5 = Some (InRoom ''alice'' kDefaultRoom)" "conns \<sigma> 6 = Some (InRoom ''bob'' kDefaultRoom)"
    using demo_run by blast
  obtain m' running st effs where h:
    "handle_frame table_engine 0 5 ''alice'' kDefaultRoom (encode_message Chat ''hi'') (srv \<sigma>) = ((m', running), st, effs)"
    by (metis prod.collapse)
  have t: "trim ''hi'' = ''hi''" by code_simp
  then have "trim ''hi'' \<noteq> []" by simp
  from chat_delivered_once [OF table_engine_documented r c(1) this h, of 6] c(2) t
  have "count_list effs (SendFrame 6 (encode_message ChatMsg (encode_chat_message
      \<lparr>msg_room = kDefaultRoom, msg_username = ''alice'', msg_content = ''hi'', msg_timestamp = 0\<rparr>))) = 1" by simp
  with h show ?thesis by blast
qed

section \<open>One connection from start to end\<close>

lemma client_loop_facts:
  assumes "client_loop e s u m running inputs st = (m', st', effs)"
    and "registry_ok (clients st)" and "presence (clients st) s = Some (u, m)"
  shows "registry_ok (clients st') \<and> presence (clients st') = (presence (clients st))(s \<mapsto> (u, m')) \<and> closes effs = {}"
  using assms
proof (induction inputs arbitrary: m running st m' st' effs)
  case Nil
  then show ?case by (auto simp: effect_simps fun_eq_iff)
next
  case (Cons input inputs)
  show ?case
  proof (cases running)
    case False
    with Cons.prems show ?thesis by (auto simp: effect_simps fun_eq_iff)
  next
    case True
    obtain m1 running1 st1 effs1 where h:
      "handle_frame e (in_now input) s u m (in_frame input) st = ((m1, running1), st1, effs1)"
      by (metis prod.collapse)
    obtain m2 st2 effs2 where l: "client_loop e s u m1 running1 inputs st1 = (m2, st2, effs2)"
      using prod_cases3 by blast
    have r: "m' = m2" "st' = st2" "effs = effs1 @ effs2"
      using Cons.prems(1) True h l by auto
    have "registry_ok (clients st1) \<and> presence (clients st1) = (presence (clients st))(s \<mapsto> (u, m1))"
      using handle_frame_facts(1) [OF h] registry.move_law [OF Cons.prems(2), of s m1] Cons.prems(2,3)
      by (auto simp: fun_eq_iff)
    with Cons.IH [OF l] handle_frame_closes [OF h] r show ?thesis by (auto simp: effect_simps fun_eq_iff)
  qed
qed

text \<open>C25 (cleanup). Whatever frames a client sends, from its connection to its end, when its thread is done the table
  of connected clients is as it was before, and the thread has closed the client's socket and no
  other.\<close>

theorem handle_client_cleans_up:
  assumes "handle_client e s inputs st = (st', effs)"
    and "registry_ok (clients st)" and "presence (clients st) s = None" and "s \<noteq> INVALID_SOCKET"
  shows "registry_ok (clients st') \<and> presence (clients st') = presence (clients st) \<and>
    (\<forall>s'. CloseSocket s' \<in> set effs \<longleftrightarrow> s' = s)"
proof -
  have "registry_ok (clients st') \<and> presence (clients st') = presence (clients st) \<and> closes effs = {s}"
    using assms
  proof (induction e s inputs st arbitrary: st' effs rule: handle_client.induct)
    case (1 e s st)
    then show ?case by (auto simp: handle_auth_def effect_simps)
  next
    case (2 e s input inputs st)
    obtain result st1 effs1 where a:
      "handle_auth e (in_rnd input) (in_now input) s (Some (in_frame input)) st = (result, st1, effs1)"
      using prod_cases3 by blast
    note A = handle_auth_facts [OF a]
    show ?case
    proof (cases result)
      case (Success u)
      obtain m st2 effs2 where en: "client_enter e s u st1 = (m, st2, effs2)" using prod_cases3 by blast
      obtain m3 st3 effs3 where lo: "client_loop e s u m True inputs st2 = (m3, st3, effs3)" using prod_cases3 by blast
      obtain st4 effs4 where le: "client_leave s u m3 st3 = (st4, effs4)" by fastforce
      have r: "st' = st4" "effs = effs1 @ effs2 @ effs3 @ effs4"
        using "2.prems"(1) Success a en lo le by auto
      have "presence (clients st1) s = None" "registry_ok (clients st1)" using A(1) "2.prems"(2,3) by simp_all
      then have E: "registry_ok (clients st2)" "presence (clients st2) = (presence (clients st1))(s \<mapsto> (u, m))"
        using registry.add_law "2.prems"(4) client_enter_facts(1,2) [OF en] by simp_all
      have L: "registry_ok (clients st3)" "presence (clients st3) = (presence (clients st2))(s \<mapsto> (u, m3))"
        "closes effs3 = {}"
        using client_loop_facts [OF lo E(1)] E(2) by simp_all
      have "registry_ok (clients st4) \<and> presence (clients st4) = (presence (clients st3))(s := None)"
        using client_leave_facts(1) [OF le] registry.remove_law [OF L(1), of s] by simp
      with r A(1,4) E L client_enter_facts(5) [OF en] client_leave_facts(4) [OF le] "2.prems"(3)
      show ?thesis by (auto simp: effect_simps fun_eq_iff)
    next
      case Disconnected
      with A(3) show ?thesis by simp
    next
      case Retry
      obtain st2 effs2 where n: "handle_client e s inputs st1 = (st2, effs2)" by fastforce
      with "2.prems"(1) Retry a have r: "st' = st2" "effs = effs1 @ effs2" by auto
      from "2.IH" [OF a [symmetric]] n Retry A(1) "2.prems"(2,3,4)
      have "registry_ok (clients st2) \<and> presence (clients st2) = presence (clients st) \<and> closes effs2 = {s}"
        by simp
      with r A(4) show ?thesis by (simp add: effect_simps)
    qed
  qed
  then show ?thesis by (auto simp: closes_def)
qed

lemma handle_client_cleans_up_witness:
  "\<exists>st' effs. handle_client table_engine 5 [\<lparr>in_frame = register_frame ''alice'', in_now = 0, in_rnd = (\<lambda>_. 0)\<rparr>]
       \<lparr>clients = [], sdb = demo_db\<rparr> = (st', effs) \<and>
     presence (clients st') = Map.empty \<and> (\<forall>s'. CloseSocket s' \<in> set effs \<longleftrightarrow> s' = 5)"
proof -
  let ?st = "\<lparr>clients = [], sdb = demo_db\<rparr>"
  obtain st' effs where h: "handle_client table_engine 5
      [\<lparr>in_frame = register_frame ''alice'', in_now = 0, in_rnd = (\<lambda>_. 0)\<rparr>] ?st = (st', effs)"
    by fastforce
  have "registry_ok (clients ?st)" "presence (clients ?st) 5 = None" "(5 :: int) \<noteq> INVALID_SOCKET"
    by (simp_all add: registry_ok_def INVALID_SOCKET_def)
  from handle_client_cleans_up [OF h this] h show ?thesis by simp
qed

end
