(* ===== verification/Server_Threads.thy ===== *)
theory Server_Threads
  imports Server_System
begin

text \<open>
  The threads of chat_server.cpp at the granularity of their locks. A handler is a program of
  atomic sections (each one critical section of \<^verbatim>\<open>clients_mutex\<close> or of the database's mutex) and
  of single effects; between any two of them every other thread may run. Run without
  interference, the programs are the handlers of \<open>Server_Handlers\<close>; interleaved, they keep the
  table of clients right, but a snapshot of recipients can outlive the connection it names.
\<close>

section \<open>Programs\<close>

text \<open>
  \<open>Finish c\<close> is the end of a handler with the place the thread goes to, None for its end.
  \<open>Atomic k g\<close> changes the shared state by \<open>g\<close> and goes on with \<open>k\<close> of the state it found.
\<close>

datatype 'd prog =
    Finish "conn option"
  | Emit effect "'d prog"
  | Atomic "'d server \<Rightarrow> 'd prog" "'d server \<Rightarrow> 'd server"

text \<open>The program of a thread that no other thread interrupts.\<close>

primrec run :: "'d prog \<Rightarrow> 'd server \<Rightarrow> conn option \<times> 'd server \<times> effect list" where
  "run (Finish c) = (\<lambda>st. (c, st, []))"
| "run (Emit eff p) = (\<lambda>st. case run p st of (c, st', effs) \<Rightarrow> (c, st', eff # effs))"
| "run (Atomic k g) = (\<lambda>st. run (k st) (g st))"

primrec emits :: "effect list \<Rightarrow> 'd prog \<Rightarrow> 'd prog" where
  "emits [] p = p"
| "emits (eff # effs) p = Emit eff (emits effs p)"

text \<open>A critical section that yields effects, which are carried out after it.\<close>

definition section_then :: "('d server \<Rightarrow> 'd server \<times> effect list) \<Rightarrow> 'd prog \<Rightarrow> 'd prog" where
  "section_then f p = Atomic (\<lambda>st. emits (snd (f st)) p) (\<lambda>st. fst (f st))"

definition broadcast_prog :: "string \<Rightarrow> string \<Rightarrow> SOCKET \<Rightarrow> 'd prog \<Rightarrow> 'd prog" where
  "broadcast_prog room frame exclude p =
     section_then (\<lambda>st. (st, broadcast_to_room room frame exclude st)) p"

definition replay_prog :: "'d sqlite \<Rightarrow> SOCKET \<Rightarrow> string \<Rightarrow> int \<Rightarrow> 'd prog \<Rightarrow> 'd prog" where
  "replay_prog e sock room limit p = section_then (replay_history e sock room limit) p"

section \<open>The handlers\<close>

text \<open>One attempt to log in touches the shared state once, in the database.\<close>

definition auth_prog :: "'d sqlite \<Rightarrow> (nat \<Rightarrow> u32) \<Rightarrow> i64 \<Rightarrow> SOCKET \<Rightarrow> string option \<Rightarrow> 'd prog" where
  "auth_prog e rnd now sock input =
     Atomic (\<lambda>st. case handle_auth e rnd now sock input st of
               (Success username, _, effs) \<Rightarrow> emits effs (Finish (Some (Entering username)))
             | (Retry, _, effs) \<Rightarrow> emits effs (Finish (Some Authenticating))
             | (Disconnected, _, effs) \<Rightarrow> emits effs (Emit (CloseSocket sock) (Finish None)))
       (\<lambda>st. fst (snd (handle_auth e rnd now sock input st)))"

definition enter_prog :: "'d sqlite \<Rightarrow> SOCKET \<Rightarrow> string \<Rightarrow> 'd prog" where
  "enter_prog e sock username =
     (let room = kDefaultRoom
      in section_then (\<lambda>st. (add_client sock username room st, []))
           (emits
              [send_msg sock AuthOk (username @ ''\<newline>'' @ room),
               send_system sock (''Welcome, '' @ username @ ''! You are in room '' @ quoted room @ ''.''),
               send_system sock ''Commands: /join <room> | /history [N] | /rooms | /msg <user> <text> | /who [room] | /dmhistory <user> [N] | /help | /quit'']
              (replay_prog e sock room kHistoryLimit
                 (Emit (ServerLog (username @ '' connected (room: '' @ room @ '').''))
                    (broadcast_prog room (encode_message System (username @ '' joined '' @ room)) sock
                       (Finish (Some (InRoom username room))))))))"

definition chat_prog :: "'d sqlite \<Rightarrow> i64 \<Rightarrow> SOCKET \<Rightarrow> string \<Rightarrow> string \<Rightarrow> string \<Rightarrow> 'd prog" where
  "chat_prog e now sock payload username room =
     (let content = trim payload
      in if content = [] then Finish (Some (InRoom username room))
         else
           (let message = \<lparr>msg_room = room, msg_username = username, msg_content = content, msg_timestamp = now\<rparr>
            in section_then
                 (\<lambda>st. case add_message e message (sdb st) of
                    (stored, db) \<Rightarrow> (st\<lparr>sdb := db\<rparr>,
                      if \<not> stored then [send_system sock ''Failed to store the message in history.''] else []))
                 (broadcast_prog room (encode_message ChatMsg (encode_chat_message message)) sock
                    (Finish (Some (InRoom username room))))))"

definition join_prog :: "'d sqlite \<Rightarrow> SOCKET \<Rightarrow> string \<Rightarrow> string \<Rightarrow> string \<Rightarrow> 'd prog" where
  "join_prog e sock raw_room username current_room =
     (let new_room = sanitize_room raw_room
      in if new_room = []
         then Emit (send_system sock ''Room name cannot be empty.'') (Finish (Some (InRoom username current_room)))
         else if new_room = current_room
         then Emit (send_system sock (''You are already in room '' @ quoted current_room @ ''.''))
                (Finish (Some (InRoom username current_room)))
         else
           broadcast_prog current_room (encode_message System (username @ '' left '' @ current_room)) sock
             (section_then (\<lambda>st. (set_room sock new_room st, []))
                (Emit (send_msg sock Joined new_room)
                   (broadcast_prog new_room (encode_message System (username @ '' joined '' @ new_room)) sock
                      (replay_prog e sock new_room kHistoryLimit (Finish (Some (InRoom username new_room))))))))"

text \<open>\<^verbatim>\<open>build_room_list\<close> counts the clients in one section and asks the database in the next.\<close>

definition rooms_prog :: "'d sqlite \<Rightarrow> SOCKET \<Rightarrow> 'd prog \<Rightarrow> 'd prog" where
  "rooms_prog e sock p =
     Atomic (\<lambda>st. let online = clients st in
        section_then (\<lambda>st. case build_room_list e (st\<lparr>clients := online\<rparr>) of
           (text, st') \<Rightarrow> (st\<lparr>sdb := sdb st'\<rparr>, [send_system sock text])) p) (\<lambda>st. st)"

definition direct_prog :: "'d sqlite \<Rightarrow> i64 \<Rightarrow> SOCKET \<Rightarrow> string \<Rightarrow> string \<Rightarrow> 'd prog \<Rightarrow> 'd prog" where
  "direct_prog e now sock payload username p =
     (case find_char payload (CHR 0x0A) of
        None \<Rightarrow> Emit (send_system sock ''Usage: /msg <user> <message>'') p
      | Some separator \<Rightarrow>
          (let target = trim (substr payload 0 separator);
               content = trim (substr_from payload (separator + 1))
           in if target = [] \<or> content = [] then Emit (send_system sock ''Usage: /msg <user> <message>'') p
              else
                Atomic (\<lambda>st. let target_socket = find_client_by_username target st in
                   if target_socket = INVALID_SOCKET
                   then Emit (send_system sock (''User '' @ quoted target @ '' not found or offline.'')) p
                   else
                     (let dm = \<lparr>dm_from = username, dm_to = target, dm_content = content, dm_timestamp = now\<rparr>;
                          frame = encode_message DirectMsg (encode_direct_message dm)
                      in section_then
                           (\<lambda>st. case add_message e
                                \<lparr>msg_room = dm_room_key username target, msg_username = username,
                                 msg_content = content, msg_timestamp = dm_timestamp dm\<rparr> (sdb st) of
                              (stored, db) \<Rightarrow> (st\<lparr>sdb := db\<rparr>,
                                if \<not> stored
                                then [send_system sock ''Failed to store the direct message in history.''] else []))
                           (emits [SendFrame target_socket frame, SendFrame sock frame] p)))
                  (\<lambda>st. st)))"

definition frame_prog :: "'d sqlite \<Rightarrow> i64 \<Rightarrow> SOCKET \<Rightarrow> string \<Rightarrow> string \<Rightarrow> string \<Rightarrow> 'd prog" where
  "frame_prog e now sock username room frame =
     (let next = Finish (Some (InRoom username room))
      in case decode_message frame of
           None \<Rightarrow> Emit (send_system sock ''Received a malformed message.'') next
         | Some (type, payload) \<Rightarrow>
             (case type of
                Chat \<Rightarrow> chat_prog e now sock payload username room
              | Join \<Rightarrow> join_prog e sock payload username room
              | HistoryReq \<Rightarrow> section_then (handle_history_request e sock payload username room) next
              | RoomsReq \<Rightarrow> rooms_prog e sock next
              | Direct \<Rightarrow> direct_prog e now sock payload username next
              | UsersReq \<Rightarrow> section_then (\<lambda>st. (st, handle_users sock payload room st)) next
              | Quit \<Rightarrow> Emit (send_system sock (''Goodbye, '' @ username @ ''!''))
                          (Finish (Some (Leaving username room)))
              | _ \<Rightarrow> Emit (send_system sock ''Unsupported message type.'') next))"

definition leave_prog :: "SOCKET \<Rightarrow> string \<Rightarrow> string \<Rightarrow> 'd prog" where
  "leave_prog sock username room =
     section_then (\<lambda>st. (remove_client sock st, []))
       (broadcast_prog room (encode_message System (username @ '' left '' @ room)) INVALID_SOCKET
          (emits [CloseSocket sock, ServerLog (username @ '' disconnected.'')] (Finish None)))"

section \<open>Undisturbed, the programs are the handlers\<close>

lemma run_emits [simp]:
  "run (emits effs p) st = (case run p st of (c, st', effs') \<Rightarrow> (c, st', effs @ effs'))"
  by (induction effs) (auto split: prod.splits)

lemma run_section_then [simp]:
  "run (section_then f p) st =
     (case f st of (st1, effs) \<Rightarrow> case run p st1 of (c, st', effs') \<Rightarrow> (c, st', effs @ effs'))"
  by (simp add: section_then_def split: prod.splits)

lemma run_broadcast [simp]:
  "run (broadcast_prog room frame ex p) st =
     (case run p st of (c, st', effs') \<Rightarrow> (c, st', broadcast_to_room room frame ex st @ effs'))"
  by (simp add: broadcast_prog_def)

lemma run_replay [simp]:
  "run (replay_prog e s room n p) st =
     (case replay_history e s room n st of (st1, effs) \<Rightarrow>
        case run p st1 of (c, st', effs') \<Rightarrow> (c, st', effs @ effs'))"
  by (simp add: replay_prog_def)

lemma run_chat:
  "run (chat_prog e now s p u m) st =
     (case handle_chat e now s p u m st of (st', effs) \<Rightarrow> (Some (InRoom u m), st', effs))"
  by (simp add: chat_prog_def handle_chat_def Let_def registry_simps split: prod.splits)

lemma run_join:
  "run (join_prog e s raw u m) st =
     (case handle_join e s raw u m st of (m', st', effs) \<Rightarrow> (Some (InRoom u m'), st', effs))"
  by (simp add: join_prog_def handle_join_def Let_def split: prod.splits)

lemma run_rooms:
  "run (rooms_prog e s (Finish c)) st =
     (case build_room_list e st of (text, st') \<Rightarrow> (c, st', [send_system s text]))"
  by (auto simp: rooms_prog_def build_room_list_def Let_def split: prod.splits)

lemma run_direct:
  "run (direct_prog e now s p u (Finish c)) st =
     (case handle_direct e now s p u st of (st', effs) \<Rightarrow> (c, st', effs))"
  by (simp add: direct_prog_def handle_direct_def Let_def split: prod.splits option.splits)

lemma run_frame:
  "run (frame_prog e now s u m f) st =
     (case handle_frame e now s u m f st of ((m', running), st', effs) \<Rightarrow>
        (Some (if running then InRoom u m' else Leaving u m'), st', effs))"
proof (cases "decode_message f")
  case None
  then show ?thesis by (simp add: frame_prog_def handle_frame_def)
next
  case (Some tp)
  obtain t p where "tp = (t, p)" by (cases tp)
  with Some show ?thesis
    by (cases t)
      (simp_all add: frame_prog_def handle_frame_def run_chat run_join run_rooms run_direct split: prod.splits)
qed

lemma run_auth:
  "run (auth_prog e rnd now s input) st =
     (case handle_auth e rnd now s input st of
        (Success u, st', effs) \<Rightarrow> (Some (Entering u), st', effs)
      | (Retry, st', effs) \<Rightarrow> (Some Authenticating, st', effs)
      | (Disconnected, st', effs) \<Rightarrow> (None, st', effs @ [CloseSocket s]))"
  by (simp add: auth_prog_def split: prod.splits AuthResult.splits)

lemma run_enter:
  "run (enter_prog e s u) st =
     (case client_enter e s u st of (m, st', effs) \<Rightarrow> (Some (InRoom u m), st', effs))"
  by (simp add: enter_prog_def client_enter_def Let_def split: prod.splits)

lemma run_leave:
  "run (leave_prog s u m) st = (case client_leave s u m st of (st', effs) \<Rightarrow> (None, st', effs))"
  by (simp add: leave_prog_def client_leave_def Let_def)

text \<open>Run without interference, the programs of atomic sections are the handlers: the same answer,
  the same shared state and the same effects in the same order, for every request and every state.\<close>

theorem programs_are_handlers:
  "run (auth_prog e rnd now s input) st =
     (case handle_auth e rnd now s input st of
        (Success u, st', effs) \<Rightarrow> (Some (Entering u), st', effs)
      | (Retry, st', effs) \<Rightarrow> (Some Authenticating, st', effs)
      | (Disconnected, st', effs) \<Rightarrow> (None, st', effs @ [CloseSocket s])) \<and>
   run (enter_prog e s u) st =
     (case client_enter e s u st of (m, st', effs) \<Rightarrow> (Some (InRoom u m), st', effs)) \<and>
   run (frame_prog e now s u m f) st =
     (case handle_frame e now s u m f st of ((m', running), st', effs) \<Rightarrow>
        (Some (if running then InRoom u m' else Leaving u m'), st', effs)) \<and>
   run (leave_prog s u m) st = (case client_leave s u m st of (st', effs) \<Rightarrow> (None, st', effs))"
  by (intro conjI run_auth run_enter run_frame run_leave)

end
