(* ===== verification/Server_Interleaving.thy ===== *)
theory Server_Interleaving
  imports Server_Threads Server_Properties
begin

text \<open>
  All threads of the server together: they interleave between any two atomic sections and any two
  effects, a connection stays open until its thread closes it, and \<^verbatim>\<open>accept\<close> hands out a
  descriptor no open connection has, which may be one that was closed before.
\<close>

section \<open>Steps\<close>

text \<open>A thread is at one of the places of \<^typ>\<open>conn\<close>, where it waits for input, or inside a handler.\<close>

datatype 'd place = At conn | Busy "'d prog"

record 'd thread =
  th_socket :: SOCKET
  th_open :: bool
  th_place :: "'d place"

record 'd fsys =
  fsrv :: "'d server"
  threads :: "int \<rightharpoonup> 'd thread"

text \<open>The handler a thread starts from its place; a lost connection only leads to the end of the loop.\<close>

inductive begins :: "'d sqlite \<Rightarrow> SOCKET \<Rightarrow> conn \<Rightarrow> 'd prog \<Rightarrow> bool" for e s where
  auth: "begins e s Authenticating (auth_prog e rnd now s input)"
| enter: "begins e s (Entering u) (enter_prog e s u)"
| frame: "begins e s (InRoom u m) (frame_prog e now s u m f)"
| lost: "begins e s (InRoom u m) (Finish (Some (Leaving u m)))"
| leave: "begins e s (Leaving u m) (leave_prog s u m)"

inductive_simps begins_simps [simp]:
  "begins e s Authenticating p"
  "begins e s (Entering u) p"
  "begins e s (InRoom u m) p"
  "begins e s (Leaving u m) p"

definition still_open :: "SOCKET \<Rightarrow> effect \<Rightarrow> bool" where
  "still_open s eff \<longleftrightarrow> eff \<noteq> CloseSocket s"

inductive fstep :: "'d sqlite \<Rightarrow> 'd fsys \<Rightarrow> (int \<times> effect) list \<Rightarrow> 'd fsys \<Rightarrow> bool" for e F where
  accept: "threads F t = None \<Longrightarrow> s \<noteq> INVALID_SOCKET \<Longrightarrow>
    (\<And>t' th. threads F t' = Some th \<Longrightarrow> th_open th \<Longrightarrow> th_socket th \<noteq> s) \<Longrightarrow>
    fstep e F [] (F\<lparr>threads := (threads F)(t \<mapsto>
      \<lparr>th_socket = s, th_open = True, th_place = At Authenticating\<rparr>)\<rparr>)"
| start: "threads F t = Some th \<Longrightarrow> th_place th = At c \<Longrightarrow> begins e (th_socket th) c p \<Longrightarrow>
    fstep e F [] (F\<lparr>threads := (threads F)(t \<mapsto> th\<lparr>th_place := Busy p\<rparr>)\<rparr>)"
| atomic: "threads F t = Some th \<Longrightarrow> th_place th = Busy (Atomic k g) \<Longrightarrow>
    fstep e F [] \<lparr>fsrv = g (fsrv F), threads = (threads F)(t \<mapsto> th\<lparr>th_place := Busy (k (fsrv F))\<rparr>)\<rparr>"
| emit: "threads F t = Some th \<Longrightarrow> th_place th = Busy (Emit eff p) \<Longrightarrow>
    fstep e F [(t, eff)] (F\<lparr>threads := (threads F)(t \<mapsto>
      th\<lparr>th_open := th_open th \<and> still_open (th_socket th) eff, th_place := Busy p\<rparr>)\<rparr>)"
| rest: "threads F t = Some th \<Longrightarrow> th_place th = Busy (Finish (Some c)) \<Longrightarrow>
    fstep e F [] (F\<lparr>threads := (threads F)(t \<mapsto> th\<lparr>th_place := At c\<rparr>)\<rparr>)"
| ended: "threads F t = Some th \<Longrightarrow> th_place th = Busy (Finish None) \<Longrightarrow>
    fstep e F [] (F\<lparr>threads := (threads F)(t := None)\<rparr>)"

text \<open>An execution, with the effects of its threads in the order they happen.\<close>

inductive ftrace :: "'d sqlite \<Rightarrow> 'd fsys \<Rightarrow> (int \<times> effect) list \<Rightarrow> 'd fsys \<Rightarrow> bool" for e F where
  here: "ftrace e F [] F"
| step: "ftrace e F es F' \<Longrightarrow> fstep e F' l F'' \<Longrightarrow> ftrace e F (es @ l) F''"

lemma ftrace_step: "fstep e F l F' \<Longrightarrow> ftrace e F l F'"
  using ftrace.step [OF ftrace.here] by fastforce

lemma ftrace_trans:
  assumes "ftrace e F' es' F''" and "ftrace e F es F'"
  shows "ftrace e F (es @ es') F''"
  using assms
proof (induction rule: ftrace.induct)
  case (step es1 F1 l F2)
  then show ?case using ftrace.step [of e F "es @ es1"] by simp
qed simp

definition fsys_init :: "'d ChatDatabase \<Rightarrow> 'd fsys" where
  "fsys_init db = \<lparr>fsrv = \<lparr>clients = [], sdb = db\<rparr>, threads = Map.empty\<rparr>"

section \<open>What every program keeps\<close>

text \<open>\<open>sections R p\<close>: every atomic section of \<open>p\<close> changes the shared state along \<open>R\<close>.\<close>

primrec sections :: "('d server \<Rightarrow> 'd server \<Rightarrow> bool) \<Rightarrow> 'd prog \<Rightarrow> bool" where
  "sections R (Finish c) = True"
| "sections R (Emit eff p) = sections R p"
| "sections R (Atomic k g) = (\<forall>st. R st (g st) \<and> sections R (k st))"

text \<open>
  \<open>tidy p s ent opn\<close>: the program \<open>p\<close> of the thread of socket \<open>s\<close>, whose entry in the table is
  \<open>ent\<close>, touches no entry but its own, closes no socket but its own, which by then is off the table,
  and ends with the entry its next place calls for.
\<close>

primrec tidy :: "'d prog \<Rightarrow> SOCKET \<Rightarrow> (string \<times> string) option \<Rightarrow> bool \<Rightarrow> bool" where
  "tidy (Finish c) = (\<lambda>s ent opn. opn = (c \<noteq> None) \<and> session_of c = ent)"
| "tidy (Emit eff p) = (\<lambda>s ent opn.
     case eff of CloseSocket s' \<Rightarrow> s' = s \<and> opn \<and> ent = None \<and> tidy p s None False
     | _ \<Rightarrow> tidy p s ent opn)"
| "tidy (Atomic k g) = (\<lambda>s ent opn. opn \<and>
     (\<forall>st. registry_ok (clients st) \<and> presence (clients st) s = ent \<longrightarrow>
        (\<exists>ent'. registry_ok (clients (g st)) \<and>
           presence (clients (g st)) = (presence (clients st))(s := ent') \<and> tidy (k st) s ent' True)))"

lemma tidy_simps [simp]:
  "tidy (Finish c) s ent opn \<longleftrightarrow> opn = (c \<noteq> None) \<and> session_of c = ent"
  "tidy (Emit (SendFrame s' f) p) s ent opn \<longleftrightarrow> tidy p s ent opn"
  "tidy (Emit (ServerLog t) p) s ent opn \<longleftrightarrow> tidy p s ent opn"
  "tidy (Emit (CloseSocket s') p) s ent opn \<longleftrightarrow> s' = s \<and> opn \<and> ent = None \<and> tidy p s None False"
  by simp_all

lemma tidy_atomic:
  "tidy (Atomic k g) s ent opn \<longleftrightarrow> opn \<and>
     (\<forall>st. registry_ok (clients st) \<and> presence (clients st) s = ent \<longrightarrow>
        (\<exists>ent'. registry_ok (clients (g st)) \<and>
           presence (clients (g st)) = (presence (clients st))(s := ent') \<and> tidy (k st) s ent' True))"
  by simp

declare tidy.simps [simp del]

lemma sections_emits [simp]: "sections R (emits effs p) = sections R p"
  by (induction effs) simp_all

lemma sections_section_then [simp]:
  "sections R (section_then f p) \<longleftrightarrow> (\<forall>st. R st (fst (f st))) \<and> sections R p"
  by (auto simp: section_then_def)

lemma tidy_emits [simp]: "closes effs = {} \<Longrightarrow> tidy (emits effs p) s ent opn = tidy p s ent opn"
proof (induction effs)
  case (Cons eff effs)
  then show ?case by (cases eff) (simp_all add: effect_simps)
qed simp

lemma tidy_message [simp]:
  "tidy (Emit (send_msg s' t q) p) s ent opn = tidy p s ent opn"
  "tidy (Emit (send_system s' q) p) s ent opn = tidy p s ent opn"
  by (simp_all add: send_system_def send_msg_def)

text \<open>A section that leaves the table alone.\<close>

lemma tidy_same:
  assumes "\<And>st. clients (g st) = clients st" and "\<And>st. tidy (k st) s ent True"
  shows "tidy (Atomic k g) s ent True"
  unfolding tidy_atomic using assms by (metis fun_upd_triv)

lemma tidy_keep:
  assumes "\<And>st. clients (fst (f st)) = clients st" and "\<And>st. closes (snd (f st)) = {}"
    and "tidy p s ent True"
  shows "tidy (section_then f p) s ent True"
  unfolding section_then_def using assms by (intro tidy_same) simp_all

lemma tidy_broadcast: "tidy p s ent True \<Longrightarrow> tidy (broadcast_prog room frame ex p) s ent True"
  unfolding broadcast_prog_def by (rule tidy_keep) (simp_all add: effect_simps)

lemma tidy_replay: "tidy p s ent True \<Longrightarrow> tidy (replay_prog e s room n p) s ent True"
  unfolding replay_prog_def
  by (rule tidy_keep) (metis prod.collapse replay_history_facts(1), metis prod.collapse replay_history_closes)

lemma tidy_set_room:
  "tidy p s (Some (u, m')) True \<Longrightarrow>
     tidy (section_then (\<lambda>st. (set_room s m' st, [])) p) s (Some (u, m)) True"
  unfolding section_then_def tidy_atomic
  by (auto simp: server_tables registry.move_law intro!: exI [of _ "Some (u, m')"])

lemma tidy_add:
  "s \<noteq> INVALID_SOCKET \<Longrightarrow> tidy p s (Some (u, m)) True \<Longrightarrow>
     tidy (section_then (\<lambda>st. (add_client s u m st, [])) p) s None True"
  unfolding section_then_def tidy_atomic
  by (auto simp: server_tables registry.add_law intro!: exI [of _ "Some (u, m)"])

lemma tidy_remove:
  "tidy p s None True \<Longrightarrow> tidy (section_then (\<lambda>st. (remove_client s st, [])) p) s ent True"
  unfolding section_then_def tidy_atomic
  by (auto simp: server_tables registry.remove_law intro!: exI [of _ None])

lemma tidy_enter: "s \<noteq> INVALID_SOCKET \<Longrightarrow> tidy (enter_prog e s u) s None True"
  unfolding enter_prog_def Let_def
  by (intro tidy_add) (simp_all add: effect_simps tidy_replay tidy_broadcast)

lemma tidy_leave: "tidy (leave_prog s u m) s (Some (u, m)) True"
  unfolding leave_prog_def by (intro tidy_remove tidy_broadcast) simp

lemma tidy_auth: "tidy (auth_prog e rnd now s input) s None True"
  unfolding auth_prog_def
proof (intro tidy_same)
  fix st :: "'a server"
  obtain r st' effs where h: "handle_auth e rnd now s input st = (r, st', effs)"
    by (cases "handle_auth e rnd now s input st")
  show "clients (fst (snd (handle_auth e rnd now s input st))) = clients st"
    using handle_auth_facts(1) [OF h] h by simp
  show "tidy (case handle_auth e rnd now s input st of
               (Success username, _, effs) \<Rightarrow> emits effs (Finish (Some (Entering username)))
             | (Retry, _, effs) \<Rightarrow> emits effs (Finish (Some Authenticating))
             | (Disconnected, _, effs) \<Rightarrow> emits effs (Emit (CloseSocket s) (Finish None))) s None True"
    using handle_auth_facts(4) [OF h] h by (cases r) simp_all
qed

lemma tidy_chat: "tidy (chat_prog e now s payload u m) s (Some (u, m)) True"
  unfolding chat_prog_def Let_def
  by (auto simp: effect_simps split: prod.splits if_splits intro!: tidy_keep tidy_broadcast)

lemma tidy_join: "tidy (join_prog e s raw u m) s (Some (u, m)) True"
  unfolding join_prog_def Let_def
  by (auto intro!: tidy_broadcast tidy_set_room tidy_replay)

lemma tidy_rooms: "tidy p s ent True \<Longrightarrow> tidy (rooms_prog e s p) s ent True"
  unfolding rooms_prog_def Let_def
  by (intro tidy_same tidy_keep) (auto simp: effect_simps split: prod.splits)

lemma tidy_direct: "tidy p s ent True \<Longrightarrow> tidy (direct_prog e now s payload u p) s ent True"
  unfolding direct_prog_def Let_def
  by (auto simp: effect_simps split: option.splits prod.splits if_splits intro!: tidy_same tidy_keep)

lemma tidy_frame: "tidy (frame_prog e now s u m f) s (Some (u, m)) True"
proof -
  let ?next = "Finish (Some (InRoom u m))"
  have hist: "tidy (section_then (handle_history_request e s q u m) ?next) s (Some (u, m)) True" for q
    by (rule tidy_keep) (metis prod.collapse handle_history_request_facts(1),
      metis prod.collapse handle_history_request_closes, simp)
  have users: "tidy (section_then (\<lambda>st. (st, handle_users s q m st)) ?next) s (Some (u, m)) True" for q
    by (rule tidy_keep) (simp_all add: handle_users_def effect_simps)
  show ?thesis
  proof (cases "decode_message f")
    case None
    then show ?thesis by (simp add: frame_prog_def)
  next
    case (Some tp)
    obtain t q where "tp = (t, q)" by (cases tp)
    with Some hist users show ?thesis
      by (cases t) (simp_all add: frame_prog_def tidy_chat tidy_join tidy_rooms tidy_direct)
  qed
qed

lemma begins_tidy: "begins e s c p \<Longrightarrow> s \<noteq> INVALID_SOCKET \<Longrightarrow> tidy p s (session_of (Some c)) True"
  by (cases c) (auto simp: tidy_auth tidy_enter tidy_frame tidy_leave)

section \<open>The invariant\<close>

definition entry_of :: "'d server \<Rightarrow> 'd thread \<Rightarrow> (string \<times> string) option" where
  "entry_of st th = (if th_open th then presence (clients st) (th_socket th) else None)"

definition thread_ok :: "'d server \<Rightarrow> 'd thread \<Rightarrow> bool" where
  "thread_ok st th \<longleftrightarrow> (th_open th \<longrightarrow> th_socket th \<noteq> INVALID_SOCKET) \<and>
     (case th_place th of
        At c \<Rightarrow> th_open th \<and> entry_of st th = session_of (Some c)
      | Busy p \<Rightarrow> tidy p (th_socket th) (entry_of st th) (th_open th))"

definition owns :: "'d fsys \<Rightarrow> SOCKET \<Rightarrow> int \<Rightarrow> bool" where
  "owns F s t \<longleftrightarrow> (\<exists>th. threads F t = Some th \<and> th_open th \<and> th_socket th = s)"

definition fsys_ok :: "'d fsys \<Rightarrow> bool" where
  "fsys_ok F \<longleftrightarrow> registry_ok (clients (fsrv F)) \<and>
     (\<forall>t th. threads F t = Some th \<longrightarrow> thread_ok (fsrv F) th) \<and>
     (\<forall>s t t'. owns F s t \<and> owns F s t' \<longrightarrow> t = t') \<and>
     (\<forall>s. presence (clients (fsrv F)) s \<noteq> None \<longrightarrow> (\<exists>t. owns F s t))"

lemma fsys_ok_init: "fsys_ok (fsys_init db)"
  by (simp add: fsys_ok_def fsys_init_def registry_ok_def owns_def)

lemma fsys_ok_thread: "fsys_ok F \<Longrightarrow> threads F t = Some th \<Longrightarrow> thread_ok (fsrv F) th"
  by (simp add: fsys_ok_def)

lemma fsys_ok_owner: "fsys_ok F \<Longrightarrow> owns F s t \<Longrightarrow> owns F s t' \<Longrightarrow> t = t'"
  by (simp add: fsys_ok_def)

lemma fsys_ok_listed: "fsys_ok F \<Longrightarrow> presence (clients (fsrv F)) s \<noteq> None \<Longrightarrow> \<exists>t. owns F s t"
  unfolding fsys_ok_def by blast

text \<open>One thread moves on, and with it at most the entry of its own open socket changes.\<close>

lemma fsys_ok_update:
  assumes ok: "fsys_ok F" and th: "threads F t = Some th"
    and st: "registry_ok (clients st)"
      "presence (clients st) = (presence (clients (fsrv F)))(th_socket th := ent)"
      "th_open th \<or> clients st = clients (fsrv F)"
    and th': "th_socket th' = th_socket th" "th_open th' \<longrightarrow> th_open th"
      "th_open th \<and> \<not> th_open th' \<longrightarrow> ent = None" "thread_ok st th'"
  shows "fsys_ok \<lparr>fsrv = st, threads = (threads F)(t \<mapsto> th')\<rparr>"
proof -
  let ?F = "\<lparr>fsrv = st, threads = (threads F)(t \<mapsto> th')\<rparr>"
  have owner: "owns ?F s t2 \<Longrightarrow> owns F s t2" for s t2
    using th th'(1,2) by (auto simp: owns_def split: if_splits)
  have other: "thread_ok st th2" if "threads F t2 = Some th2" "t2 \<noteq> t" for t2 th2
  proof -
    have "entry_of st th2 = entry_of (fsrv F) th2"
    proof (cases "th_open th2 \<and> th_socket th2 = th_socket th \<and> th_open th")
      case True
      then have "owns F (th_socket th) t2" "owns F (th_socket th) t" using th that by (auto simp: owns_def)
      with fsys_ok_owner [OF ok] that(2) show ?thesis by blast
    next
      case False
      then have "th_open th2 \<Longrightarrow>
          presence (clients st) (th_socket th2) = presence (clients (fsrv F)) (th_socket th2)"
        using st(2,3) by (cases "th_open th") (simp_all add: fun_upd_apply)
      then show ?thesis by (simp add: entry_of_def)
    qed
    with fsys_ok_thread [OF ok that(1)] show ?thesis unfolding thread_ok_def by (simp split: place.splits)
  qed
  have "\<exists>t2. owns ?F s t2" if "presence (clients st) s \<noteq> None" for s
  proof (cases "s = th_socket th \<and> th_open th")
    case True
    with that st(2) th'(3) have "th_open th'" by auto
    with True th'(1) have "owns ?F s t" by (simp add: owns_def)
    then show ?thesis ..
  next
    case False
    then have "presence (clients st) s = presence (clients (fsrv F)) s"
      using st(2,3) by (cases "th_open th") (simp_all add: fun_upd_apply)
    with that have "presence (clients (fsrv F)) s \<noteq> None" by simp
    then obtain t2 where t2: "owns F s t2" using fsys_ok_listed [OF ok] by blast
    with False th have "t2 \<noteq> t" by (auto simp: owns_def)
    with t2 have "owns ?F s t2" by (simp add: owns_def)
    then show ?thesis ..
  qed
  moreover have "t1 = t2" if "owns ?F s t1 \<and> owns ?F s t2" for s t1 t2
    using that owner fsys_ok_owner [OF ok] by blast
  moreover have "thread_ok st th2" if "threads ?F t2 = Some th2" for t2 th2
    using that other th'(4) by (auto split: if_splits)
  ultimately show ?thesis using st(1) unfolding fsys_ok_def
    by (intro conjI allI impI) (simp_all only: fsys.simps)
qed

text \<open>The same for a thread that leaves the shared state alone.\<close>

lemma fsys_ok_local:
  assumes "fsys_ok F" and "threads F t = Some th" and "th_socket th' = th_socket th"
    and "th_open th' \<longrightarrow> th_open th" and "th_open th \<and> \<not> th_open th' \<longrightarrow> entry_of (fsrv F) th = None"
    and "thread_ok (fsrv F) th'"
  shows "fsys_ok (F\<lparr>threads := (threads F)(t \<mapsto> th')\<rparr>)"
  using fsys_ok_update [OF assms(1,2), of "fsrv F" "presence (clients (fsrv F)) (th_socket th)" th'] assms
  by (cases F) (auto simp: fsys_ok_def entry_of_def)

lemma fsys_ok_step:
  assumes "fstep e F l F'" and ok: "fsys_ok F"
  shows "fsys_ok F'"
  using assms(1)
proof cases
  case (accept t s)
  let ?th = "\<lparr>th_socket = s, th_open = True, th_place = At Authenticating\<rparr>"
  let ?F = "F\<lparr>threads := (threads F)(t \<mapsto> ?th)\<rparr>"
  have free: "\<not> owns F s t2" for t2 using accept(5) by (auto simp: owns_def)
  have owner: "owns ?F s2 t2 \<longleftrightarrow> owns F s2 t2 \<or> s2 = s \<and> t2 = t" for s2 t2
    using accept(3) by (auto simp: owns_def)
  have "presence (clients (fsrv F)) s = None"
    using fsys_ok_listed [OF ok] free by blast
  then have new: "thread_ok (fsrv F) ?th" using accept(4) by (simp add: thread_ok_def entry_of_def)
  show ?thesis unfolding accept(2) fsys_ok_def
  proof (intro conjI allI impI)
    show "registry_ok (clients (fsrv ?F))" using ok by (simp add: fsys_ok_def)
    show "thread_ok (fsrv ?F) th" if "threads ?F t2 = Some th" for t2 th
      using that new fsys_ok_thread [OF ok, of t2 th] by (auto split: if_splits)
    show "t1 = t2" if "owns ?F s2 t1 \<and> owns ?F s2 t2" for s2 t1 t2
      using that free fsys_ok_owner [OF ok] unfolding owner by blast
    show "\<exists>t2. owns ?F s2 t2" if "presence (clients (fsrv ?F)) s2 \<noteq> None" for s2
      using that fsys_ok_listed [OF ok, of s2] unfolding owner by auto
  qed
next
  case (start t th c p)
  note T = fsys_ok_thread [OF ok start(3)]
  with start(4) have o: "th_open th" "th_socket th \<noteq> INVALID_SOCKET" "entry_of (fsrv F) th = session_of (Some c)"
    by (simp_all add: thread_ok_def)
  with begins_tidy [OF start(5)] have "thread_ok (fsrv F) (th\<lparr>th_place := Busy p\<rparr>)"
    by (simp add: thread_ok_def entry_of_def)
  with o show ?thesis unfolding start(2) by (intro fsys_ok_local [OF ok start(3)]) simp_all
next
  case (atomic t th k g)
  note T = fsys_ok_thread [OF ok atomic(3)]
  from T atomic(4) have o: "th_open th"
    and "tidy (Atomic k g) (th_socket th) (presence (clients (fsrv F)) (th_socket th)) True"
    by (simp_all add: thread_ok_def entry_of_def tidy_atomic)
  moreover have "registry_ok (clients (fsrv F))" using ok by (simp add: fsys_ok_def)
  ultimately obtain ent where ent: "registry_ok (clients (g (fsrv F)))"
    "presence (clients (g (fsrv F))) = (presence (clients (fsrv F)))(th_socket th := ent)"
    "tidy (k (fsrv F)) (th_socket th) ent True" unfolding tidy_atomic by blast
  with T o show ?thesis unfolding atomic(2)
    by (intro fsys_ok_update [OF ok atomic(3)]) (simp_all add: thread_ok_def entry_of_def)
next
  case (emit t th eff p)
  let ?th = "th\<lparr>th_open := th_open th \<and> still_open (th_socket th) eff, th_place := Busy p\<rparr>"
  note T = fsys_ok_thread [OF ok emit(3)]
  then have "thread_ok (fsrv F) ?th \<and> (th_open th \<and> \<not> th_open ?th \<longrightarrow> entry_of (fsrv F) th = None)"
    using emit(4)
    by (cases eff; cases "th_open th") (simp_all add: thread_ok_def entry_of_def still_open_def)
  then show ?thesis unfolding emit(2) by (intro fsys_ok_local [OF ok emit(3)]) simp_all
next
  case (rest t th c)
  from fsys_ok_thread [OF ok rest(3)] rest(4) have "thread_ok (fsrv F) (th\<lparr>th_place := At c\<rparr>)"
    by (simp add: thread_ok_def entry_of_def)
  then show ?thesis unfolding rest(2) by (intro fsys_ok_local [OF ok rest(3)]) simp_all
next
  case (ended t th)
  from fsys_ok_thread [OF ok ended(3)] ended(4) have closed: "\<not> th_open th"
    by (simp add: thread_ok_def)
  with ended(3) have owner: "owns (F\<lparr>threads := (threads F)(t := None)\<rparr>) = owns F"
    by (auto simp: owns_def fun_eq_iff)
  from ok show ?thesis unfolding ended(2) fsys_ok_def owner by auto
qed

lemma fsys_ok_trace: "ftrace e F es F' \<Longrightarrow> fsys_ok F \<Longrightarrow> fsys_ok F'"
  by (induction rule: ftrace.induct) (auto intro: fsys_ok_step)

end
