(* ===== verification/Interleaving_Runs.thy ===== *)
theory Interleaving_Runs
  imports Server_Interleaving
begin

text \<open>
  Executions of the interleaving threads: what they do to the database, what a thread does that no
  other interrupts, and that the whole-handler steps of \<open>Server_System\<close> are among them.
\<close>

section \<open>The database under interleaving\<close>

definition db_extends :: "('d \<Rightarrow> tables) \<Rightarrow> 'd server \<Rightarrow> 'd server \<Rightarrow> bool" where
  "db_extends T st st' \<longleftrightarrow> accounts T (sdb st) \<subseteq>\<^sub>m accounts T (sdb st') \<and>
     (\<exists>new. message_rows T (sdb st') = message_rows T (sdb st) @ new)"

lemma db_extends_refl [simp, intro!]: "db_extends T st st"
  by (simp add: db_extends_def)

lemma db_extends_trans: "db_extends T st st' \<Longrightarrow> db_extends T st' st'' \<Longrightarrow> db_extends T st st''"
  unfolding db_extends_def by (metis append.assoc map_le_trans)

lemma db_extends_grows: "db_grows T u st st' \<Longrightarrow> db_extends T st st'"
  by (auto simp: db_grows_def db_extends_def)

lemma db_extends_registry [simp]:
  "db_extends T st (add_client s u m st)" "db_extends T st (remove_client s st)"
  "db_extends T st (set_room s m st)"
  by (simp_all add: db_extends_def add_client_def remove_client_def set_room_def)

lemma replay_extends:
  assumes "sqlite_documented e T"
  shows "db_extends T st (fst (replay_history e s m n st))"
  by (rule db_extends_grows [OF replay_history_facts(3) [OF _ assms]]) (rule prod.collapse [symmetric])

lemma history_extends:
  assumes "sqlite_documented e T"
  shows "db_extends T st (fst (handle_history_request e s q u m st))"
  by (rule db_extends_grows [OF handle_history_request_facts(3) [OF _ assms]]) (rule prod.collapse [symmetric])

lemma add_message_extends:
  assumes "sqlite_documented e T" and "add_message e msg (sdb st) = (stored, db)"
  shows "db_extends T st (st\<lparr>sdb := db\<rparr>)"
  by (rule db_extends_grows [OF add_message_grows [OF assms]])

lemma list_rooms_extends:
  assumes "sqlite_documented e T" and "build_room_list e (st\<lparr>clients := cs\<rparr>) = (text, st')"
  shows "db_extends T st (st\<lparr>sdb := sdb st'\<rparr>)"
  using db_extends_grows [OF build_room_list_facts(2) [OF assms(2,1)]] by (simp add: db_extends_def)

lemmas program_defs = enter_prog_def leave_prog_def chat_prog_def join_prog_def rooms_prog_def
  direct_prog_def broadcast_prog_def replay_prog_def

lemma auth_sections:
  assumes "sqlite_documented e T"
  shows "sections (db_extends T) (auth_prog e rnd now s input)"
proof -
  have "db_extends T st (fst (snd (handle_auth e rnd now s input st)))" for st
  proof -
    obtain r st' effs where h: "handle_auth e rnd now s input st = (r, st', effs)"
      by (cases "handle_auth e rnd now s input st")
    with handle_auth_db(1,2) [OF h assms] show ?thesis by (simp add: db_extends_def)
  qed
  then show ?thesis by (simp add: auth_prog_def split: prod.splits AuthResult.splits)
qed

lemma program_sections:
  assumes doc: "sqlite_documented e T"
  shows "sections (db_extends T) (enter_prog e s u)" and "sections (db_extends T) (leave_prog s u m)"
    and "sections (db_extends T) (chat_prog e now s q u m)"
    and "sections (db_extends T) (join_prog e s q u m)"
    and "sections (db_extends T) p \<Longrightarrow> sections (db_extends T) (rooms_prog e s p)"
    and "sections (db_extends T) p \<Longrightarrow> sections (db_extends T) (direct_prog e now s q u p)"
  using replay_extends [OF doc] add_message_extends [OF doc] list_rooms_extends [OF doc]
  by (auto simp: program_defs Let_def split: prod.splits option.splits)

lemma frame_sections:
  assumes doc: "sqlite_documented e T"
  shows "sections (db_extends T) (frame_prog e now s u m f)"
proof (cases "decode_message f")
  case None
  then show ?thesis by (simp add: frame_prog_def)
next
  case (Some tp)
  obtain t q where "tp = (t, q)" by (cases tp)
  with Some program_sections [OF doc] history_extends [OF doc] show ?thesis
    by (cases t) (simp_all add: frame_prog_def)
qed

lemma begins_sections:
  assumes "sqlite_documented e T" and "begins e s c p"
  shows "sections (db_extends T) p"
  using assms by (cases c) (auto simp: auth_sections program_sections frame_sections)

text \<open>What a thread has still to do extends the database only, so every step does.\<close>

definition pending_extends :: "('d \<Rightarrow> tables) \<Rightarrow> 'd fsys \<Rightarrow> bool" where
  "pending_extends T F \<longleftrightarrow>
     (\<forall>t th p. threads F t = Some th \<and> th_place th = Busy p \<longrightarrow> sections (db_extends T) p)"

lemma fstep_extends:
  assumes "fstep e F l F'" and doc: "sqlite_documented e T" and pend: "pending_extends T F"
  shows "pending_extends T F' \<and> db_extends T (fsrv F) (fsrv F')"
proof -
  have P: "sections (db_extends T) p" if "threads F t = Some th" "th_place th = Busy p" for t th p
    using pend that by (auto simp: pending_extends_def)
  have upd: "pending_extends T \<lparr>fsrv = st, threads = (threads F)(t \<mapsto> th')\<rparr>"
    if "\<And>p. th_place th' = Busy p \<Longrightarrow> sections (db_extends T) p" for st t th'
    using pend that by (auto simp: pending_extends_def)
  have same: "F\<lparr>threads := ts\<rparr> = \<lparr>fsrv = fsrv F, threads = ts\<rparr>" for ts by (cases F) simp
  from assms(1) show ?thesis
  proof cases
    case (start t th c p)
    with begins_sections [OF doc start(5)] show ?thesis unfolding same by (auto intro!: upd)
  next
    case (atomic t th k g)
    with P [OF atomic(3,4)] show ?thesis by (auto intro!: upd)
  next
    case (emit t th eff p)
    with P [OF emit(3,4)] show ?thesis unfolding same by (auto intro!: upd)
  next
    case (ended t th)
    with pend show ?thesis by (simp add: pending_extends_def)
  qed (auto simp: same intro!: upd)
qed

lemma ftrace_extends:
  assumes "ftrace e F es F'" and "sqlite_documented e T" and "pending_extends T F"
  shows "pending_extends T F' \<and> db_extends T (fsrv F) (fsrv F')"
  using assms
proof (induction rule: ftrace.induct)
  case (step es F' l F'')
  with fstep_extends [OF step(2) assms(2)] show ?case by (blast intro: db_extends_trans)
qed simp

section \<open>A thread that runs alone\<close>

lemma ftrace_first: "fstep e F l F' \<Longrightarrow> ftrace e F' es F'' \<Longrightarrow> ftrace e F (l @ es) F''"
  using ftrace_trans ftrace_step by blast

definition settled :: "'d thread \<Rightarrow> effect list \<Rightarrow> conn option \<Rightarrow> 'd thread option" where
  "settled th effs c = map_option (\<lambda>c. th\<lparr>th_open := th_open th \<and> (\<forall>eff\<in>set effs. still_open (th_socket th) eff),
     th_place := At c\<rparr>) c"

lemma runs_alone:
  assumes "threads F t = Some th" and "th_place th = Busy p" and "run p (fsrv F) = (c, st', effs)"
  shows "ftrace e F (map (Pair t) effs) \<lparr>fsrv = st', threads = (threads F)(t := settled th effs c)\<rparr>"
  using assms
proof (induction p arbitrary: F th c st' effs)
  case (Finish c')
  then have f: "c = c'" "st' = fsrv F" "effs = []" by simp_all
  show ?case
  proof (cases c')
    case None
    with ftrace_step [OF fstep.ended [OF Finish(1)]] Finish(2) f show ?thesis
      by (cases F) (simp add: settled_def fun_upd_def)
  next
    case (Some d)
    with ftrace_step [OF fstep.rest [OF Finish(1)]] Finish(2) f show ?thesis
      by (cases F) (simp add: settled_def fun_upd_def)
  qed
next
  case (Emit eff p)
  let ?th = "th\<lparr>th_open := th_open th \<and> still_open (th_socket th) eff, th_place := Busy p\<rparr>"
  let ?F = "F\<lparr>threads := (threads F)(t \<mapsto> ?th)\<rparr>"
  from Emit(4) obtain effs' where r: "run p (fsrv F) = (c, st', effs')" "effs = eff # effs'"
    by (auto split: prod.splits)
  have s: "settled ?th effs' c = settled th effs c" using r(2) by (simp add: settled_def conj_assoc)
  have "ftrace e ?F (map (Pair t) effs') \<lparr>fsrv = st', threads = (threads F)(t := settled th effs c)\<rparr>"
    using Emit(1) [of ?F ?th c st' effs'] r(1) by (simp add: s fun_upd_def cong: if_cong)
  from ftrace_first [OF fstep.emit [OF Emit(2,3)] this] r(2) show ?case
    by (simp add: fun_upd_def)
next
  case (Atomic k g)
  let ?th = "th\<lparr>th_place := Busy (k (fsrv F))\<rparr>"
  let ?F = "\<lparr>fsrv = g (fsrv F), threads = (threads F)(t \<mapsto> ?th)\<rparr>"
  have s: "settled ?th effs c = settled th effs c" by (simp add: settled_def)
  have "ftrace e ?F (map (Pair t) effs) \<lparr>fsrv = st', threads = (threads F)(t := settled th effs c)\<rparr>"
    using Atomic(1) [of "k (fsrv F)" ?F ?th c st' effs] Atomic(4)
    by (simp add: s fun_upd_def cong: if_cong)
  from ftrace_first [OF fstep.atomic [OF Atomic(2,3)] this] show ?case
    by (simp add: fun_upd_def)
qed

text \<open>The thread of socket \<open>s\<close> of \<^const>\<open>sys_step\<close> as thread number \<open>s\<close>.\<close>

definition fine :: "'d sys \<Rightarrow> 'd fsys" where
  "fine \<sigma> = \<lparr>fsrv = srv \<sigma>, threads = (\<lambda>s. map_option (\<lambda>c.
     \<lparr>th_socket = s, th_open = True, th_place = At c\<rparr>) (conns \<sigma> s))\<rparr>"

lemma handler_alone:
  assumes "conns \<sigma> s = Some c" and "begins e s c p" and "run p (srv \<sigma>) = (c', st', effs)"
    and "c' = None \<or> closes effs = {}"
  shows "ftrace e (fine \<sigma>) (map (Pair s) effs) (fine \<lparr>srv = st', conns = (conns \<sigma>)(s := c')\<rparr>)"
proof -
  let ?th = "\<lparr>th_socket = s, th_open = True, th_place = At c\<rparr>"
  let ?th' = "?th\<lparr>th_place := Busy p\<rparr>"
  let ?F = "fine \<sigma>\<lparr>threads := (threads (fine \<sigma>))(s \<mapsto> ?th')\<rparr>"
  have "fstep e (fine \<sigma>) [] ?F"
    using assms(1,2) by (intro fstep.start [of _ _ ?th c]) (simp_all add: fine_def)
  moreover have "ftrace e ?F (map (Pair s) effs)
      \<lparr>fsrv = st', threads = (threads ?F)(s := settled ?th' effs c')\<rparr>"
    using assms(3) by (intro runs_alone) (simp_all add: fine_def)
  moreover have "\<lparr>fsrv = st', threads = (threads ?F)(s := settled ?th' effs c')\<rparr> =
      fine \<lparr>srv = st', conns = (conns \<sigma>)(s := c')\<rparr>"
  proof -
    have "settled ?th' effs c' = map_option (\<lambda>c. \<lparr>th_socket = s, th_open = True, th_place = At c\<rparr>) c'"
      using assms(4) by (cases c') (auto simp: settled_def still_open_def closes_def)
    then show ?thesis by (auto simp: fine_def fun_eq_iff)
  qed
  ultimately show ?thesis using ftrace_first by fastforce
qed

lemma step_is_trace:
  assumes "sys_step e \<sigma> (s, effs) \<sigma>'"
  shows "ftrace e (fine \<sigma>) (map (Pair s) effs) (fine \<sigma>')"
  using assms
proof (cases rule: sys_step_cases)
  case accept
  have "fine \<sigma>' = fine \<sigma>\<lparr>threads := (threads (fine \<sigma>))(s \<mapsto>
      \<lparr>th_socket = s, th_open = True, th_place = At Authenticating\<rparr>)\<rparr>"
    using accept(4) by (simp add: fine_def fun_eq_iff)
  moreover have "th_socket th \<noteq> s" if "threads (fine \<sigma>) t = Some th" for t th
    using that accept(1) by (auto simp: fine_def)
  moreover have "threads (fine \<sigma>) s = None" using accept(1) by (simp add: fine_def)
  ultimately show ?thesis
    using ftrace_step [OF fstep.accept [of "fine \<sigma>" s s e]] accept(2,3) by simp
next
  case (auth_success rnd now input u st)
  with handler_alone [OF auth_success(1) begins.auth [of e s rnd now input]] auth_success(2,3)
    handle_auth_facts(4) [OF auth_success(2)]
  show ?thesis by (simp add: run_auth)
next
  case (auth_retry rnd now input st)
  have "\<sigma>' = \<lparr>srv = st, conns = (conns \<sigma>)(s := Some Authenticating)\<rparr>"
    using auth_retry(1,3) by (auto simp: fun_eq_iff)
  with handler_alone [OF auth_retry(1) begins.auth [of e s rnd now input]] auth_retry(2)
    handle_auth_facts(4) [OF auth_retry(2)]
  show ?thesis by (simp add: run_auth)
next
  case (auth_lost rnd now input st auth)
  with handler_alone [OF auth_lost(1) begins.auth [of e s rnd now input]] show ?thesis
    by (simp add: run_auth)
next
  case (enter u m st)
  with handler_alone [OF enter(1) begins.enter [of e s u]] client_enter_facts(5) [OF enter(2)]
  show ?thesis by (simp add: run_enter)
next
  case (frame u m now f m' running st)
  with handler_alone [OF frame(1) begins.frame [of e s u m now f]] handle_frame_closes [OF frame(2)]
  show ?thesis by (simp add: run_frame)
next
  case (lost u m)
  with handler_alone [OF lost(1) begins.lost [of e s u m]] show ?thesis
    by (cases \<sigma>) (simp add: effect_simps)
next
  case (leave u m st)
  with handler_alone [OF leave(1) begins.leave [of e s u m]] show ?thesis by (simp add: run_leave)
qed

lemma emits_run:
  assumes "threads F t = Some th" and "th_place th = Busy (emits effs p)" and "closes effs = {}"
  shows "ftrace e F (map (Pair t) effs) (F\<lparr>threads := (threads F)(t \<mapsto> th\<lparr>th_place := Busy p\<rparr>)\<rparr>)"
  using assms
proof (induction effs arbitrary: F th)
  case Nil
  then have "F\<lparr>threads := (threads F)(t \<mapsto> th\<lparr>th_place := Busy p\<rparr>)\<rparr> = F"
    by (cases F; cases th) (simp add: fun_upd_idem)
  then show ?case using ftrace.here [of e F] by (simp only: list.map)
next
  case (Cons eff effs)
  let ?th = "th\<lparr>th_place := Busy (emits effs p)\<rparr>"
  have "closes effs = {}" and "still_open (th_socket th) eff"
    using Cons(4) by (auto simp: closes_def still_open_def)
  then have a: "fstep e F [(t, eff)] (F\<lparr>threads := (threads F)(t \<mapsto> ?th)\<rparr>)"
    using fstep.emit [OF Cons(2), of eff "emits effs p"] Cons(3) by (cases th) simp
  have b: "ftrace e (F\<lparr>threads := (threads F)(t \<mapsto> ?th)\<rparr>) (map (Pair t) effs)
      (F\<lparr>threads := (threads F)(t \<mapsto> th\<lparr>th_place := Busy p\<rparr>)\<rparr>)"
    using Cons(1) [of "F\<lparr>threads := (threads F)(t \<mapsto> ?th)\<rparr>" ?th] \<open>closes effs = {}\<close>
    by (simp add: fun_upd_def cong: if_cong)
  from ftrace_first [OF a b] show ?case by (simp add: fun_upd_def)
qed

lemma section_run:
  assumes "threads F t = Some th" and "th_place th = Busy (section_then f p)"
    and "closes (snd (f (fsrv F))) = {}"
  shows "ftrace e F (map (Pair t) (snd (f (fsrv F))))
    \<lparr>fsrv = fst (f (fsrv F)), threads = (threads F)(t \<mapsto> th\<lparr>th_place := Busy p\<rparr>)\<rparr>"
proof -
  let ?th = "th\<lparr>th_place := Busy (emits (snd (f (fsrv F))) p)\<rparr>"
  let ?F = "\<lparr>fsrv = fst (f (fsrv F)), threads = (threads F)(t \<mapsto> ?th)\<rparr>"
  have a: "fstep e F [] ?F"
    using fstep.atomic [OF assms(1), of _ _ e] assms(2) by (simp add: section_then_def)
  have b: "ftrace e ?F (map (Pair t) (snd (f (fsrv F))))
      \<lparr>fsrv = fst (f (fsrv F)), threads = (threads F)(t \<mapsto> th\<lparr>th_place := Busy p\<rparr>)\<rparr>"
    using emits_run [of ?F t ?th "snd (f (fsrv F))" p e] assms(3)
    by (simp add: fun_upd_def cong: if_cong)
  from ftrace_first [OF a b] show ?thesis by simp
qed

lemma reachable_is_trace:
  assumes "reachable e (sys_init db) \<sigma>"
  shows "\<exists>es. ftrace e (fsys_init db) es (fine \<sigma>)"
  using assms
proof (induction rule: reachable.induct)
  case start
  have "fine (sys_init db) = fsys_init db" by (simp add: fine_def fsys_init_def sys_init_def)
  then show ?case using ftrace.here by metis
next
  case (step \<sigma> label \<sigma>')
  then show ?case by (cases label) (blast intro: ftrace_trans step_is_trace)
qed

lemma fine_ok: "reachable e (sys_init db) \<sigma> \<Longrightarrow> fsys_ok (fine \<sigma>)"
  using reachable_is_trace fsys_ok_trace fsys_ok_init by blast

lemma start_at:
  assumes "threads F t = Some \<lparr>th_socket = s, th_open = True, th_place = At c\<rparr>" and "begins e s c p"
  shows "fstep e F [] (F\<lparr>threads := (threads F)(t \<mapsto> \<lparr>th_socket = s, th_open = True, th_place = Busy p\<rparr>)\<rparr>)"
  using fstep.start [OF assms(1), of c e p] assms(2) by simp

text \<open>A client whose connection is lost: its thread leaves the table and closes the socket.\<close>

lemma lost_leaves:
  assumes "threads F t = Some \<lparr>th_socket = s, th_open = True, th_place = At (InRoom u m)\<rparr>"
  shows "\<exists>es. ftrace e F es \<lparr>fsrv = remove_client s (fsrv F), threads = (threads F)(t := None)\<rparr>"
proof -
  let ?at = "\<lambda>p. F\<lparr>threads := (threads F)(t \<mapsto> \<lparr>th_socket = s, th_open = True, th_place = p\<rparr>)\<rparr>"
  have 1: "fstep e F [] (?at (Busy (Finish (Some (Leaving u m)))))"
    by (rule start_at [OF assms begins.lost])
  have 2: "fstep e (?at (Busy (Finish (Some (Leaving u m))))) [] (?at (At (Leaving u m)))"
    using fstep.rest [of "?at (Busy (Finish (Some (Leaving u m))))" t _ "Leaving u m" e] by simp
  have 3: "fstep e (?at (At (Leaving u m))) [] (?at (Busy (leave_prog s u m)))"
    using start_at [of "?at (At (Leaving u m))" t s "Leaving u m" e] by simp
  obtain st effs where l: "client_leave s u m (fsrv F) = (st, effs)" by fastforce
  then have st: "st = remove_client s (fsrv F)" by (simp add: client_leave_def Let_def)
  have 4: "ftrace e (?at (Busy (leave_prog s u m))) (map (Pair t) effs)
      \<lparr>fsrv = st, threads = (threads (?at (Busy (leave_prog s u m))))
         (t := settled \<lparr>th_socket = s, th_open = True, th_place = Busy (leave_prog s u m)\<rparr> effs None)\<rparr>"
    using run_leave [of s u m "fsrv F"] l by (intro runs_alone) simp_all
  from ftrace_first [OF 1 ftrace_first [OF 2 ftrace_first [OF 3 4]]] show ?thesis
    by (intro exI) (simp add: settled_def st)
qed

text \<open>The steps of a thread in the middle of a handler, with the states written out.\<close>

lemma section_at:
  assumes "\<And>st. closes (snd (f st)) = {}"
  shows "ftrace e \<lparr>fsrv = st, threads = ts(t \<mapsto> \<lparr>th_socket = s, th_open = True, th_place = Busy (section_then f p)\<rparr>)\<rparr>
    (map (Pair t) (snd (f st)))
    \<lparr>fsrv = fst (f st), threads = ts(t \<mapsto> \<lparr>th_socket = s, th_open = True, th_place = Busy p\<rparr>)\<rparr>"
  using section_run [of "\<lparr>fsrv = st, threads = ts(t \<mapsto> \<lparr>th_socket = s, th_open = True, th_place = Busy (section_then f p)\<rparr>)\<rparr>"
      t "\<lparr>th_socket = s, th_open = True, th_place = Busy (section_then f p)\<rparr>" f p e] assms by simp

lemma emits_at:
  assumes "closes effs = {}"
  shows "ftrace e \<lparr>fsrv = st, threads = ts(t \<mapsto> \<lparr>th_socket = s, th_open = True, th_place = Busy (emits effs p)\<rparr>)\<rparr>
    (map (Pair t) effs)
    \<lparr>fsrv = st, threads = ts(t \<mapsto> \<lparr>th_socket = s, th_open = True, th_place = Busy p\<rparr>)\<rparr>"
  using emits_run [of "\<lparr>fsrv = st, threads = ts(t \<mapsto> \<lparr>th_socket = s, th_open = True, th_place = Busy (emits effs p)\<rparr>)\<rparr>"
      t "\<lparr>th_socket = s, th_open = True, th_place = Busy (emits effs p)\<rparr>" effs p e] assms by simp

lemma snapshot_at:
  "fstep e \<lparr>fsrv = st, threads = ts(t \<mapsto> \<lparr>th_socket = s, th_open = True, th_place = Busy (broadcast_prog m f ex p)\<rparr>)\<rparr>
    [] \<lparr>fsrv = st, threads = ts(t \<mapsto> \<lparr>th_socket = s, th_open = True,
      th_place = Busy (emits (broadcast_to_room m f ex st) p)\<rparr>)\<rparr>"
  using fstep.atomic [of "\<lparr>fsrv = st, threads = ts(t \<mapsto> \<lparr>th_socket = s, th_open = True, th_place = Busy (broadcast_prog m f ex p)\<rparr>)\<rparr>"
      t "\<lparr>th_socket = s, th_open = True, th_place = Busy (broadcast_prog m f ex p)\<rparr>" _ _ e]
  by (simp add: broadcast_prog_def section_then_def)

lemma emits_append [simp]: "emits (effs @ effs') p = emits effs (emits effs' p)"
  by (induction effs) simp_all

lemma frame_prog_chat:
  assumes "trim q \<noteq> []"
  defines "msg \<equiv> \<lambda>u m now. \<lparr>msg_room = m, msg_username = u, msg_content = trim q, msg_timestamp = now\<rparr>"
  shows "frame_prog e now s u m (encode_message Chat q) =
    section_then (\<lambda>st. case add_message e (msg u m now) (sdb st) of
        (stored, db) \<Rightarrow> (st\<lparr>sdb := db\<rparr>,
          if \<not> stored then [send_system s ''Failed to store the message in history.''] else []))
      (broadcast_prog m (encode_message ChatMsg (encode_chat_message (msg u m now))) s
        (Finish (Some (InRoom u m))))"
  using assms(1) decode_message_encode [of Chat q]
  by (simp add: frame_prog_def chat_prog_def msg_def msg_types_def Let_def)

end
