(* ===== verification/Interleaving_Properties.thy ===== *)
theory Interleaving_Properties
  imports Interleaving_Runs
begin

text \<open>
  What the server guarantees when its threads interleave between their critical sections and their
  sends, and the one place where the handler-by-handler view of \<open>Server_Properties\<close> is too
  optimistic: frames sent to a descriptor that has changed hands.
\<close>

section \<open>Every schedule\<close>

text \<open>C3 (threads). However the threads of the server interleave between their critical sections and their
  sends, the table of connected clients has each socket once and never the invalid one; every
  socket it lists belongs to one thread, whose connection is open; and a thread that waits for
  input has an open connection and is listed with the user and the room it believes in, or not at
  all before it has entered.\<close>

theorem interleaved_registry:
  assumes "ftrace e (fsys_init db) es F"
  shows "distinct (map cl_socket (clients (fsrv F))) \<and> INVALID_SOCKET \<notin> cl_socket ` set (clients (fsrv F)) \<and>
    (\<forall>s \<in> cl_socket ` set (clients (fsrv F)). \<exists>!t. owns F s t) \<and>
    (\<forall>t th c. threads F t = Some th \<and> th_place th = At c \<longrightarrow>
       th_open th \<and> presence (clients (fsrv F)) (th_socket th) = session_of (Some c))"
proof -
  have ok: "fsys_ok F" by (rule fsys_ok_trace [OF assms fsys_ok_init])
  have "\<exists>!t. owns F s t" if "s \<in> cl_socket ` set (clients (fsrv F))" for s
    using fsys_ok_listed [OF ok, of s] that fsys_ok_owner [OF ok] by (auto simp: presence_None)
  moreover have "th_open th \<and> presence (clients (fsrv F)) (th_socket th) = session_of (Some c)"
    if "threads F t = Some th" "th_place th = At c" for t th c
  proof -
    from fsys_ok_thread [OF ok that(1)] that(2) have "th_open th" "entry_of (fsrv F) th = session_of (Some c)"
      by (simp_all add: thread_ok_def)
    then show ?thesis by (simp add: entry_of_def)
  qed
  moreover have "registry_ok (clients (fsrv F))" using ok by (simp add: fsys_ok_def)
  ultimately show ?thesis by (auto simp: registry_ok_def)
qed

lemma interleaved_registry_witness:
  "\<exists>F :: tables fsys. threads F 5 = Some \<lparr>th_socket = 5, th_open = True, th_place = At (InRoom ''alice'' kDefaultRoom)\<rparr> \<and>
     presence (clients (fsrv F)) 5 = Some (''alice'', kDefaultRoom)"
proof -
  obtain \<sigma> where r: "reachable table_engine (sys_init demo_db) \<sigma>"
    and c: "conns \<sigma> 5 = Some (InRoom ''alice'' kDefaultRoom)" using demo_run by blast
  obtain es where t: "ftrace table_engine (fsys_init demo_db) es (fine \<sigma>)"
    using reachable_is_trace [OF r] by blast
  have th: "threads (fine \<sigma>) 5 = Some \<lparr>th_socket = 5, th_open = True, th_place = At (InRoom ''alice'' kDefaultRoom)\<rparr>"
    using c by (simp add: fine_def)
  note I = interleaved_registry [OF t, THEN conjunct2, THEN conjunct2, THEN conjunct2, rule_format,
      OF conjI [OF th thread.select_convs(3)]]
  from I have "presence (clients (fsrv (fine \<sigma>))) 5 = Some (''alice'', kDefaultRoom)" by simp
  with th show ?thesis by (intro exI [of _ "fine \<sigma>"]) simp
qed

text \<open>C29 (closing). However the threads interleave, a socket is closed by the thread that owns it, while it is
  still open, so never twice; and by then it is off the table of clients, so that no snapshot
  taken afterwards names it.\<close>

theorem interleaved_closing:
  assumes "ftrace e (fsys_init db) es F" and "fstep e F [(t, CloseSocket s)] F'"
  shows "owns F s t \<and> (\<forall>t'. \<not> owns F' s t') \<and> s \<notin> cl_socket ` set (clients (fsrv F))"
proof -
  have ok: "fsys_ok F" by (rule fsys_ok_trace [OF assms(1) fsys_ok_init])
  from assms(2) show ?thesis
  proof cases
    case (emit th p)
    note T = fsys_ok_thread [OF ok emit(2)]
    with emit(3) have o: "th_socket th = s" "th_open th" "presence (clients (fsrv F)) s = None"
      by (auto simp: thread_ok_def entry_of_def)
    with emit(2) have own: "owns F s t" by (simp add: owns_def)
    have "\<not> owns F' s t'" for t'
      using fsys_ok_owner [OF ok own, of t'] o by (auto simp: emit(1) owns_def still_open_def split: if_splits)
    with own o(3) show ?thesis by (simp add: presence_None)
  qed
qed

lemma interleaved_closing_witness:
  "\<exists>F F' :: tables fsys. fstep table_engine F [(1, CloseSocket 5)] F' \<and> owns F 5 1 \<and> (\<forall>t'. \<not> owns F' 5 t')"
proof -
  let ?F = "\<lambda>p. \<lparr>fsrv = \<lparr>clients = [], sdb = demo_db\<rparr>,
    threads = [1 \<mapsto> \<lparr>th_socket = 5, th_open = True, th_place = p\<rparr>]\<rparr> :: tables fsys"
  let ?auth = "auth_prog table_engine (\<lambda>_. 0) 0 5 None"
  have 1: "fstep table_engine (fsys_init demo_db) [] (?F (At Authenticating))"
    using fstep.accept [of "fsys_init demo_db" 1 5 table_engine] by (simp add: fsys_init_def INVALID_SOCKET_def)
  have 2: "fstep table_engine (?F (At Authenticating)) [] (?F (Busy ?auth))"
    using start_at [of "?F (At Authenticating)" 1 5 Authenticating table_engine, OF _ begins.auth] by simp
  have 3: "fstep table_engine (?F (Busy ?auth)) [] (?F (Busy (Emit (CloseSocket 5) (Finish None))))"
    using fstep.atomic [of "?F (Busy ?auth)" 1 "\<lparr>th_socket = 5, th_open = True, th_place = Busy ?auth\<rparr>"
        "\<lambda>st. Emit (CloseSocket 5) (Finish None)" "\<lambda>st. st" table_engine]
    by (simp add: auth_prog_def handle_auth_def)
  obtain F' where 4: "fstep table_engine (?F (Busy (Emit (CloseSocket 5) (Finish None)))) [(1, CloseSocket 5)] F'"
    using fstep.emit [of "?F (Busy (Emit (CloseSocket 5) (Finish None)))" 1] by fastforce
  from interleaved_closing [OF ftrace_first [OF 1 ftrace_first [OF 2 ftrace_step [OF 3]]] 4] 4
  show ?thesis by blast
qed

text \<open>C19 (log). However the threads interleave, no account is lost or changed and no stored message is lost,
  changed or reordered.\<close>

theorem interleaved_log:
  assumes "sqlite_documented e T" and "ftrace e (fsys_init db) es F" and "ftrace e F es' F'"
  shows "accounts T (sdb (fsrv F)) \<subseteq>\<^sub>m accounts T (sdb (fsrv F')) \<and>
    (\<exists>new. message_rows T (sdb (fsrv F')) = message_rows T (sdb (fsrv F)) @ new)"
proof -
  have "pending_extends T (fsys_init db)" by (simp add: pending_extends_def fsys_init_def)
  from ftrace_extends [OF assms(2,1) this] ftrace_extends [OF assms(3,1)]
  show ?thesis by (simp add: db_extends_def)
qed

lemma interleaved_log_witness:
  "\<exists>F :: tables fsys. threads F 5 = Some \<lparr>th_socket = 5, th_open = True, th_place = At (InRoom ''alice'' kDefaultRoom)\<rparr> \<and>
     accounts (\<lambda>d. d) demo_db \<subseteq>\<^sub>m accounts (\<lambda>d. d) (sdb (fsrv F))"
proof -
  obtain \<sigma> where r: "reachable table_engine (sys_init demo_db) \<sigma>"
    and c: "conns \<sigma> 5 = Some (InRoom ''alice'' kDefaultRoom)" using demo_run by blast
  obtain es where t: "ftrace table_engine (fsys_init demo_db) es (fine \<sigma>)"
    using reachable_is_trace [OF r] by blast
  from interleaved_log [OF table_engine_documented ftrace.here t] c show ?thesis
    by (intro exI [of _ "fine \<sigma>"]) (simp add: fine_def fsys_init_def)
qed

text \<open>C22 (granularity). The steps of the running server in which a thread performs a whole handler are executions of
  the interleaving threads, with the same effects in the same order: whatever the server can do
  one handler at a time it can do with its locks as they are.\<close>

theorem handler_steps_are_traces:
  assumes "sys_step e \<sigma> (s, effs) \<sigma>'"
  shows "ftrace e (fine \<sigma>) (map (Pair s) effs) (fine \<sigma>')"
  by (rule step_is_trace [OF assms])

lemma handler_steps_are_traces_witness:
  "\<exists>\<sigma>' :: tables sys. conns \<sigma>' 5 = Some Authenticating \<and> ftrace table_engine (fine (sys_init demo_db)) [] (fine \<sigma>')"
proof -
  let ?\<sigma> = "(sys_init demo_db)\<lparr>conns := (conns (sys_init demo_db))(5 \<mapsto> Authenticating)\<rparr>"
  have "sys_step table_engine (sys_init demo_db) (5, []) ?\<sigma>"
    by (rule sys_step.accept) (simp_all add: sys_init_def INVALID_SOCKET_def)
  from handler_steps_are_traces [OF this] show ?thesis by (intro exI [of _ ?\<sigma>]) simp
qed



section \<open>A snapshot that outlives its connection\<close>

text \<open>C4 (descriptors). \<^verbatim>\<open>broadcast_to_room\<close> sends to the descriptors it found under the lock after it has given
  the lock up. When a member of the room disconnects in between and \<^verbatim>\<open>accept\<close> gives the closed
  descriptor to a new connection, the chat message goes to a peer that has not logged in. This
  can happen for every two members of a room and every message.\<close>

theorem stale_frame_reaches_stranger:
  assumes r: "reachable e (sys_init db) \<sigma>"
    and a: "conns \<sigma> a = Some (InRoom u m)" and b: "conns \<sigma> b = Some (InRoom v m)"
    and "a \<noteq> b" and "trim q \<noteq> []"
  shows "\<exists>es F F'. ftrace e (fine \<sigma>) es F \<and>
    threads F b = Some \<lparr>th_socket = b, th_open = True, th_place = At Authenticating\<rparr> \<and>
    fstep e F [(a, SendFrame b (encode_message ChatMsg (encode_chat_message
      \<lparr>msg_room = m, msg_username = u, msg_content = trim q, msg_timestamp = now\<rparr>)))] F'"
proof -
  let ?frame = "encode_message ChatMsg (encode_chat_message
      \<lparr>msg_room = m, msg_username = u, msg_content = trim q, msg_timestamp = now\<rparr>)"
  let ?th = "\<lambda>s p. \<lparr>th_socket = s, th_open = True, th_place = p\<rparr>"
  let ?ts = "threads (fine \<sigma>)" and ?fin = "Finish (Some (InRoom u m)) :: 'a prog"
  note ok = fine_ok [OF r]
  have ta: "?ts a = Some (?th a (At (InRoom u m)))" and tb: "?ts b = Some (?th b (At (InRoom v m)))"
    using a b by (simp_all add: fine_def)
  have reg: "registry_ok (clients (srv \<sigma>))" using ok by (simp add: fsys_ok_def fine_def)
  have pb: "presence (clients (srv \<sigma>)) b = Some (v, m)" and nb: "b \<noteq> INVALID_SOCKET"
    using fsys_ok_thread [OF ok tb] by (simp_all add: thread_ok_def entry_of_def) (simp add: fine_def)
  obtain f where f: "frame_prog e now a u m (encode_message Chat q) = section_then f (broadcast_prog m ?frame a ?fin)"
    and fc: "\<And>st. clients (fst (f st)) = clients st" "\<And>st. closes (snd (f st)) = {}"
    using frame_prog_chat [OF assms(5), of e now a u m]
    by (fastforce simp: effect_simps split: prod.splits if_splits)
  define st where "st = fst (f (srv \<sigma>))"
  have "SendFrame b ?frame \<in> set (broadcast_to_room m ?frame a st)"
    using registry.recipient_iff [OF reg, of b m a] pb assms(4) fc(1)
    by (simp add: broadcast_to_room_eq st_def)
  then obtain pre post where split: "broadcast_to_room m ?frame a st = pre @ SendFrame b ?frame # post"
    by (meson split_list)
  have "closes pre = {}"
  proof -
    have "closes (broadcast_to_room m ?frame a st) = {}" by (simp add: effect_simps)
    then show ?thesis unfolding split by (simp add: effect_simps)
  qed
  define rest where "rest = emits post ?fin"
  let ?F = "\<lambda>st p. \<lparr>fsrv = st, threads = ?ts(a \<mapsto> ?th a (Busy p))\<rparr>"
  have 1: "fstep e (fine \<sigma>) [] (?F (srv \<sigma>) (section_then f (broadcast_prog m ?frame a ?fin)))"
    using start_at [OF ta begins.frame, of e now "encode_message Chat q"] f by (simp add: fine_def)
  have 2: "ftrace e (?F (srv \<sigma>) (section_then f (broadcast_prog m ?frame a ?fin)))
      (map (Pair a) (snd (f (srv \<sigma>)))) (?F st (broadcast_prog m ?frame a ?fin))"
    unfolding st_def by (rule section_at [OF fc(2)])
  have 3: "fstep e (?F st (broadcast_prog m ?frame a ?fin)) [] (?F st (emits pre (Emit (SendFrame b ?frame) rest)))"
    using snapshot_at [of e st ?ts a a m ?frame a ?fin] by (simp add: split rest_def)
  note 4 = emits_at [OF \<open>closes pre = {}\<close>, of e st ?ts a a "Emit (SendFrame b ?frame) rest"]
  obtain es where 5: "ftrace e (?F st (Emit (SendFrame b ?frame) rest)) es
      \<lparr>fsrv = remove_client b st, threads = ?ts(a \<mapsto> ?th a (Busy (Emit (SendFrame b ?frame) rest)), b := None)\<rparr>"
    (is "ftrace e _ es ?G")
    using lost_leaves [of "?F st (Emit (SendFrame b ?frame) rest)" b b v m e] tb assms(4) by auto
  have 6: "fstep e ?G [] (?G\<lparr>threads := (threads ?G)(b \<mapsto> ?th b (At Authenticating))\<rparr>)"
    (is "fstep e _ [] ?H")
    using assms(4) nb by (intro fstep.accept) (auto simp: fine_def split: if_splits)
  obtain F' where 7: "fstep e ?H [(a, SendFrame b ?frame)] F'"
    using fstep.emit [of ?H a] assms(4) by fastforce
  note 8 = ftrace_trans [OF ftrace_trans [OF ftrace_step [OF 6] 5] 4]
  note 9 = ftrace_first [OF 1 ftrace_trans [OF ftrace_first [OF 3 8] 2]]
  show ?thesis by (intro exI conjI, rule 9, simp, rule 7)
qed

lemma stale_frame_reaches_stranger_witness:
  "\<exists>es (F :: tables fsys) F'. ftrace table_engine (fsys_init demo_db) es F \<and>
    threads F 6 = Some \<lparr>th_socket = 6, th_open = True, th_place = At Authenticating\<rparr> \<and>
    fstep table_engine F [(5, SendFrame 6 (encode_message ChatMsg (encode_chat_message
      \<lparr>msg_room = kDefaultRoom, msg_username = ''alice'', msg_content = ''hello'', msg_timestamp = 0\<rparr>)))] F'"
proof -
  obtain \<sigma> where r: "reachable table_engine (sys_init demo_db) \<sigma>"
    and c: "conns \<sigma> 5 = Some (InRoom ''alice'' kDefaultRoom)" "conns \<sigma> 6 = Some (InRoom ''bob'' kDefaultRoom)"
    using demo_run by blast
  have "trim ''hello'' = ''hello''" by code_simp
  with stale_frame_reaches_stranger [OF r c, of "''hello''" 0] reachable_is_trace [OF r]
  show ?thesis by (auto intro: ftrace_trans)
qed

end
