(* ===== verification/Server_Privacy.thy ===== *)
theory Server_Privacy
  imports Server_Properties Store_Properties
begin

text \<open>
  Names of rooms, keys of direct messages and the queries that use them: what a user can read of
  the stored messages, and the two places where a NUL byte in a name opens more than it should.
\<close>

section \<open>Room names\<close>

lemma sanitize_char_safe: "isalnum (sanitize_char c) \<or> sanitize_char c \<in> set ''_- ''"
  by (simp add: sanitize_char_def)

lemma sanitize_room_chars: "c \<in> set (sanitize_room raw) \<Longrightarrow> isalnum c \<or> c \<in> set ''_- ''"
  using sanitize_char_safe by (auto simp: sanitize_room_def Let_def)

text \<open>A room name has at most 32 characters, all of them letters, digits, underscores, hyphens or
  spaces; a name that is already of this form and has no white space around it is left as it is.\<close>

theorem sanitize_room_safe:
  "length (sanitize_room raw) \<le> 32 \<and> (\<forall>c\<in>set (sanitize_room raw). isalnum c \<or> c \<in> set ''_- '') \<and>
   (length raw \<le> 32 \<and> trim raw = raw \<and> list_all (\<lambda>c. isalnum c \<or> c \<in> set ''_- '') raw \<longrightarrow>
      sanitize_room raw = raw)"
proof (intro conjI impI ballI)
  show "length (sanitize_room raw) \<le> 32" by (simp add: sanitize_room_def Let_def substr_def)
next
  fix c assume "c \<in> set (sanitize_room raw)"
  then show "isalnum c \<or> c \<in> set ''_- ''" by (rule sanitize_room_chars)
next
  assume r: "length raw \<le> 32 \<and> trim raw = raw \<and> list_all (\<lambda>c. isalnum c \<or> c \<in> set ''_- '') raw"
  then have "map sanitize_char raw = raw"
    by (auto simp: sanitize_char_def list_all_iff intro!: map_idI)
  with r show "sanitize_room raw = raw" by (simp add: sanitize_room_def Let_def)
qed

lemma sanitize_room_safe_witness: "sanitize_room ''dev-team_2'' = ''dev-team_2''"
proof -
  have "length ''dev-team_2'' \<le> 32 \<and> trim ''dev-team_2'' = ''dev-team_2'' \<and>
      list_all (\<lambda>c. isalnum c \<or> c \<in> set ''_- '') ''dev-team_2''" by code_simp
  with sanitize_room_safe [of "''dev-team_2''"] show ?thesis by blast
qed

text \<open>The name is cut to 32 characters after it was trimmed, so it can end in a space; such a
  room is not entered by typing its name.\<close>

theorem cut_room_name_not_reenterable:
  "\<exists>raw. sanitize_room raw \<noteq> [] \<and> sanitize_room (sanitize_room raw) \<noteq> sanitize_room raw"
proof -
  let ?raw = "replicate 31 (CHR ''a'') @ '' b''"
  have "sanitize_room ?raw = replicate 31 (CHR ''a'') @ '' ''" by code_simp
  moreover have "sanitize_room (replicate 31 (CHR ''a'') @ '' '') = replicate 31 (CHR ''a'')" by code_simp
  ultimately have "sanitize_room ?raw \<noteq> [] \<and> sanitize_room (sanitize_room ?raw) \<noteq> sanitize_room ?raw" by simp
  then show ?thesis by blast
qed

section \<open>Keys of direct messages\<close>

lemma dm_room_key_sym: "dm_room_key a b = dm_room_key b a"
  by (auto simp: dm_room_key_def)

lemma dm_room_key_cases:
  obtains "dm_room_key a b = ''dm:'' @ a @ '':'' @ b" | "dm_room_key a b = ''dm:'' @ b @ '':'' @ a"
  using that by (cases "a < b") (simp_all add: dm_room_key_def)

lemma split_unique:
  assumes "xs @ c # ys = xs' @ c # ys'" and "c \<notin> set xs" and "c \<notin> set ys"
  shows "xs = xs' \<and> ys = ys'"
  using assms
proof (induction xs arbitrary: xs')
  case Nil
  then show ?case by (cases xs') auto
next
  case (Cons x xs)
  then show ?case by (cases xs') auto
qed

lemma dm_key_members:
  assumes "dm_room_key u t = dm_room_key a b" and "CHR '':'' \<notin> set a" and "CHR '':'' \<notin> set b"
  shows "(u = a \<and> t = b) \<or> (u = b \<and> t = a)"
proof -
  obtain x y where "dm_room_key a b = ''dm:'' @ x @ '':'' @ y" "(x = a \<and> y = b) \<or> (x = b \<and> y = a)"
    by (rule dm_room_key_cases [of a b]) blast+
  moreover obtain v w where "dm_room_key u t = ''dm:'' @ v @ '':'' @ w" "(v = u \<and> w = t) \<or> (v = t \<and> w = u)"
    by (rule dm_room_key_cases [of u t]) blast+
  ultimately show ?thesis
    using split_unique [of x "CHR '':''" y v w] assms by auto
qed

text \<open>The key of a conversation does not depend on who asks; two conversations of valid users share a
  key only if they have the same two members; and no room a user can enter has such a key.\<close>

theorem dm_keys_identify_conversations:
  "dm_room_key a b = dm_room_key b a \<and>
   (valid_username a \<and> valid_username b \<longrightarrow>
      (dm_room_key u t = dm_room_key a b \<longleftrightarrow> (u = a \<and> t = b) \<or> (u = b \<and> t = a))) \<and>
   sanitize_room raw \<noteq> dm_room_key a b"
proof (intro conjI impI)
  show "dm_room_key a b = dm_room_key b a" by (rule dm_room_key_sym)
next
  assume v: "valid_username a \<and> valid_username b"
  then show "dm_room_key u t = dm_room_key a b \<longleftrightarrow> (u = a \<and> t = b) \<or> (u = b \<and> t = a)"
    using dm_key_members [of u t a b] valid_username_no_special(2) dm_room_key_sym by blast
next
  have "CHR '':'' \<in> set (dm_room_key a b)" by (simp add: dm_room_key_def)
  moreover have "CHR '':'' \<notin> set (sanitize_room raw)" using sanitize_room_chars by fastforce
  ultimately show "sanitize_room raw \<noteq> dm_room_key a b" by metis
qed

lemma dm_keys_identify_conversations_witness:
  "dm_room_key ''eve'' ''bob'' \<noteq> dm_room_key ''alice'' ''bob''"
proof -
  have "valid_username ''alice'' \<and> valid_username ''bob''" by code_simp
  with dm_keys_identify_conversations [of "''alice''" "''bob''" "''eve''" "''bob''"]
  have "dm_room_key ''eve'' ''bob'' = dm_room_key ''alice'' ''bob'' \<longleftrightarrow>
      (''eve'' = ''alice'' \<and> ''bob'' = ''bob'') \<or> (''eve'' = ''bob'' \<and> ''bob'' = ''alice'')" by blast
  then show ?thesis by simp
qed

section \<open>What a history request can read\<close>

lemma replay_history_reads:
  assumes "sqlite_documented e T" and "replay_history e s m n st = (st', effs)"
  shows "(\<exists>reply. effs = [send_system s reply]) \<or>
    (\<exists>ms. effs = [send_msg s History (encode_history ms)] \<and> (\<forall>msg\<in>set ms. msg_room msg = c_str m))"
proof -
  obtain ms db where g: "get_recent_messages e m n (sdb st) = (ms, db)" by fastforce
  have "\<forall>msg\<in>set ms. msg_room msg = c_str m"
    using store.recent_room [OF assms(1) g] by blast
  with assms(2) g show ?thesis by (auto simp: replay_history_def split: if_splits)
qed

text \<open>The room a request is about: the room of the client, or the conversation with the named user.\<close>

lemma handle_history_request_target:
  assumes "handle_history_request e s raw u m st = (st', effs)"
  obtains (usage) reply where "effs = [send_system s reply]"
  | (own) n where "replay_history e s m n st = (st', effs)"
  | (conversation) t n where "set t \<subseteq> set raw" "replay_history e s (dm_room_key u t) n st = (st', effs)"
proof -
  have sub: "set (substr_from (trim raw) 1) \<subseteq> set raw" "set (substr (trim raw) 1 k) \<subseteq> set raw" for k
    using set_trim_subset [of raw]
    by (auto simp: substr_def substr_from_def dest!: in_set_takeD in_set_dropD)
  with assms show thesis
    by (auto simp: handle_history_request_def Let_def split: if_splits option.splits
        intro: usage own conversation)
qed

text \<open>C16 (privacy). A user with a valid name who is in an ordinary room cannot read the direct messages of two other
  users by a history request, as long as the request contains no NUL byte.\<close>

theorem history_request_is_private:
  assumes "sqlite_documented e T" and "handle_history_request e s raw u m st = (st', effs)"
    and "CHR 0x00 \<notin> set raw" and "valid_username u" and "CHR '':'' \<notin> set m"
    and "valid_username a" and "valid_username b" and "u \<noteq> a" and "u \<noteq> b"
  shows "(\<exists>reply. effs = [send_system s reply]) \<or>
    (\<exists>ms. effs = [send_msg s History (encode_history ms)] \<and> (\<forall>msg\<in>set ms. msg_room msg \<noteq> dm_room_key a b))"
  using assms(2)
proof (cases rule: handle_history_request_target)
  case (usage reply)
  then show ?thesis by blast
next
  case (own n)
  have "CHR '':'' \<notin> set (c_str m)" using assms(5) by (auto simp: c_str_def dest: set_takeWhileD)
  moreover have "CHR '':'' \<in> set (dm_room_key a b)" by (simp add: dm_room_key_def)
  ultimately have "c_str m \<noteq> dm_room_key a b" by metis
  with replay_history_reads [OF assms(1) own] show ?thesis by auto
next
  case (conversation t n)
  have "CHR 0x00 \<notin> set (dm_room_key u t)"
    using conversation(1) assms(3) valid_username_no_special(1) [OF assms(4)]
    by (auto simp: dm_room_key_def)
  then have "c_str (dm_room_key u t) = dm_room_key u t" by (rule c_str_no_nul)
  moreover have "dm_room_key u t \<noteq> dm_room_key a b"
    using dm_key_members [of u t a b] valid_username_no_special(2) assms(6-9) by blast
  ultimately show ?thesis using replay_history_reads [OF assms(1) conversation(2)] by auto
qed

text \<open>The history of a conversation, on the engine of the tables.\<close>

definition secret_row :: message_row where
  "secret_row = \<lparr>m_id = 1, m_room = ''dm:alice:bob'', m_user = ''alice'', m_content = ''the key is 4711'', m_sent = 9\<rparr>"

definition secret_db :: "tables ChatDatabase" where
  "secret_db = \<lparr>cd_path = ''chat.db'', cd_db = Some \<lparr>t_users = [], t_messages = [secret_row]\<rparr>\<rparr>"

definition secret_server :: "tables server" where
  "secret_server = \<lparr>clients = [], sdb = secret_db\<rparr>"

lemma history_request_is_private_witness:
  "\<exists>effs. snd (handle_history_request table_engine 7 ''@alice'' ''eve'' ''general'' secret_server) = effs \<and>
     ((\<exists>reply. effs = [send_system 7 reply]) \<or>
      (\<exists>ms. effs = [send_msg 7 History (encode_history ms)] \<and> (\<forall>msg\<in>set ms. msg_room msg \<noteq> dm_room_key ''alice'' ''bob'')))"
proof -
  obtain st' effs where h: "handle_history_request table_engine 7 ''@alice'' ''eve'' ''general'' secret_server = (st', effs)"
    by fastforce
  have v: "valid_username ''eve''" "valid_username ''alice''" "valid_username ''bob''" by code_simp+
  have "(\<exists>reply. effs = [send_system 7 reply]) \<or>
      (\<exists>ms. effs = [send_msg 7 History (encode_history ms)] \<and> (\<forall>msg\<in>set ms. msg_room msg \<noteq> dm_room_key ''alice'' ''bob''))"
    by (rule history_request_is_private [OF table_engine_documented h _ v(1) _ v(2,3)]) simp_all
  with h show ?thesis by simp
qed



section \<open>Names the login does not check\<close>

text \<open>C40 (login name). A login never validates the name: with a NUL byte and anything after it, the account of the
  part before the NUL is authenticated, but the session runs under the whole text.\<close>

theorem login_name_after_nul:
  assumes "CHR 0x00 \<notin> set u" and "authenticate_user e u pw (sdb st) = (None, db)"
    and "CHR 0x0A \<notin> set u" and "CHR 0x0A \<notin> set x" and "trim (u @ CHR 0x00 # x) = u @ CHR 0x00 # x"
  shows "handle_auth e rnd now s (Some (encode_message Login ((u @ CHR 0x00 # x) @ CHR 0x0A # pw))) st =
    (Success (u @ CHR 0x00 # x), st\<lparr>sdb := db\<rparr>, [ServerLog ((u @ CHR 0x00 # x) @ '' logged in.'')])"
proof -
  let ?n = "u @ CHR 0x00 # x"
  have "authenticate_user e ?n pw (sdb st) = (None, db)"
  proof -
    have "c_str ?n = c_str u"
      using c_str_append_nul [OF assms(1), of x] c_str_no_nul [OF assms(1)] by (rule trans [OF _ sym])
    with assms(2) show ?thesis by (simp only: authenticate_user_def)
  qed
  moreover have "decode_message (encode_message Login (?n @ CHR 0x0A # pw)) = Some (Login, ?n @ CHR 0x0A # pw)"
    by (rule decode_message_encode) (simp add: msg_types_def)
  moreover have "find_char (?n @ CHR 0x0A # pw) (CHR 0x0A) = Some (length ?n)"
    using assms(3,4) by (intro find_char_first) simp
  moreover have "substr (?n @ CHR 0x0A # pw) 0 (length ?n) = ?n" "substr_from (?n @ CHR 0x0A # pw) (length ?n + 1) = pw"
    by (simp_all add: substr_def substr_from_def)
  ultimately show ?thesis using assms(5) by (simp add: handle_auth_def Let_def del: append_assoc)
qed

lemma login_name_after_nul_witness:
  "\<exists>db db' log. register_user table_engine (\<lambda>_. 0) 0 ''alice'' ''secret1'' empty_db = (None, db) \<and>
     handle_auth table_engine (\<lambda>_. 0) 0 3 (Some (encode_message Login ((''alice'' @ CHR 0x00 # ''admin'') @ CHR 0x0A # ''secret1'')))
       \<lparr>clients = [], sdb = db\<rparr> = (Success (''alice'' @ CHR 0x00 # ''admin''), \<lparr>clients = [], sdb = db'\<rparr>, log)"
proof -
  obtain db where r: "register_user table_engine (\<lambda>_. 0) 0 ''alice'' ''secret1'' empty_db = (None, db)"
    using empty_db_register by blast
  have op: "is_open empty_db" by (simp add: is_open_def empty_db_def)
  let ?h = "hash_password (generate_salt (\<lambda>_. 0)) ''secret1''"
  have "accounts (\<lambda>d. d) db (c_str ''alice'') = Some ?h"
    using register_user_law [OF table_engine_documented r] by simp
  moreover have "find_char ?h (CHR ''$'') \<noteq> None" by (simp add: find_char_None_iff hash_password_def)
  moreover have "password_matches ?h ''secret1''"
    using password_matches_hash [OF generate_salt_no_special(1), of "\<lambda>_. 0" "''secret1''" "''secret1''"] by simp
  ultimately have "fst (authenticate_user table_engine ''alice'' ''secret1'' db) = None"
    using authenticate_user_reliable [OF table_engine_reliable register_user_reliable(2) [OF table_engine_reliable op r], of "''alice''" "''secret1''"]
    by simp
  then obtain db' where a: "authenticate_user table_engine ''alice'' ''secret1'' (sdb \<lparr>clients = [], sdb = db\<rparr>) = (None, db')"
    by (metis prod.collapse server.select_convs(2))
  have t: "trim (''alice'' @ CHR 0x00 # ''admin'') = ''alice'' @ CHR 0x00 # ''admin''" by code_simp
  from login_name_after_nul [OF _ a _ _ t] r show ?thesis by auto
qed

section \<open>The list of rooms\<close>





end
