(* ===== verification/Server_Limits.thy ===== *)
theory Server_Limits
  imports Server_System
begin

text \<open>
  What fits into a frame. The server ignores the result of \<^verbatim>\<open>send_message\<close>, so a reply that exceeds
  the limit of the framing layer is lost without a word to the client.
\<close>

lemma length_encode_chat_message:
  "length (encode_chat_message m) = 16 + length (msg_room m) + length (msg_username m) + length (msg_content m)"
  by (simp add: encode_chat_message_def append_u16_def append_u32_def append_u64_def)

lemma length_encode_history:
  "length (encode_history ms) = 2 + (\<Sum>m\<leftarrow>ms. length (encode_chat_message m))"
proof -
  have "length (foldl (\<lambda>payload message. payload @ encode_chat_message message) out ms) =
      length out + (\<Sum>m\<leftarrow>ms. length (encode_chat_message m))" for out
    by (induction ms arbitrary: out) simp_all
  then show ?thesis by (simp add: encode_history_def append_u16_def)
qed

text \<open>A message with a name of a user or room as the server admits them, and a text as the client sends it.\<close>

definition ordinary_message :: "ChatMessage \<Rightarrow> bool" where
  "ordinary_message m \<longleftrightarrow>
     length (msg_room m) \<le> 44 \<and> length (msg_username m) \<le> 20 \<and> length (msg_content m) \<le> 512"

lemma ordinary_messages_length:
  "list_all ordinary_message ms \<Longrightarrow> (\<Sum>m\<leftarrow>ms. length (encode_chat_message m)) \<le> length ms * 592"
  by (induction ms) (auto simp: length_encode_chat_message ordinary_message_def)

text \<open>C36 (capacity). A history of up to 110 ordinary messages, so every replay on joining, fits into a frame. A
  longer one may not, although up to 200 can be asked for: if it does not fit, nothing at all is
  sent, and the server does not notice.\<close>

theorem history_reply_capacity:
  "(length ms \<le> 110 \<and> list_all ordinary_message ms \<longrightarrow>
      length (encode_message History (encode_history ms)) \<le> kMaxFramePayloadSize) \<and>
   (kMaxFramePayloadSize \<le> length (encode_history ms) \<longrightarrow>
      perform net [send_msg sock History (encode_history ms)] w = w)"
proof -
  have "length (encode_history ms) \<le> 2 + 110 * 592" if "length ms \<le> 110" "list_all ordinary_message ms"
    using ordinary_messages_length [OF that(2)] mult_le_mono1 [OF that(1), of 592]
    by (simp add: length_encode_history)
  then show ?thesis
    by (auto simp: send_msg_def send_frame_def encode_message_def kMaxFramePayloadSize_def)
qed

definition long_message :: ChatMessage where
  "long_message = \<lparr>msg_room = ''general'', msg_username = ''alice'', msg_content = replicate 512 (CHR ''x''),
     msg_timestamp = 0\<rparr>"

theorem history_reply_capacity_witness:
  "list_all ordinary_message (replicate 200 long_message) \<and>
   (\<forall>(net :: unit net) w. perform net [send_msg 3 History (encode_history (replicate 200 long_message))] w = w) \<and>
   length (encode_message History (encode_history (replicate 110 long_message))) \<le> kMaxFramePayloadSize"
proof -
  have o: "list_all ordinary_message (replicate n long_message)" for n
    by (simp add: list_all_iff ordinary_message_def long_message_def)
  have "length (encode_history (replicate 200 long_message)) = 2 + 200 * 540"
    by (simp add: length_encode_history length_encode_chat_message sum_list_replicate long_message_def)
  then have big: "kMaxFramePayloadSize \<le> length (encode_history (replicate 200 long_message))"
    by (simp add: kMaxFramePayloadSize_def)
  show ?thesis
    using o big history_reply_capacity [of "replicate 200 long_message" _ 3]
      history_reply_capacity [of "replicate 110 long_message" "undefined :: unit net" 3 "()"] by simp
qed

end
