(* ===== verification/Server_Main.thy ===== *)
theory Server_Main
  imports Server_System
begin

text \<open>
  \<^verbatim>\<open>main\<close> of chat_server.cpp: the arguments, the database, the listening socket and the accept
  loop. The socket calls it makes beside those of \<open>Framing\<close> are a further parameter. What it
  writes, the sockets it closes and the threads it starts are events in order. The preprocessor
  branches for Windows are not taken. SIGPIPE is ignored, so a send to a closed peer is an error
  result, as \<open>net_documented\<close> has it.
\<close>

section \<open>Console and clock\<close>

text \<open>\<^verbatim>\<open>console_color = ::isatty(STDOUT_FILENO) != 0\<close>, given the result of the call.\<close>

definition init_console_color :: "int \<Rightarrow> bool" where
  "init_console_color isatty_result \<longleftrightarrow> isatty_result \<noteq> 0"

text \<open>
  \<^verbatim>\<open>system_clock\<close> counts in a period of the implementation, \<open>per_second\<close> of them in a second;
  \<^verbatim>\<open>duration_cast\<close> truncates towards zero. The counts of the handlers are these values.
\<close>

definition now_seconds :: "int \<Rightarrow> int \<Rightarrow> i64" where
  "now_seconds per_second ticks = word_of_int (sgn ticks * (\<bar>ticks\<bar> div per_second))"

section \<open>The calls of main\<close>

definition SOCKET_ERROR :: int where
  "SOCKET_ERROR = -1"

text \<open>
  \<open>os_bind w s port\<close> binds to all interfaces (\<^verbatim>\<open>INADDR_ANY\<close>); the port is the value before
  \<^verbatim>\<open>htons\<close>.
\<close>

record 'w listen_net =
  os_socket :: "'w \<Rightarrow> SOCKET \<times> 'w"
  os_bind :: "'w \<Rightarrow> SOCKET \<Rightarrow> u16 \<Rightarrow> int \<times> 'w"
  os_listen :: "'w \<Rightarrow> SOCKET \<Rightarrow> int \<times> 'w"
  os_close :: "'w \<Rightarrow> SOCKET \<Rightarrow> 'w"

datatype server_event =
    Out string
  | Err string
  | Closed SOCKET
  | Listening SOCKET int
  | Spawn SOCKET

definition server_log :: "bool \<Rightarrow> string \<Rightarrow> server_event" where
  "server_log console_color text = Out (server_log_line console_color text @ ''\<newline>'')"

definition server_port :: "string list \<Rightarrow> int option" where
  "server_port args = (if length args > 1 then atoi (args ! 1) else Some kDefaultPort)"

definition server_db_path :: "string list \<Rightarrow> string" where
  "server_db_path args = (if length args > 2 then args ! 2 else kDefaultDbPath)"

text \<open>
  The part of \<^verbatim>\<open>main\<close> up to the accept loop. \<open>Inl code\<close> is a return from \<^verbatim>\<open>main\<close>, \<open>Inr\<close> holds the
  listening socket and the database of the loop. None is an undefined \<^verbatim>\<open>atoi\<close>. \<open>args\<close> is
  \<^verbatim>\<open>argv\<close> with the program's name at its head.
\<close>

definition server_startup ::
    "'w listen_net \<Rightarrow> 'd sqlite \<Rightarrow> int \<Rightarrow> string list \<Rightarrow> 'w \<Rightarrow>
     (server_event list \<times> 'w \<times> (int + SOCKET \<times> 'd ChatDatabase)) option" where
  "server_startup os e isatty_result args w =
     (let console_color = init_console_color isatty_result; db_path = server_db_path args
      in case server_port args of
           None \<Rightarrow> None
         | Some port \<Rightarrow> Some
             (if port < 1 \<or> port > 65535
              then ([Err (''Invalid port: '' @ to_string port @ ''\<newline>'')], w, Inl 1)
              else
                (case db_open e (ChatDatabase_new db_path) of
                   (opened, db) \<Rightarrow>
                     if \<not> opened
                     then ([Err (''Failed to open history database at '' @ quoted db_path @ ''.\<newline>'')], w, Inl 1)
                     else
                       (let ready = server_log console_color (''history database ready: '' @ db_path)
                        in case os_socket os w of
                             (server_socket, w) \<Rightarrow>
                               if server_socket = INVALID_SOCKET
                               then ([ready, Err ''Failed to create socket\<newline>''], w, Inl 1)
                               else
                                 (case os_bind os w server_socket (word_of_int port) of
                                    (bound, w) \<Rightarrow>
                                      if bound = SOCKET_ERROR
                                      then ([ready, Err (''Bind failed on port '' @ to_string port @ ''\<newline>''),
                                             Closed server_socket], os_close os w server_socket, Inl 1)
                                      else
                                        (case os_listen os w server_socket of
                                           (listened, w) \<Rightarrow>
                                             if listened = SOCKET_ERROR
                                             then ([ready, Err ''Listen failed\<newline>'', Closed server_socket],
                                                   os_close os w server_socket, Inl 1)
                                             else
                                               ([ready, Listening server_socket port,
                                                 Out ''C++ Chat Server v2.0\<newline>'',
                                                 Out (''Listening on 0.0.0.0:'' @ to_string port @
                                                      ''  (history db: '' @ db_path @ '')\<newline>'')],
                                                w, Inr (server_socket, db))))))))"

text \<open>
  The loop never ends; the model runs it on the results of \<^verbatim>\<open>accept\<close> so far. A failed one is
  reported and the loop goes on.
\<close>

fun accept_loop :: "SOCKET list \<Rightarrow> server_event list" where
  "accept_loop [] = []"
| "accept_loop (client_socket # later) =
     (if client_socket = INVALID_SOCKET then Err ''Accept failed\<newline>'' # accept_loop later
      else Spawn client_socket # accept_loop later)"

definition server_main ::
    "'w listen_net \<Rightarrow> 'd sqlite \<Rightarrow> int \<Rightarrow> string list \<Rightarrow> SOCKET list \<Rightarrow> 'w \<Rightarrow>
     (server_event list \<times> int option) option" where
  "server_main os e isatty_result args accepted w =
     (case server_startup os e isatty_result args w of
        None \<Rightarrow> None
      | Some (events, w, Inl code) \<Rightarrow> Some (events, Some code)
      | Some (events, w, Inr (server_socket, db)) \<Rightarrow> Some (events @ accept_loop accepted, None))"

section \<open>What a start leads to\<close>





lemma accept_loop_spawns:
  "filter (\<lambda>ev. \<exists>s. ev = Spawn s) (accept_loop rs) = map Spawn (filter (\<lambda>s. s \<noteq> INVALID_SOCKET) rs)"
  by (induction rs) auto

end
