(* ===== verification/Client_View.thy ===== *)
theory Client_View
  imports Wire_Codec Cpp_String
begin

text \<open>
  The terminal half of chat_client.cpp: colours, the prompt, and the lines it prints for chat
  messages, histories and direct messages. What the code writes to \<^verbatim>\<open>std::cout\<close> is the string a
  function returns. The flag \<^verbatim>\<open>g_color\<close> is set once at the start and is an argument; the local
  time of \<^verbatim>\<open>format_time\<close> depends on the time zone of the host and is the parameter \<open>fmt\<close>.
  String literals with characters outside ASCII are given by their UTF-8 bytes.
\<close>

section \<open>White space and user names\<close>

text \<open>
  The client has its own \<^verbatim>\<open>trim\<close> and \<^verbatim>\<open>valid_username\<close>; they agree with those of the server, so a
  name the client accepts is one the server accepts.
\<close>

definition client_trim :: "string \<Rightarrow> string" where
  "client_trim text =
     (case find_first_not_of text ws of
        None \<Rightarrow> ''''
      | Some begin_pos \<Rightarrow>
          (case find_last_not_of text ws of
             None \<Rightarrow> substr_from text begin_pos
           | Some end_pos \<Rightarrow> substr text begin_pos (end_pos - begin_pos + 1)))"

fun username_chars_ok :: "string \<Rightarrow> bool" where
  "username_chars_ok [] = True"
| "username_chars_ok (c # rest) =
     (if \<not> isalnum c \<and> c \<noteq> CHR ''_'' \<and> c \<noteq> CHR ''-'' then False else username_chars_ok rest)"

definition client_valid_username :: "string \<Rightarrow> bool" where
  "client_valid_username username =
     (if length username < 3 \<or> length username > 20 then False else username_chars_ok username)"

lemma client_trim_eq [simp]: "client_trim = trim"
  by (rule ext) (simp add: client_trim_def trim_def split: option.splits)

lemma client_valid_username_eq [simp]: "client_valid_username = valid_username"
proof
  fix u
  have "username_chars_ok u \<longleftrightarrow> (\<forall>c\<in>set u. \<not> (\<not> isalnum c \<and> c \<noteq> CHR ''_'' \<and> c \<noteq> CHR ''-''))"
    by (induction u) auto
  then show "client_valid_username u = valid_username u"
    by (simp add: client_valid_username_def valid_username_def)
qed

section \<open>Colours\<close>

definition esc :: "string \<Rightarrow> string" where
  "esc code = CHR 0x1B # ''['' @ code"

definition kReset :: string where "kReset = esc ''0m''"
definition kDim :: string where "kDim = esc ''2m''"
definition kRed :: string where "kRed = esc ''31m''"
definition kYellow :: string where "kYellow = esc ''33m''"
definition kCyan :: string where "kCyan = esc ''36m''"
definition kGray :: string where "kGray = esc ''90m''"
definition kBoldCyan :: string where "kBoldCyan = esc ''1;36m''"
definition kBoldGreen :: string where "kBoldGreen = esc ''1;32m''"
definition kBoldRed :: string where "kBoldRed = esc ''1;31m''"
definition kBoldYellow :: string where "kBoldYellow = esc ''1;33m''"
definition kMagenta :: string where "kMagenta = esc ''35m''"
definition kBoldMagenta :: string where "kBoldMagenta = esc ''1;35m''"

definition colored :: "bool \<Rightarrow> string \<Rightarrow> string \<Rightarrow> string" where
  "colored color code text = (if \<not> color then text else code @ text @ kReset)"

definition kPalette :: "string list" where
  "kPalette = [esc ''1;36m'', esc ''1;33m'', esc ''1;35m'', esc ''1;32m'',
     esc ''1;34m'', esc ''1;91m'', esc ''93m'', esc ''96m'']"

text \<open>\<^verbatim>\<open>hash = hash * 31 + c\<close> on \<^verbatim>\<open>unsigned int\<close> wraps at \<open>2 ^ 32\<close>.\<close>

definition username_hash :: "string \<Rightarrow> u32" where
  "username_hash username = foldl (\<lambda>hash c. hash * 31 + ucast (u8_of_char c)) 0 username"

definition username_color :: "bool \<Rightarrow> string \<Rightarrow> string" where
  "username_color color username =
     (if \<not> color then '''' else kPalette ! (unat (username_hash username) mod length kPalette))"

section \<open>Prompt and lines\<close>

definition build_prompt :: "bool \<Rightarrow> string \<Rightarrow> string \<Rightarrow> string" where
  "build_prompt color g_username g_room =
     (let room = (if g_room = [] then ''connecting'' else g_room);
          prompt = colored color kBoldCyan (''['' @ room @ '']'');
          prompt = (if g_username \<noteq> []
                    then prompt @ '' '' @ username_color color g_username @ g_username @ colored color kReset ''''
                    else prompt)
      in prompt @ colored color kBoldGreen ''> '')"

definition print_message :: "bool \<Rightarrow> string \<Rightarrow> string" where
  "print_message color line =
     (if color then CHR 0x0D # esc ''K'' @ line @ ''\<newline>'' else line @ ''\<newline>'')"

definition history_mark :: string where
  "history_mark = [CHR 0xE2, CHR 0x80, CHR 0xBA, CHR '' '']"

definition envelope :: string where
  "envelope = [CHR 0xE2, CHR 0x9C, CHR 0x89, CHR '' '']"

definition arrow :: string where
  "arrow = [CHR '' '', CHR 0xE2, CHR 0x86, CHR 0x92, CHR '' '']"

definition dash :: string where
  "dash = [CHR 0xE2, CHR 0x80, CHR 0x94]"

definition dm_label :: "string \<Rightarrow> string \<Rightarrow> string \<Rightarrow> string" where
  "dm_label g_username sender other =
     (if sender = g_username then ''you'' @ arrow @ other else sender @ arrow @ ''you'')"

text \<open>
  In the branch for a stored direct message, \<^verbatim>\<open>split\<close> is the second colon of the key; without
  one the unsigned \<^verbatim>\<open>split - 3\<close> is past the end and \<^verbatim>\<open>substr\<close> takes the rest.
\<close>

definition print_chat_message ::
    "bool \<Rightarrow> (i64 \<Rightarrow> string) \<Rightarrow> string \<Rightarrow> ChatMessage \<Rightarrow> bool \<Rightarrow> string" where
  "print_chat_message color fmt g_username message from_history =
     (let lead = (if from_history then colored color kGray history_mark else '''');
          time = colored color kGray (''['' @ fmt (msg_timestamp message) @ '']'');
          body = (if from_history then colored color kDim (msg_content message) else msg_content message)
      in if starts_with (msg_room message) ''dm:''
         then
           (let split = find_char_from (msg_room message) (CHR '':'') 3;
                user_a = (case split of
                            None \<Rightarrow> substr_from (msg_room message) 3
                          | Some p \<Rightarrow> substr (msg_room message) 3 (p - 3));
                user_b = (case split of None \<Rightarrow> '''' | Some p \<Rightarrow> substr_from (msg_room message) (p + 1));
                other = (if user_a = g_username then user_b else user_a);
                tag = colored color kBoldMagenta envelope;
                label = colored color kMagenta (dm_label g_username (msg_username message) other)
            in print_message color (lead @ time @ '' '' @ tag @ label @ '': '' @ body))
         else
           (let room = colored color kCyan (''['' @ msg_room message @ '']'');
                name = username_color color (msg_username message) @ msg_username message @
                         colored color kReset ''''
            in print_message color (lead @ time @ '' '' @ room @ '' '' @ name @ '': '' @ body)))"

definition print_history ::
    "bool \<Rightarrow> (i64 \<Rightarrow> string) \<Rightarrow> string \<Rightarrow> ChatMessage list \<Rightarrow> string list" where
  "print_history color fmt g_username messages =
     map (\<lambda>message. print_chat_message color fmt g_username message True) messages @
     [print_message color (colored color kGray
        (dash @ '' loaded '' @ to_string (int (length messages)) @ '' message(s) '' @ dash))]"

definition print_direct :: "bool \<Rightarrow> (i64 \<Rightarrow> string) \<Rightarrow> string \<Rightarrow> DirectMessage \<Rightarrow> string" where
  "print_direct color fmt g_username message =
     (let time = colored color kGray (''['' @ fmt (dm_timestamp message) @ '']'');
          arrow_text = (if dm_from message = g_username then ''you'' @ arrow @ dm_to message
                        else dm_from message @ arrow @ ''you'')
      in print_message color (time @ '' '' @ colored color kBoldMagenta envelope @
           colored color kMagenta arrow_text @ '': '' @ dm_content message))"

fun join_names :: "string list \<Rightarrow> string" where
  "join_names [] = ''''"
| "join_names [name] = name"
| "join_names (name # names) = name @ '', '' @ join_names names"

definition users_line :: "string list \<Rightarrow> string" where
  "users_line names = ''Online'' @ (if names = [] then '': (none)'' else '': '' @ join_names names)"

definition print_help :: "bool \<Rightarrow> string list" where
  "print_help color =
     map (print_message color)
       [colored color kBoldCyan ''Commands:'',
        ''  '' @ colored color kBoldYellow ''/join <room>'' @ ''      switch to a room (history is replayed)'',
        ''  '' @ colored color kBoldYellow ''/history [N]'' @ ''     show the last N messages (default 50)'',
        ''  '' @ colored color kBoldYellow ''/rooms'' @ ''           list rooms with online user counts'',
        ''  '' @ colored color kBoldYellow ''/msg <user> <text>'' @ ''  send a direct message (alias /w)'',
        ''  '' @ colored color kBoldYellow ''/who [room]'' @ ''      list online users in a room (default current)'',
        ''  '' @ colored color kBoldYellow ''/dmhistory <user> [N]'' @ '' show the last N direct messages with a user'',
        ''  '' @ colored color kBoldYellow ''/help'' @ ''            show this help'',
        ''  '' @ colored color kBoldYellow ''/quit'' @ '', /q or exit  leave the chat'',
        ''  anything else     is sent as a chat message'']"

section \<open>Facts\<close>

lemma colored_plain [simp]: "colored False code t = t"
  by (simp add: colored_def)

lemma username_color_in_palette: "color \<Longrightarrow> username_color color u \<in> set kPalette"
  by (simp add: username_color_def kPalette_def nth_mem del: set_simps nth_Cons')

text \<open>The history of two users is shown to each of them under the name of the other.\<close>

lemma dm_key_parts:
  assumes "CHR '':'' \<notin> set a"
  shows "find_char_from (''dm:'' @ a @ '':'' @ b) (CHR '':'') 3 = Some (3 + length a)"
  using find_char_first [OF assms, of b] by (simp add: find_char_from_def find_char_def)

end
