(* ===== verification/Client_Session.thy ===== *)
theory Client_Session
  imports Client_View Framing
begin

text \<open>
  The session half of chat_client.cpp: the receive thread, the login dialogue and the command
  loop. The globals are a record; what a part of the code prints and sends is the list of its
  effects in order. The two threads share the flags, so the waits of the main thread take what the
  receive thread has made of the flags by then as an argument.
\<close>

record client =
  g_connected :: bool
  g_authenticated :: bool
  g_auth_failed :: bool
  g_username :: string
  g_room :: string

datatype client_effect =
    Print string
  | Send MsgType string

section \<open>The receive thread\<close>

text \<open>The body of the loop over the frames: the new globals and the lines printed.\<close>

definition handle_server_frame ::
    "bool \<Rightarrow> (i64 \<Rightarrow> string) \<Rightarrow> string \<Rightarrow> client \<Rightarrow> client \<times> string list" where
  "handle_server_frame color fmt frame st =
     (case decode_message frame of
        None \<Rightarrow> (st, [])
      | Some (type, payload) \<Rightarrow>
          (case type of
             AuthOk \<Rightarrow>
               (case find_char payload (CHR 0x0A) of
                  Some separator \<Rightarrow>
                    (st\<lparr>g_username := substr payload 0 separator, g_room := substr_from payload (separator + 1),
                        g_authenticated := True\<rparr>, [])
                | None \<Rightarrow>
                    (st\<lparr>g_username := payload, g_room := payload, g_authenticated := True\<rparr>, []))
           | AuthFail \<Rightarrow>
               (st\<lparr>g_auth_failed := True\<rparr>,
                [print_message color (colored color kBoldRed [CHR 0xE2, CHR 0x9C, CHR 0x97, CHR '' ''] @
                   colored color kRed payload)])
           | System \<Rightarrow> (st, [print_message color (colored color kCyan ''* '' @ payload)])
           | ChatMsg \<Rightarrow>
               (case decode_chat_message payload of
                  Some message \<Rightarrow> (st, [print_chat_message color fmt (g_username st) message False])
                | None \<Rightarrow> (st, []))
           | History \<Rightarrow>
               (case decode_history payload of
                  Some messages \<Rightarrow> (st, print_history color fmt (g_username st) messages)
                | None \<Rightarrow> (st, []))
           | Joined \<Rightarrow>
               (st\<lparr>g_room := payload\<rparr>,
                [print_message color (colored color kBoldYellow ''* '' @
                   colored color kYellow (''You are now in room '' @ CHR 0x27 # payload @ CHR 0x27 # ''.''))])
           | DirectMsg \<Rightarrow>
               (case decode_direct_message payload of
                  Some message \<Rightarrow> (st, [print_direct color fmt (g_username st) message])
                | None \<Rightarrow> (st, []))
           | UsersList \<Rightarrow>
               (case decode_user_list payload of
                  Some names \<Rightarrow> (st, [print_message color (colored color kCyan ''* '' @ users_line names)])
                | None \<Rightarrow> (st, []))
           | _ \<Rightarrow> (st, [])))"

fun handle_server_frames ::
    "bool \<Rightarrow> (i64 \<Rightarrow> string) \<Rightarrow> string list \<Rightarrow> client \<Rightarrow> client \<times> string list" where
  "handle_server_frames color fmt [] st = (st, [])"
| "handle_server_frames color fmt (frame # frames) st =
     (if \<not> g_connected st then (st, [])
      else (case handle_server_frame color fmt frame st of
              (st, out) \<Rightarrow>
                (case handle_server_frames color fmt frames st of (st, out') \<Rightarrow> (st, out @ out'))))"

text \<open>
  \<^verbatim>\<open>receive_messages\<close> on the sequence of the results of \<^verbatim>\<open>recv\<close>; no bytes stand for a result of
  0 or less. The list ends where the thread still waits.
\<close>

fun receive_messages ::
    "bool \<Rightarrow> (i64 \<Rightarrow> string) \<Rightarrow> u8 list \<Rightarrow> u8 list list \<Rightarrow> client \<Rightarrow> client \<times> string list" where
  "receive_messages color fmt pending [] st = (st, [])"
| "receive_messages color fmt pending (bytes # later) st =
     (if \<not> g_connected st then (st, [])
      else if bytes = []
      then (st\<lparr>g_connected := False\<rparr>, [print_message color (colored color kBoldRed ''Disconnected from server.'')])
      else
        (case extract_frames (pending @ bytes) [] of
           (ok, pending, frames) \<Rightarrow>
             if \<not> ok
             then (st\<lparr>g_connected := False\<rparr>,
                   [print_message color (colored color kBoldRed ''Server sent an invalid frame.'')])
             else
               (case handle_server_frames color fmt frames st of
                  (st, out) \<Rightarrow>
                    (case receive_messages color fmt pending later st of (st, out') \<Rightarrow> (st, out @ out')))))"

section \<open>Standard input\<close>

text \<open>
  \<^verbatim>\<open>std::getline(std::cin, line)\<close> on the rest of the input: None when nothing is left, otherwise
  the line, the new rest and whether the end of the input was reached (\<^verbatim>\<open>eof()\<close>).
\<close>

definition getline :: "string \<Rightarrow> (string \<times> string \<times> bool) option" where
  "getline input =
     (if input = [] then None
      else (case find_char input (CHR 0x0A) of
              None \<Rightarrow> Some (input, [], True)
            | Some i \<Rightarrow> Some (substr input 0 i, substr_from input (i + 1), False)))"

section \<open>The command loop\<close>

text \<open>
  The body of the loop of \<^verbatim>\<open>main\<close> on one line: what it prints and sends, and whether the loop
  goes on.
\<close>

definition dispatch_input :: "bool \<Rightarrow> string \<Rightarrow> client_effect list \<times> bool" where
  "dispatch_input color input =
     (if input = ''exit'' \<or> input = ''/quit'' \<or> input = ''/q'' then ([Send Quit ''''], False)
      else if input = ''/help'' then (map Print (print_help color), True)
      else if starts_with input ''/join '' then ([Send Join (client_trim (substr_from input 6))], True)
      else if starts_with input ''/history'' then ([Send HistoryReq (client_trim (substr_from input 8))], True)
      else if input = ''/rooms'' then ([Send RoomsReq ''''], True)
      else if starts_with input ''/msg '' \<or> starts_with input ''/w '' then
        (let rest = client_trim (substr_from input (if input ! 1 = CHR ''w'' then 3 else 5))
         in (case find_char rest (CHR '' '') of
               None \<Rightarrow> ([Print (print_message color (colored color kRed ''Usage: /msg <user> <message>''))], True)
             | Some space \<Rightarrow>
                 if substr rest 0 space = [] \<or> client_trim (substr_from rest (space + 1)) = []
                 then ([Print (print_message color (colored color kRed ''Usage: /msg <user> <message>''))], True)
                 else
                   (let target = substr rest 0 space;
                        content = client_trim (substr_from rest (space + 1))
                    in ([Send Direct (target @ ''\<newline>'' @ content)], True))))
      else if input = ''/who'' \<or> starts_with input ''/who '' then
        (let room_arg = (if length input > 4 then client_trim (substr_from input 4) else '''')
         in ([Send UsersReq room_arg], True))
      else if starts_with input ''/dmhistory '' then
        (let rest = client_trim (substr_from input 11)
         in if rest = []
            then ([Print (print_message color (colored color kRed ''Usage: /dmhistory <user> [N]''))], True)
            else ([Send HistoryReq (CHR ''@'' # rest)], True))
      else if length input > 512
      then ([Print (print_message color (colored color kRed ''Message is too long (max 512 characters).''))], True)
      else ([Send Chat input], True))"

definition chat_line :: "bool \<Rightarrow> string \<Rightarrow> client_effect list \<times> bool" where
  "chat_line color line =
     (let input = client_trim line in if input = [] then ([], True) else dispatch_input color input)"

text \<open>
  The loop. \<open>view n\<close> holds the globals as the receive thread has left them when the loop is entered
  for the \<open>n\<close>-th time.
\<close>

function chat_loop :: "bool \<Rightarrow> (nat \<Rightarrow> client) \<Rightarrow> nat \<Rightarrow> string \<Rightarrow> client_effect list" where
  "chat_loop color view n input =
     (if \<not> g_connected (view n) then []
      else
        Print (build_prompt color (g_username (view n)) (g_room (view n))) #
        (case getline input of
           None \<Rightarrow> []
         | Some (line, rest, eof) \<Rightarrow>
             (case chat_line color line of
                (effs, go_on) \<Rightarrow> effs @ (if go_on then chat_loop color view (n + 1) rest else []))))"
  by pat_completeness auto
termination
  by (relation "measure (\<lambda>(color, view, n, input). length input)")
    (auto simp: getline_def substr_from_def split: if_splits option.splits)

declare chat_loop.simps [simp del]

section \<open>The login dialogue\<close>

definition auth_menu :: "bool \<Rightarrow> client_effect list" where
  "auth_menu color =
     [Print (''  '' @ colored color kBoldCyan ''[1]'' @ '' Log in\<newline>''),
      Print (''  '' @ colored color kBoldCyan ''[2]'' @ '' Create a new account\<newline>''),
      Print (''  '' @ colored color kBoldCyan ''[q]'' @ '' Quit\<newline>''),
      Print ''Choose: '']"

text \<open>What the menu makes of a choice: a request, the end of the dialogue, or a new try.\<close>

datatype choice = Request MsgType | QuitDialogue | InvalidChoice

definition auth_choice :: "string \<Rightarrow> choice" where
  "auth_choice choice =
     (if choice = ''1'' \<or> choice = ''login'' then Request Login
      else if choice = ''2'' \<or> choice = ''register'' then Request Register
      else if choice = ''q'' \<or> choice = ''quit'' \<or> choice = ''exit'' then QuitDialogue
      else InvalidChoice)"

text \<open>The check of the credentials before they are sent; None lets them pass.\<close>

definition credentials_error :: "MsgType \<Rightarrow> string \<Rightarrow> string \<Rightarrow> string option" where
  "credentials_error request username password =
     (if request = Register \<and> \<not> client_valid_username username
      then Some ''Username must be 3-20 characters (letters, digits, '_' or '-').''
      else if request = Register \<and> length password < 6 then Some ''Password must be at least 6 characters.''
      else if username = [] then Some ''Username cannot be empty.''
      else None)"

text \<open>
  \<^verbatim>\<open>read_password\<close> without the terminal settings: the prompt, a line (empty at the end of the
  input), a newline; and the \<^verbatim>\<open>eof()\<close> the caller asks for.
\<close>

definition read_password :: "string \<Rightarrow> string \<Rightarrow> client_effect list \<times> string \<times> string \<times> bool" where
  "read_password prompt input =
     (case getline input of
        None \<Rightarrow> ([Print prompt, Print ''\<newline>''], '''', [], True)
      | Some (line, rest, eof) \<Rightarrow> ([Print prompt, Print ''\<newline>''], line, rest, eof))"

text \<open>
  \<^verbatim>\<open>authenticate\<close>. \<open>sent n\<close> is the result of the \<open>n\<close>-th \<^verbatim>\<open>send_message\<close> and \<open>wait n\<close> the globals
  when the wait for its answer ends, which needs one of the three flags. The result is the effects,
  the returned value (None while the dialogue waits for an answer that does not come) and the rest
  of the input.
\<close>

function authenticate ::
    "bool \<Rightarrow> (nat \<Rightarrow> bool) \<Rightarrow> (nat \<Rightarrow> client option) \<Rightarrow> nat \<Rightarrow> string \<Rightarrow>
     client_effect list \<times> bool option \<times> string" where
  "authenticate color sent wait n input =
     (case getline input of
        None \<Rightarrow> (auth_menu color, Some False, [])
      | Some (line, rest, eof) \<Rightarrow>
          (case auth_choice (client_trim line) of
             QuitDialogue \<Rightarrow> (auth_menu color @ [Print ''Goodbye.\<newline>''], Some False, rest)
           | InvalidChoice \<Rightarrow>
               (case authenticate color sent wait n rest of
                  (effs, result) \<Rightarrow>
                    (auth_menu color @ [Print (colored color kRed ''Invalid choice. Try again.'' @ ''\<newline>'')] @ effs, result))
           | Request request \<Rightarrow>
               (case getline rest of
                  None \<Rightarrow> (auth_menu color @ [Print ''Username: ''], Some False, [])
                | Some (line, rest, eof) \<Rightarrow>
                    (let username = client_trim line
                     in (case read_password ''Password: '' rest of
                           (asked, password, rest', eof) \<Rightarrow>
                             if eof then (auth_menu color @ Print ''Username: '' # asked, Some False, rest')
                             else
                               (case credentials_error request username password of
                                  Some reason \<Rightarrow>
                                    (case authenticate color sent wait n rest' of
                                       (effs, result) \<Rightarrow>
                                         (auth_menu color @ Print ''Username: '' # asked @
                                          [Print (print_message color (colored color kRed reason))] @ effs, result))
                                | None \<Rightarrow>
                                    (let effs = auth_menu color @ Print ''Username: '' # asked @
                                           [Print (colored color kGray
                                              (if request = Register then ''Creating account...''
                                               else ''Logging in...'') @ ''\<newline>'')]
                                     in if \<not> sent n
                                        then (effs @ [Print (print_message color
                                                (colored color kRed ''Failed to send credentials.''))], Some False, rest')
                                        else
                                          (let effs = effs @ [Send request (username @ ''\<newline>'' @ password)]
                                           in (case wait n of
                                                 None \<Rightarrow> (effs, None, rest')
                                               | Some st \<Rightarrow>
                                                   if g_auth_failed st
                                                   then (case authenticate color sent wait (n + 1) rest' of
                                                           (effs', result) \<Rightarrow> (effs @ effs', result))
                                                   else (effs, Some (g_authenticated st), rest'))))))))))"
  by pat_completeness auto
termination
  by (relation "measure (\<lambda>(color, sent, wait, n, input). length input)")
    (auto simp: getline_def read_password_def substr_from_def split: if_splits option.splits)

declare authenticate.simps [simp del]

end
