(* ===== verification/Client_Properties.thy ===== *)
theory Client_Properties
  imports Client_Session
begin

text \<open>
  What the client guarantees: it renders the frames of the server in order however the stream is
  cut, sends only requests the server can parse back to what the user typed, and shows stored
  direct messages under the right name. The last section has the commands it misreads.
\<close>

section \<open>Receiving\<close>

lemma handle_server_frame_connected [simp]:
  "g_connected (fst (handle_server_frame color fmt frame st)) = g_connected st"
  by (simp add: handle_server_frame_def split: option.split MsgType.split)

lemma handle_server_frames_append:
  "handle_server_frames color fmt (fs @ gs) st =
     (case handle_server_frames color fmt fs st of
        (st', out) \<Rightarrow> (case handle_server_frames color fmt gs st' of (st'', out') \<Rightarrow> (st'', out @ out')))"
proof (induction fs arbitrary: st)
  case (Cons f fs)
  show ?case
  proof (cases "g_connected st")
    case False
    then show ?thesis by (cases gs) auto
  next
    case True
    then show ?thesis by (simp add: Cons.IH split: prod.splits)
  qed
qed (simp split: prod.splits)

lemma handle_server_frames_connected [simp]:
  "g_connected (fst (handle_server_frames color fmt fs st)) = g_connected st"
proof (induction fs arbitrary: st)
  case (Cons f fs)
  obtain st1 out1 where h: "handle_server_frame color fmt f st = (st1, out1)" by fastforce
  then have "g_connected st1 = g_connected st"
    using handle_server_frame_connected [of color fmt f st] by simp
  with h Cons.IH [of st1] show ?case by (simp split: prod.split) (metis fst_conv)
qed simp

lemma receive_messages_feed:
  assumes "g_connected st" and "[] \<notin> set pieces" and "feed extract_stream pending pieces = (ms, rest, True)"
  shows "receive_messages color fmt pending pieces st = handle_server_frames color fmt ms st"
  using assms
proof (induction pieces arbitrary: pending ms st)
  case (Cons piece pieces)
  obtain fs rest' ok where x: "extract_stream (pending @ piece) = (fs, rest', ok)"
    by (cases "extract_stream (pending @ piece)")
  with Cons.prems(3) have ok: ok by (auto split: if_splits)
  with x Cons.prems(3) obtain ms' where f: "feed extract_stream rest' pieces = (ms', rest, True)"
    and ms: "ms = fs @ ms'" by (auto split: prod.splits)
  obtain st' out where h: "handle_server_frames color fmt fs st = (st', out)" by fastforce
  then have c: "g_connected st'"
    using handle_server_frames_connected [of color fmt fs st] Cons.prems(1) by simp
  have e: "extract_frames (pending @ piece) [] = (True, rest', fs)"
    using x ok by (auto simp: extract_stream_def split: prod.splits)
  have "receive_messages color fmt rest' pieces st' = handle_server_frames color fmt ms' st'"
    using Cons.IH [OF c _ f] Cons.prems(2) by simp
  moreover have "piece \<noteq> []" using Cons.prems(2) by auto
  ultimately show ?case using e h ms Cons.prems(1)
    by (simp add: handle_server_frames_append)
qed simp

text \<open>C34 (receive). However TCP cuts the frames of the server into pieces, the client ends in the state and
  prints the lines that handling the frames one by one, in the order sent, gives.\<close>

theorem client_renders_any_cut:
  assumes "list_all (\<lambda>p. length p \<le> kMaxFramePayloadSize) ps" and "concat pieces = wire_bytes ps"
    and "[] \<notin> set pieces" and "g_connected st"
  shows "receive_messages color fmt [] pieces st = handle_server_frames color fmt ps st"
proof -
  have "extract_stream (wire_bytes ps) = (ps, [], True)"
    using split_frames_wire [OF assms(1), of "[]"] by (simp add: extract_stream_eq split_frames_short)
  then have "feed extract_stream [] pieces = (ps, [], True)"
    using frames.feed_whole [of pieces] assms(2) by simp
  then show ?thesis by (rule receive_messages_feed [OF assms(4,3)])
qed

definition demo_client :: client where
  "demo_client = \<lparr>g_connected = True, g_authenticated = False, g_auth_failed = False,
     g_username = '''', g_room = ''''\<rparr>"

lemma client_renders_any_cut_witness:
  "receive_messages False (\<lambda>_. '''') [] [[0, 0], [0, 3, 5], [72, 105]] demo_client =
     (demo_client, [''* Hi\<newline>''])"
proof -
  have "receive_messages False (\<lambda>_. '''') [] [[0, 0], [0, 3, 5], [72, 105]] demo_client =
      handle_server_frames False (\<lambda>_. '''') [encode_message System ''Hi''] demo_client"
  proof (rule client_renders_any_cut)
    have "u8_of_char (CHR ''H'') = 72" "u8_of_char (CHR ''i'') = 105" by code_simp+
    then show "concat [[0, 0], [0, 3, 5], [72, 105]] = wire_bytes [encode_message System ''Hi'']"
      by (simp add: frame_bytes_def length_header_def be_split_def comp_def upt_rec encode_message_def)
  qed (simp_all add: encode_message_def kMaxFramePayloadSize_def demo_client_def)
  moreover have "decode_message (encode_message System ''Hi'') = Some (System, ''Hi'')"
    by (rule decode_message_encode) (simp add: msg_types_def)
  ultimately show ?thesis
    by (simp add: demo_client_def handle_server_frame_def print_message_def)
qed

section \<open>What the user types\<close>

section \<open>What the user types\<close>

lemma starts_with_drop: "starts_with s p \<Longrightarrow> s = p @ drop (length p) s"
  by (metis append_take_drop_id starts_with_def)

lemma starts_with_length: "starts_with s p \<Longrightarrow> length p \<le> length s"
  by (metis length_take min.absorb_iff1 min.cobounded1 nle_le starts_with_def)

text \<open>The ways a line is turned into a request.\<close>

lemma dispatch_direct:
  assumes "(Send Direct p) \<in> set (fst (dispatch_input color input))"
  obtains rest space where "rest = trim (substr_from input (if input ! 1 = CHR ''w'' then 3 else 5))"
    "find_char rest (CHR '' '') = Some space" "substr rest 0 space \<noteq> []"
    "trim (substr_from rest (space + 1)) \<noteq> []"
    "p = substr rest 0 space @ ''\<newline>'' @ trim (substr_from rest (space + 1))"
  using assms unfolding dispatch_input_def Let_def
  by (auto simp: print_help_def split: if_splits option.splits)

lemma dispatch_chat:
  assumes "(Send Chat p) \<in> set (fst (dispatch_input color input))"
  shows "p = input \<and> length input \<le> 512"
  using assms unfolding dispatch_input_def Let_def
  by (auto simp: print_help_def split: if_splits option.splits)

text \<open>A chat message the client sends is a line as the user typed it, without the white space
  around it, not empty and at most 512 bytes long; its frame is always within the limit of the
  framing layer.\<close>

theorem chat_line_sends_text:
  assumes "(Send Chat p) \<in> set (fst (chat_line color line))"
  shows "p = trim line \<and> p \<noteq> [] \<and> length p \<le> 512 \<and>
    length (encode_message Chat p) \<le> kMaxFramePayloadSize"
  using assms dispatch_chat [of p color "trim line"]
  by (auto simp: chat_line_def Let_def encode_message_def kMaxFramePayloadSize_def split: if_splits)

lemma chat_line_sends_text_witness:
  "length (encode_message Chat ''hello'') \<le> kMaxFramePayloadSize"
proof -
  have "(Send Chat ''hello'') \<in> set (fst (chat_line False ''  hello ''))" by code_simp
  from chat_line_sends_text [OF this] show ?thesis by (elim conjE)
qed

text \<open>The parts of a direct message the user types.\<close>

lemma chat_line_direct:
  assumes "(Send Direct p) \<in> set (fst (chat_line color line))" and "CHR 0x0A \<notin> set line"
  obtains target content where "p = target @ CHR 0x0A # content" "target \<noteq> []" "content \<noteq> []"
    "trim content = content" "trim target \<noteq> []" "CHR 0x0A \<notin> set target" "length p \<le> length line"
proof -
  let ?input = "trim line"
  from assms(1) have "(Send Direct p) \<in> set (fst (dispatch_input color ?input))"
    by (auto simp: chat_line_def Let_def split: if_splits)
  then obtain rest space where rest: "rest = trim (substr_from ?input (if ?input ! 1 = CHR ''w'' then 3 else 5))"
    and sp: "find_char rest (CHR '' '') = Some space" and t: "substr rest 0 space \<noteq> []"
    and c: "trim (substr_from rest (space + 1)) \<noteq> []"
    and p: "p = substr rest 0 space @ ''\<newline>'' @ trim (substr_from rest (space + 1))"
    by (rule dispatch_direct)
  let ?t = "substr rest 0 space" and ?c = "trim (substr_from rest (space + 1))"
  have "set rest \<subseteq> set line"
    using rest set_trim_subset [of line] set_trim_subset
    by (metis set_drop_subset substr_from_def subset_trans)
  then have nl: "CHR 0x0A \<notin> set ?t"
    using assms(2) by (auto simp: substr_def dest: in_set_takeD)
  have "rest \<noteq> []" using t by (auto simp: substr_def)
  then have "hd rest \<notin> set ws" using rest trim_ends by metis
  moreover have "hd ?t = hd rest" using t by (cases rest; cases space) (auto simp: substr_def)
  ultimately have "hd ?t \<notin> set ws" by simp
  then have tt: "trim ?t \<noteq> []" using t by (metis hd_in_set subsetD trim_Nil_iff)
  have "length rest \<le> length line"
    using rest length_trim_le [of line] length_trim_le [of "substr_from ?input (if ?input ! 1 = CHR ''w'' then 3 else 5)"]
    by (simp add: substr_from_def)
  moreover have "length ?c \<le> length rest - (space + 1)"
    using length_trim_le [of "substr_from rest (space + 1)"] by (simp add: substr_from_def)
  moreover have "space < length rest" by (rule find_char_less [OF sp])
  ultimately have "length p \<le> length line" using p by (simp add: substr_def)
  with p t c tt nl show ?thesis by (intro that [of ?t ?c]) simp_all
qed

text \<open>What the user types as \<^verbatim>\<open>/msg <user> <text>\<close> reaches the handler of the server as it was
  meant: the server finds the separator, both parts are non-empty, the name it looks up is the one
  typed and the text is the one typed.\<close>

theorem direct_command_round_trip:
  assumes "(Send Direct p) \<in> set (fst (chat_line color line))" and "CHR 0x0A \<notin> set line"
  shows "\<exists>target content. target \<noteq> [] \<and> content \<noteq> [] \<and> trim content = content \<and>
    p = target @ CHR 0x0A # content \<and> find_char p (CHR 0x0A) = Some (length target) \<and>
    trim (substr p 0 (length target)) = trim target \<and> trim target \<noteq> [] \<and>
    trim (substr_from p (length target + 1)) = content"
  using assms
  by (rule chat_line_direct)
    (auto simp: find_char_first substr_def substr_from_def intro!: exI)

lemma direct_command_round_trip_witness:
  "\<exists>target content. ''bob\<newline>hi there'' = target @ CHR 0x0A # content \<and> trim target \<noteq> [] \<and>
     trim (substr_from ''bob\<newline>hi there'' (length target + 1)) = content"
proof -
  have "(Send Direct ''bob\<newline>hi there'') \<in> set (fst (chat_line False ''/msg bob  hi there''))" by code_simp
  moreover have "CHR 0x0A \<notin> set ''/msg bob  hi there''" by simp
  ultimately show ?thesis using direct_command_round_trip by blast
qed

section \<open>Credentials\<close>

lemma getline_Some:
  assumes "getline input = Some (line, rest, eof)"
  shows "CHR 0x0A \<notin> set line" and "length rest < length input"
  using assms find_char_split(2) [of input "CHR 0x0A"] find_char_less [of input "CHR 0x0A"]
  by (auto simp: getline_def find_char_None_iff substr_def substr_from_def split: if_splits option.splits)

lemma read_password_no_newline:
  "read_password prompt input = (asked, password, rest, eof) \<Longrightarrow> CHR 0x0A \<notin> set password"
  using getline_Some(1) by (auto simp: read_password_def split: option.splits)

text \<open>Where a request of the dialogue comes from: a later round, or the credentials of this one.\<close>

lemma authenticate_round:
  assumes "Send t p \<in> set (fst (authenticate color sent wait n input))"
  obtains (later) n' rest where "length rest < length input"
      "Send t p \<in> set (fst (authenticate color sent wait n' rest))"
  | (now) line u i j pw rest asked k c where "getline i = Some (line, j)" "u = trim line"
      "read_password ''Password: '' rest = (asked, pw, k)" "p = u @ CHR 0x0A # pw"
      "auth_choice c = Request t" "credentials_error t u pw = None"
proof -
  have menu: "Send t p \<notin> set (auth_menu color)" by (simp add: auth_menu_def)
  note S = assms [unfolded authenticate.simps [of color sent wait n input] client_trim_eq]
  show thesis
  proof (cases "getline input")
    case None
    with S menu show thesis by simp
  next
    case (Some a)
    obtain line rest eof where g: "getline input = Some (line, rest, eof)" using Some by (cases a) auto
    note L = getline_Some(2) [OF g]
    show thesis
    proof (cases "auth_choice (trim line)")
      case QuitDialogue
      with S menu g show thesis by simp
    next
      case InvalidChoice
      with S menu g have "Send t p \<in> set (fst (authenticate color sent wait n rest))"
        by (simp split: prod.splits)
      with L show thesis by (rule later)
    next
      case (Request request)
      show thesis
      proof (cases "getline rest")
        case None
        with S menu g Request show thesis by simp
      next
        case (Some b)
        obtain line2 rest2 eof2 where g2: "getline rest = Some (line2, rest2, eof2)" using Some by (cases b) auto
        obtain out pw rest3 eof3 where r: "read_password ''Password: '' rest2 = (out, pw, rest3, eof3)"
          using prod_cases4 by blast
        have out: "Send t p \<notin> set out" and L3: "length rest3 \<le> length rest2"
          using r getline_Some(2) [of rest2] by (auto simp: read_password_def split: option.splits)
        have L': "length rest3 < length input" using L3 getline_Some(2) [OF g2] L by simp
        note S' = S [unfolded g option.case prod.case Request choice.case g2 Let_def r]
        show thesis
        proof (cases "eof3 \<or> credentials_error request (trim line2) pw \<noteq> None")
          case True
          with S' menu out have "Send t p \<in> set (fst (authenticate color sent wait n rest3))"
            by (auto split: option.splits prod.splits if_splits)
          with L' show thesis by (rule later)
        next
          case ok: False
          show thesis
          proof (cases "Send t p = Send request (trim line2 @ ''\<newline>'' @ pw)")
            case True
            with ok Request g2 r show thesis by (intro now) auto
          next
            case False
            with S' menu out ok have "Send t p \<in> set (fst (authenticate color sent wait (n + 1) rest3))"
              by (auto split: option.splits prod.splits if_splits)
            with L' show thesis by (rule later)
          qed
        qed
      qed
    qed
  qed
qed

lemma authenticate_request_type:
  "Send t p \<in> set (fst (authenticate color sent wait n input)) \<Longrightarrow> t = Login \<or> t = Register"
proof (induction "length input" arbitrary: input n rule: less_induct)
  case less
  from less.prems show ?case
  proof (cases rule: authenticate_round)
    case (later n' rest)
    with less.hyps show ?thesis by blast
  next
    case now
    then show ?thesis by (auto simp: auth_choice_def split: if_splits)
  qed
qed

text \<open>Whatever is typed and whatever the server answers, the login dialogue sends only
  requests to log in or to register, of the form the server expects: a trimmed user name, one
  newline, the password; and a registration only with a valid name and a password of at least six
  bytes.\<close>

theorem authenticate_sends_credentials:
  assumes "Send t p \<in> set (fst (authenticate color sent wait n input))"
  shows "\<exists>u pw. p = u @ CHR 0x0A # pw \<and> (t = Login \<or> t = Register) \<and> CHR 0x0A \<notin> set u \<and>
    CHR 0x0A \<notin> set pw \<and> trim u = u \<and> credentials_error t u pw = None"
  using assms authenticate_request_type [OF assms]
proof (induction "length input" arbitrary: input n rule: less_induct)
  case less
  from less.prems show ?case
  proof (cases rule: authenticate_round)
    case (later n' rest)
    with less.hyps less.prems(2) show ?thesis by blast
  next
    case (now line u i j pw rest asked k c)
    obtain j1 j2 k1 k2 where jk: "j = (j1, j2)" "k = (k1, k2)" by (cases j, cases k)
    have "CHR 0x0A \<notin> set line" using getline_Some(1) now(1) unfolding jk by blast
    then have "CHR 0x0A \<notin> set u" using now(2) set_trim_subset [of line] by auto
    moreover have "CHR 0x0A \<notin> set pw" using read_password_no_newline now(3) unfolding jk by blast
    ultimately show ?thesis using now less.prems(2) by (intro exI [of _ u] exI [of _ pw]) simp
  qed
qed

lemma authenticate_sends_credentials_witness:
  "\<exists>u pw. ''alice\<newline>secret1'' = u @ CHR 0x0A # pw \<and> valid_username u"
proof -
  have "Send Register ''alice\<newline>secret1'' \<in> set (fst (authenticate False (\<lambda>_. True) (\<lambda>_. None) 0
      ''2\<newline>alice\<newline>secret1\<newline>''))"
    by code_simp
  from authenticate_sends_credentials [OF this] show ?thesis
    by (auto simp: credentials_error_def split: if_splits)
qed

section \<open>Stored direct messages\<close>

lemma substr_dm_key:
  "substr (''dm:'' @ a @ '':'' @ b) 3 (length a) = a" "substr_from (''dm:'' @ a @ '':'' @ b) (4 + length a) = b"
  by (simp_all add: substr_def substr_from_def numeral_eq_Suc)

text \<open>A stored direct message between two users is shown to either of them as sent to or received
  from the other one; the internal key of the conversation does not appear.\<close>

theorem dm_history_label:
  assumes "CHR '':'' \<notin> set a" and "CHR '':'' \<notin> set b" and "me = a \<or> me = b"
  shows "print_chat_message color fmt me
      \<lparr>msg_room = ''dm:'' @ a @ '':'' @ b, msg_username = x, msg_content = c, msg_timestamp = t\<rparr> True =
    print_message color (colored color kGray history_mark @ colored color kGray (''['' @ fmt t @ '']'') @ '' '' @
      colored color kBoldMagenta envelope @
      colored color kMagenta (dm_label me x (if me = a then b else a)) @ '': '' @ colored color kDim c)"
  using dm_key_parts [OF assms(1), of b] substr_dm_key [of a b] assms(3)
  by (auto simp: print_chat_message_def starts_with_def Let_def)

lemma dm_history_label_witness:
  "print_chat_message False (\<lambda>_. ''12:00:00'') ''bob''
     \<lparr>msg_room = ''dm:alice:bob'', msg_username = ''bob'', msg_content = ''hi'', msg_timestamp = 0\<rparr> True =
   print_message False (history_mark @ ''[12:00:00] '' @ envelope @ ''you'' @ arrow @ ''alice: hi'')"
  using dm_history_label [of "''alice''" "''bob''" "''bob''" False "\<lambda>_. ''12:00:00''" "''bob''" "''hi''" 0]
  by (simp add: dm_label_def)

section \<open>Commands the client misreads\<close>

definition usage_line :: "bool \<Rightarrow> string \<Rightarrow> string" where
  "usage_line color hint = print_message color (colored color kRed hint)"

lemma dispatch_prints:
  assumes "Print x \<in> set (fst (dispatch_input color input))"
  shows "x \<in> set (print_help color) \<or> x = usage_line color ''Usage: /msg <user> <message>'' \<or>
    x = usage_line color ''Message is too long (max 512 characters).'' \<or>
    (starts_with input ''/dmhistory '' \<and> trim (substr_from input 11) = [])"
  using assms unfolding dispatch_input_def Let_def usage_line_def
  by (simp split: if_splits option.splits) blast+

lemma usage_lines_distinct:
  "usage_line color ''Usage: /dmhistory <user> [N]'' \<notin> set (print_help color)"
  "usage_line color ''Usage: /dmhistory <user> [N]'' \<noteq> usage_line color ''Usage: /msg <user> <message>''"
  "usage_line color ''Usage: /dmhistory <user> [N]'' \<noteq> usage_line color ''Message is too long (max 512 characters).''"
  by (cases color; simp add: usage_line_def print_message_def colored_def print_help_def kRed_def
      kBoldCyan_def kBoldYellow_def esc_def)+

text \<open>The usage hint of \<^verbatim>\<open>/dmhistory\<close> can never be shown: the line is trimmed before it is compared
  with \<^verbatim>\<open>"/dmhistory "\<close>, so what follows the space is never empty.\<close>

theorem dmhistory_usage_unreachable:
  "Print (usage_line color ''Usage: /dmhistory <user> [N]'') \<notin> set (fst (chat_line color line))"
proof
  assume "Print (usage_line color ''Usage: /dmhistory <user> [N]'') \<in> set (fst (chat_line color line))"
  then have "Print (usage_line color ''Usage: /dmhistory <user> [N]'') \<in> set (fst (dispatch_input color (trim line)))"
    by (auto simp: chat_line_def Let_def split: if_splits)
  from dispatch_prints [OF this] usage_lines_distinct
  have st: "starts_with (trim line) ''/dmhistory ''" and e: "trim (substr_from (trim line) 11) = []" by blast+
  show False
  proof (cases "11 < length (trim line)")
    case True
    from trim_drop_ne [OF this] e show False by (simp add: substr_from_def)
  next
    case False
    with starts_with_drop [OF st] have t: "trim line = ''/dmhistory ''" by simp
    then have "last (trim line) \<in> set ws" by (simp add: ws_def)
    with trim_ends [of line] t show False by simp
  qed
qed

text \<open>Commands typed without their argument are sent to the room as chat messages, and any word that
  starts with \<^verbatim>\<open>/history\<close> is taken for that command.\<close>

theorem bare_commands_are_chat:
  "chat_line color ''/dmhistory'' = ([Send Chat ''/dmhistory''], True) \<and>
   chat_line color ''/msg '' = ([Send Chat ''/msg''], True) \<and>
   chat_line color '' /join'' = ([Send Chat ''/join''], True) \<and>
   chat_line color ''/historyfoo'' = ([Send HistoryReq ''foo''], True)"
proof (intro conjI)
  have t: "trim ''/dmhistory'' = ''/dmhistory''" "trim ''/msg '' = ''/msg''" "trim '' /join'' = ''/join''"
    "trim ''/historyfoo'' = ''/historyfoo''" "trim ''foo'' = ''foo''"
    by code_simp+
  show "chat_line color ''/dmhistory'' = ([Send Chat ''/dmhistory''], True)"
    "chat_line color ''/msg '' = ([Send Chat ''/msg''], True)"
    "chat_line color '' /join'' = ([Send Chat ''/join''], True)"
    "chat_line color ''/historyfoo'' = ([Send HistoryReq ''foo''], True)"
    by (simp_all add: chat_line_def t dispatch_input_def starts_with_def substr_from_def)
qed

end
