(* ===== verification/Client_Main.thy ===== *)
theory Client_Main
  imports Client_Properties
begin

text \<open>
  \<^verbatim>\<open>main\<close> of chat_client.cpp: the arguments, the connection, the login dialogue, the command loop
  and the end of the session; with the banner and the terminal settings of \<^verbatim>\<open>read_password\<close>. The
  calls of the operating system are parameters. What the main thread prints, sends and does to the
  socket is a list of events in order; the receive thread is that of \<open>Client_Session\<close>.
\<close>

section \<open>The terminal\<close>

text \<open>\<^verbatim>\<open>g_color = ::isatty(STDOUT_FILENO) != 0\<close>, given the result of the call.\<close>

definition init_console :: "int \<Rightarrow> bool" where
  "init_console isatty_result \<longleftrightarrow> isatty_result \<noteq> 0"

text \<open>Characters of the banner by their UTF-8 bytes.\<close>

definition horizontal :: string where "horizontal = [CHR 0xE2, CHR 0x94, CHR 0x80]"
definition vertical :: string where "vertical = [CHR 0xE2, CHR 0x94, CHR 0x82]"
definition top_left :: string where "top_left = [CHR 0xE2, CHR 0x94, CHR 0x8C]"
definition top_right :: string where "top_right = [CHR 0xE2, CHR 0x94, CHR 0x90]"
definition bottom_left :: string where "bottom_left = [CHR 0xE2, CHR 0x94, CHR 0x94]"
definition bottom_right :: string where "bottom_right = [CHR 0xE2, CHR 0x94, CHR 0x98]"
definition middle_dot :: string where "middle_dot = [CHR 0xC2, CHR 0xB7]"
definition check_mark :: string where "check_mark = [CHR 0xE2, CHR 0x9C, CHR 0x94]"

definition make_banner :: "bool \<Rightarrow> string" where
  "make_banner color =
     (let line = colored color kBoldCyan (top_left @ concat (replicate 45 horizontal) @ top_right);
          bottom = colored color kBoldCyan (bottom_left @ concat (replicate 45 horizontal) @ bottom_right);
          title = colored color kBoldCyan vertical @ ''        C++ Terminal Chat '' @
                    colored color kBoldYellow ''v2.0'' @ ''               '' @ colored color kBoldCyan vertical;
          subtitle = colored color kBoldCyan vertical @ ''   accounts '' @ middle_dot @ '' rooms '' @ middle_dot @
                       '' persisted history      '' @ colored color kBoldCyan vertical
      in line @ ''\<newline>'' @ title @ ''\<newline>'' @ subtitle @ ''\<newline>'' @ bottom)"

text \<open>
  The terminal settings around the reading of the password: \<open>lflag\<close> is \<^verbatim>\<open>c_lflag\<close> as
  \<^verbatim>\<open>tcgetattr\<close> returned it, \<open>ECHO\<close> the flag of the platform. The two results are the settings while
  the line is read and after it, None where the code leaves them alone.
\<close>

definition password_settings :: "u32 \<Rightarrow> int \<Rightarrow> u32 \<Rightarrow> u32 option \<times> u32 option" where
  "password_settings ECHO tcgetattr_result lflag =
     (let changed = (tcgetattr_result = 0)
      in (if changed then Some (lflag AND NOT ECHO) else None, if changed then Some lflag else None))"

section \<open>The calls of main\<close>

text \<open>
  \<open>os_inet_pton host\<close> is the result of the call and the address; \<open>os_connect w s address port\<close>
  takes the port before \<^verbatim>\<open>htons\<close>.
\<close>

record 'w connect_net =
  co_socket :: "'w \<Rightarrow> SOCKET \<times> 'w"
  os_inet_pton :: "string \<Rightarrow> int \<times> u32"
  os_connect :: "'w \<Rightarrow> SOCKET \<Rightarrow> u32 \<Rightarrow> u16 \<Rightarrow> int \<times> 'w"

datatype client_event =
    Act client_effect
  | Complain string
  | Connect SOCKET u32 u16
  | StartReceiver SOCKET
  | Shutdown SOCKET
  | CloseSock SOCKET
  | JoinReceiver

definition client_default_port :: int where
  "client_default_port = 8080"

definition client_host :: "string list \<Rightarrow> string" where
  "client_host args = (if length args > 1 then args ! 1 else ''127.0.0.1'')"

definition client_port :: "string list \<Rightarrow> int option" where
  "client_port args = (if length args > 2 then atoi (args ! 2) else Some client_default_port)"

text \<open>
  Up to the start of the receive thread. \<open>Inl code\<close> is a return from \<^verbatim>\<open>main\<close>. The port is not
  checked: \<^verbatim>\<open>static_cast<std::uint16_t>\<close> takes it modulo \<open>2 ^ 16\<close>. None is an undefined \<^verbatim>\<open>atoi\<close>.
\<close>

definition client_startup ::
    "'w connect_net \<Rightarrow> bool \<Rightarrow> string list \<Rightarrow> 'w \<Rightarrow> (client_event list \<times> (int + SOCKET)) option" where
  "client_startup os color args w =
     (let host = client_host args
      in case client_port args of
           None \<Rightarrow> None
         | Some port \<Rightarrow> Some
             (case co_socket os w of
                (sock, w) \<Rightarrow>
                  if sock = INVALID_SOCKET then ([Complain ''Failed to create socket\<newline>''], Inl 1)
                  else
                    (case os_inet_pton os (c_str host) of
                       (valid, address) \<Rightarrow>
                         if valid \<le> 0
                         then ([Complain (''Invalid server address: '' @ host @ ''\<newline>'')], Inl 1)
                         else
                           (let hello = [Act (Print (make_banner color @ ''\<newline>'')),
                                  Act (Print (''Connecting to '' @ host @ '':'' @ to_string port @ '' ...\<newline>'')),
                                  Connect sock address (word_of_int port)]
                            in if fst (os_connect os w sock address (word_of_int port)) = -1
                               then (hello @ [Complain ''Failed to connect to server\<newline>''], Inl 1)
                               else
                                 (hello @ [Act (Print (colored color kBoldGreen (check_mark @ '' Connected!'') @ ''\<newline>'')),
                                           StartReceiver sock], Inr sock)))))"

section \<open>The session\<close>

definition end_session :: "SOCKET \<Rightarrow> client_event list" where
  "end_session sock = [Shutdown sock, CloseSock sock, JoinReceiver]"

text \<open>
  From the login dialogue to the end. \<open>sent\<close>, \<open>wait\<close> and \<open>view\<close> are those of \<^const>\<open>authenticate\<close>
  and \<^const>\<open>chat_loop\<close>: the results of sending the credentials and what the receive thread has made of
  the globals. The exit status is None while an answer of the server is awaited.
\<close>

definition client_session ::
    "bool \<Rightarrow> (nat \<Rightarrow> bool) \<Rightarrow> (nat \<Rightarrow> client option) \<Rightarrow> (nat \<Rightarrow> client) \<Rightarrow> string \<Rightarrow> SOCKET \<Rightarrow>
     client_event list \<times> int option" where
  "client_session color sent wait view input sock =
     (case authenticate color sent wait 0 input of
        (effs, None, rest) \<Rightarrow> (map Act effs, None)
      | (effs, Some False, rest) \<Rightarrow> (map Act effs @ end_session sock, Some 1)
      | (effs, Some True, rest) \<Rightarrow>
          (map Act (effs @ [Print (print_message color (colored color kCyan ''* '' @
                              ''Type /help for a list of commands.''))] @
                    chat_loop color view 0 rest) @ end_session sock, Some 0))"

definition client_main ::
    "'w connect_net \<Rightarrow> int \<Rightarrow> string list \<Rightarrow> 'w \<Rightarrow> (nat \<Rightarrow> bool) \<Rightarrow> (nat \<Rightarrow> client option) \<Rightarrow> (nat \<Rightarrow> client) \<Rightarrow>
     string \<Rightarrow> (client_event list \<times> int option) option" where
  "client_main os isatty_result args w sent wait view input =
     (let color = init_console isatty_result
      in case client_startup os color args w of
           None \<Rightarrow> None
         | Some (events, Inl code) \<Rightarrow> Some (events, Some code)
         | Some (events, Inr sock) \<Rightarrow>
             (case client_session color sent wait view input sock of
                (later, status) \<Rightarrow> Some (events @ later, status)))"

section \<open>How a session ends\<close>

lemma password_echo:
  "fst (password_settings ECHO r f) = Some x \<Longrightarrow>
     x AND ECHO = 0 \<and> x AND NOT ECHO = f AND NOT ECHO \<and> snd (password_settings ECHO r f) = Some f"
  by (auto simp: password_settings_def Let_def and.assoc and.commute [of "NOT ECHO"] split: if_splits)

definition socket_event :: "client_event \<Rightarrow> bool" where
  "socket_event ev \<longleftrightarrow> (\<exists>s. ev = Shutdown s) \<or> (\<exists>s. ev = CloseSock s) \<or> ev = JoinReceiver"

lemma client_startup_facts:
  assumes "client_startup os color args w = Some (events, r)"
  shows "list_all (\<lambda>ev. \<not> socket_event ev \<and> (\<forall>t p. ev \<noteq> Act (Send t p))) events"
    and "r = Inl code \<Longrightarrow> code = 1 \<and> (\<forall>s. StartReceiver s \<notin> set events)"
    and "r = Inr sock \<Longrightarrow> sock = fst (co_socket os w) \<and> sock \<noteq> INVALID_SOCKET \<and>
      (\<forall>s. StartReceiver s \<in> set events \<longleftrightarrow> s = sock)"
  using assms
  by (auto simp: client_startup_def Let_def socket_event_def split: option.splits prod.splits if_splits)

lemma client_session_end:
  assumes "client_session color sent wait view input sock = (later, Some code)"
  shows "\<exists>acts. later = map Act acts @ end_session sock \<and>
    (code = 0 \<or> code = 1 \<and> (\<forall>t p. Send t p \<in> set acts \<longrightarrow> t = Login \<or> t = Register))"
proof -
  obtain effs r rest where a: "authenticate color sent wait 0 input = (effs, r, rest)" using prod_cases3 by blast
  have t: "Send t p \<in> set effs \<Longrightarrow> t = Login \<or> t = Register" for t p
    using authenticate_request_type [of t p color sent wait 0 input] a by simp
  show ?thesis
  proof (cases "r = Some True")
    case True
    with assms a show ?thesis by (simp add: client_session_def del: map_append list.map) blast
  next
    case False
    with assms a have "later = map Act effs @ end_session sock \<and> code = 1"
      by (auto simp: client_session_def split: option.splits bool.splits)
    with t show ?thesis by blast
  qed
qed

text \<open>C35 (session). When the client's \<^verbatim>\<open>main\<close> returns after it had connected, its last three events shut the socket
  down, close it and join the receive thread, none of which happened before: the socket is closed
  once, after everything was sent; and with status 1 nothing but requests to log in or to register
  was sent. Without a connection nothing is sent and the status is 1.\<close>

theorem client_session_ends_once:
  assumes "client_main os isatty_result args w sent wait view input = Some (events, Some code)"
  shows "(\<exists>before sock. events = before @ [Shutdown sock, CloseSock sock, JoinReceiver] \<and>
      StartReceiver sock \<in> set before \<and>
      (\<forall>s. Shutdown s \<notin> set before \<and> CloseSock s \<notin> set before) \<and> JoinReceiver \<notin> set before \<and>
      (code = 0 \<or> code = 1 \<and> (\<forall>t p. Act (Send t p) \<in> set before \<longrightarrow> t = Login \<or> t = Register))) \<or>
    (code = 1 \<and> (\<forall>s. StartReceiver s \<notin> set events) \<and> (\<forall>t p. Act (Send t p) \<notin> set events))"
proof -
  let ?color = "init_console isatty_result"
  obtain start r where st: "client_startup os ?color args w = Some (start, r)"
    using assms by (auto simp: client_main_def Let_def split: option.splits)
  note F = client_startup_facts [OF st]
  show ?thesis
  proof (cases r)
    case (Inl c)
    with assms st have "events = start" "code = c" by (auto simp: client_main_def Let_def)
    with F Inl show ?thesis by (auto simp: list_all_iff)
  next
    case (Inr sock)
    obtain later status where s: "client_session ?color sent wait view input sock = (later, status)" by fastforce
    with assms st Inr have e: "events = start @ later" and "status = Some code"
      by (auto simp: client_main_def Let_def)
    with client_session_end s obtain acts where l: "later = map Act acts @ end_session sock"
      and c: "code = 0 \<or> code = 1 \<and> (\<forall>t p. Send t p \<in> set acts \<longrightarrow> t = Login \<or> t = Register)"
      by metis
    have "events = (start @ map Act acts) @ [Shutdown sock, CloseSock sock, JoinReceiver]"
      using e l by (simp add: end_session_def)
    moreover have "StartReceiver sock \<in> set (start @ map Act acts)" using F(3) [OF Inr] by simp
    moreover have "\<not> socket_event ev" if "ev \<in> set (start @ map Act acts)" for ev
      using that F(1) by (auto simp: list_all_iff socket_event_def)
    moreover have "code = 0 \<or> code = 1 \<and>
        (\<forall>t p. Act (Send t p) \<in> set (start @ map Act acts) \<longrightarrow> t = Login \<or> t = Register)"
      using c F(1) by (auto simp: list_all_iff)
    ultimately show ?thesis unfolding socket_event_def by blast
  qed
qed

text \<open>A system on which every call succeeds.\<close>

definition willing_net :: "unit connect_net" where
  "willing_net = \<lparr>co_socket = (\<lambda>w. (3, w)), os_inet_pton = (\<lambda>host. (1, 0x7F000001)),
     os_connect = (\<lambda>w s a p. (0, w))\<rparr>"

theorem client_session_ends_once_witness:
  "\<exists>before sock. client_main willing_net 0 [''ChatClient''] () (\<lambda>_. True) (\<lambda>_. None) (\<lambda>_. demo_client) ''q\<newline>'' =
     Some (before @ [Shutdown sock, CloseSock sock, JoinReceiver], Some 1)"
proof -
  have "fst (snd (authenticate False (\<lambda>_. True) (\<lambda>_. None) 0 ''q\<newline>'')) = Some False" by code_simp
  then obtain effs rest where "authenticate False (\<lambda>_. True) (\<lambda>_. None) 0 ''q\<newline>'' = (effs, Some False, rest)"
    by (metis prod.collapse)
  then obtain events where
    run: "client_main willing_net 0 [''ChatClient''] () (\<lambda>_. True) (\<lambda>_. None) (\<lambda>_. demo_client) ''q\<newline>'' =
      Some (events, Some 1)" and "StartReceiver 3 \<in> set events"
    by (simp add: client_main_def client_startup_def client_session_def Let_def willing_net_def init_console_def
        client_port_def client_default_port_def INVALID_SOCKET_def)
  with client_session_ends_once [OF run] show ?thesis by auto
qed

end
