(* ===== verification/Client_Threads.thy ===== *)
theory Client_Threads
  imports Client_Main
begin

text \<open>
  The two threads of the client together. The main thread goes through the login dialogue, the
  command loop and the end of \<^verbatim>\<open>main\<close>; the receive thread through \<^verbatim>\<open>receive_messages\<close>. They share the
  globals, and either may take its next step at any time. A step is what a thread does between two
  looks at a flag the other one may change, or at most one frame.
\<close>

section \<open>One round of the login dialogue\<close>

datatype round = Again | Finished bool | Waiting

definition auth_round :: "bool \<Rightarrow> bool \<Rightarrow> string \<Rightarrow> client_effect list \<times> round \<times> string" where
  "auth_round color sent input =
     (case getline input of
        None \<Rightarrow> (auth_menu color, Finished False, [])
      | Some (line, rest, eof) \<Rightarrow>
          (case auth_choice (client_trim line) of
             QuitDialogue \<Rightarrow> (auth_menu color @ [Print ''Goodbye.\<newline>''], Finished False, rest)
           | InvalidChoice \<Rightarrow>
               (auth_menu color @ [Print (colored color kRed ''Invalid choice. Try again.'' @ ''\<newline>'')], Again, rest)
           | Request request \<Rightarrow>
               (case getline rest of
                  None \<Rightarrow> (auth_menu color @ [Print ''Username: ''], Finished False, [])
                | Some (line, rest, eof) \<Rightarrow>
                    (let username = client_trim line
                     in (case read_password ''Password: '' rest of
                           (asked, password, rest', eof) \<Rightarrow>
                             if eof then (auth_menu color @ Print ''Username: '' # asked, Finished False, rest')
                             else
                               (case credentials_error request username password of
                                  Some reason \<Rightarrow>
                                    (auth_menu color @ Print ''Username: '' # asked @
                                     [Print (print_message color (colored color kRed reason))], Again, rest')
                                | None \<Rightarrow>
                                    (let effs = auth_menu color @ Print ''Username: '' # asked @
                                           [Print (colored color kGray
                                              (if request = Register then ''Creating account...''
                                               else ''Logging in...'') @ ''\<newline>'')]
                                     in if \<not> sent
                                        then (effs @ [Print (print_message color
                                                (colored color kRed ''Failed to send credentials.''))], Finished False, rest')
                                        else (effs @ [Send request (username @ ''\<newline>'' @ password)], Waiting, rest'))))))))"

text \<open>\<^const>\<open>authenticate\<close> is the sequence of these rounds.\<close>

lemma authenticate_rounds:
  "authenticate color sent wait n input =
     (case auth_round color (sent n) input of (effs, r, rest) \<Rightarrow>
        (case r of
           Finished b \<Rightarrow> (effs, Some b, rest)
         | Again \<Rightarrow> (case authenticate color sent wait n rest of (effs', result) \<Rightarrow> (effs @ effs', result))
         | Waiting \<Rightarrow>
             (case wait n of
                None \<Rightarrow> (effs, None, rest)
              | Some st \<Rightarrow>
                  if g_auth_failed st
                  then (case authenticate color sent wait (n + 1) rest of (effs', result) \<Rightarrow> (effs @ effs', result))
                  else (effs, Some (g_authenticated st), rest))))"
proof (cases "getline input")
  case None
  then show ?thesis by (simp add: authenticate.simps [of color sent wait n input] auth_round_def)
next
  case (Some x)
  obtain line rest eof where g: "getline input = Some (line, rest, eof)" using Some by (cases x) auto
  note [simp] = authenticate.simps [of color sent wait n input] auth_round_def g
  show ?thesis
  proof (cases "auth_choice (trim line)")
    case (Request request)
    show ?thesis
    proof (cases "getline rest")
      case None
      with Request show ?thesis by simp
    next
      case (Some y)
      obtain name rest2 eof2 where g2: "getline rest = Some (name, rest2, eof2)" using Some by (cases y) auto
      obtain asked pw rest3 eof3 where r: "read_password ''Password: '' rest2 = (asked, pw, rest3, eof3)"
        by (rule prod_cases4)
      show ?thesis
        by (cases eof3; cases "credentials_error request (trim name) pw"; cases "sent n"; cases "wait n")
          (simp_all add: Request g2 r Let_def split: prod.split)
    qed
  qed (simp_all split: prod.split)
qed

section \<open>The threads\<close>

datatype main_at =
    InMenu
  | InWait
  | Judging
  | Verdict
  | Greeting
  | LoopTest
  | AtPrompt
  | Reading
  | Ending int
  | Closing int
  | Joining int
  | Done int

datatype recv_at =
    RTest "u8 list"
  | RRecv "u8 list"
  | RLost
  | RInvalid
  | RClear
  | RFrames "u8 list" "string list"
  | RHandle "u8 list" string "string list"
  | REnded

record csys =
  glob :: client
  main :: main_at
  recv :: recv_at
  stdin :: string

datatype cthread = MainT | RecvT

definition csys_init :: "client \<Rightarrow> string \<Rightarrow> csys" where
  "csys_init st input =
     \<lparr>glob = st\<lparr>g_connected := True\<rparr>, main = InMenu, recv = RTest [], stdin = input\<rparr>"

text \<open>
  The result of \<^verbatim>\<open>recv\<close> is bytes, or the end of the connection, also when the main thread has shut
  the socket down. A wait of the main thread for the answer to its credentials ends with a flag.
\<close>

inductive cstep ::
    "bool \<Rightarrow> (i64 \<Rightarrow> string) \<Rightarrow> SOCKET \<Rightarrow> csys \<Rightarrow> cthread \<times> client_event list \<Rightarrow> csys \<Rightarrow> bool"
  for color fmt sock S where
  round: "main S = InMenu \<Longrightarrow> auth_round color sent (stdin S) = (effs, r, rest) \<Longrightarrow>
    cstep color fmt sock S (MainT, map Act effs)
      (S\<lparr>main := (case r of Again \<Rightarrow> InMenu | Finished b \<Rightarrow> (if b then Greeting else Ending 1) | Waiting \<Rightarrow> InWait),
         stdin := rest\<rparr>)"
| wake: "main S = InWait \<Longrightarrow>
    \<not> (g_connected (glob S) \<and> \<not> g_authenticated (glob S) \<and> \<not> g_auth_failed (glob S)) \<Longrightarrow>
    cstep color fmt sock S (MainT, []) (S\<lparr>main := Judging\<rparr>)"
| failed: "main S = Judging \<Longrightarrow> g_auth_failed (glob S) \<Longrightarrow>
    cstep color fmt sock S (MainT, []) (S\<lparr>glob := (glob S)\<lparr>g_auth_failed := False\<rparr>, main := InMenu\<rparr>)"
| not_failed: "main S = Judging \<Longrightarrow> \<not> g_auth_failed (glob S) \<Longrightarrow>
    cstep color fmt sock S (MainT, []) (S\<lparr>main := Verdict\<rparr>)"
| verdict: "main S = Verdict \<Longrightarrow>
    cstep color fmt sock S (MainT, []) (S\<lparr>main := (if g_authenticated (glob S) then Greeting else Ending 1)\<rparr>)"
| greet: "main S = Greeting \<Longrightarrow>
    cstep color fmt sock S (MainT, [Act (Print (print_message color (colored color kCyan ''* '' @
        ''Type /help for a list of commands.'')))]) (S\<lparr>main := LoopTest\<rparr>)"
| test: "main S = LoopTest \<Longrightarrow>
    cstep color fmt sock S (MainT, []) (S\<lparr>main := (if g_connected (glob S) then AtPrompt else Ending 0)\<rparr>)"
| prompt: "main S = AtPrompt \<Longrightarrow>
    cstep color fmt sock S (MainT, [Act (Print (build_prompt color (g_username (glob S)) (g_room (glob S))))])
      (S\<lparr>main := Reading\<rparr>)"
| input_end: "main S = Reading \<Longrightarrow> getline (stdin S) = None \<Longrightarrow>
    cstep color fmt sock S (MainT, []) (S\<lparr>main := Ending 0\<rparr>)"
| line: "main S = Reading \<Longrightarrow> getline (stdin S) = Some (line, rest, eof) \<Longrightarrow> chat_line color line = (effs, go_on) \<Longrightarrow>
    cstep color fmt sock S (MainT, map Act effs) (S\<lparr>main := (if go_on then LoopTest else Ending 0), stdin := rest\<rparr>)"
| ending: "main S = Ending rc \<Longrightarrow>
    cstep color fmt sock S (MainT, []) (S\<lparr>glob := (glob S)\<lparr>g_connected := False\<rparr>, main := Closing rc\<rparr>)"
| closing: "main S = Closing rc \<Longrightarrow>
    cstep color fmt sock S (MainT, [Shutdown sock, CloseSock sock]) (S\<lparr>main := Joining rc\<rparr>)"
| join: "main S = Joining rc \<Longrightarrow> recv S = REnded \<Longrightarrow>
    cstep color fmt sock S (MainT, [JoinReceiver]) (S\<lparr>main := Done rc\<rparr>)"
| r_test: "recv S = RTest pending \<Longrightarrow>
    cstep color fmt sock S (RecvT, []) (S\<lparr>recv := (if g_connected (glob S) then RRecv pending else REnded)\<rparr>)"
| r_data: "recv S = RRecv pending \<Longrightarrow> bytes \<noteq> [] \<Longrightarrow> extract_frames (pending @ bytes) [] = (ok, pending', frames) \<Longrightarrow>
    cstep color fmt sock S (RecvT, []) (S\<lparr>recv := (if ok then RFrames pending' frames else RInvalid)\<rparr>)"
| r_end: "recv S = RRecv pending \<Longrightarrow>
    cstep color fmt sock S (RecvT, [])
      (S\<lparr>glob := (glob S)\<lparr>g_connected := False\<rparr>, recv := (if g_connected (glob S) then RLost else REnded)\<rparr>)"
| r_lost: "recv S = RLost \<Longrightarrow>
    cstep color fmt sock S (RecvT, [Act (Print (print_message color (colored color kBoldRed ''Disconnected from server.'')))])
      (S\<lparr>recv := REnded\<rparr>)"
| r_invalid: "recv S = RInvalid \<Longrightarrow>
    cstep color fmt sock S (RecvT, [Act (Print (print_message color (colored color kBoldRed ''Server sent an invalid frame.'')))])
      (S\<lparr>recv := RClear\<rparr>)"
| r_clear: "recv S = RClear \<Longrightarrow>
    cstep color fmt sock S (RecvT, []) (S\<lparr>glob := (glob S)\<lparr>g_connected := False\<rparr>, recv := REnded\<rparr>)"
| r_none: "recv S = RFrames pending [] \<Longrightarrow>
    cstep color fmt sock S (RecvT, []) (S\<lparr>recv := RTest pending\<rparr>)"
| r_next: "recv S = RFrames pending (frame # frames) \<Longrightarrow>
    cstep color fmt sock S (RecvT, [])
      (S\<lparr>recv := (if g_connected (glob S) then RHandle pending frame frames else RTest pending)\<rparr>)"
| r_handle: "recv S = RHandle pending frame frames \<Longrightarrow> handle_server_frame color fmt frame (glob S) = (st, out) \<Longrightarrow>
    cstep color fmt sock S (RecvT, map (Act \<circ> Print) out) (S\<lparr>glob := st, recv := RFrames pending frames\<rparr>)"

inductive cruns ::
    "bool \<Rightarrow> (i64 \<Rightarrow> string) \<Rightarrow> SOCKET \<Rightarrow> csys \<Rightarrow> (cthread \<times> client_event list) list \<Rightarrow> csys \<Rightarrow> bool"
  for color fmt sock where
  here: "cruns color fmt sock S [] S"
| step: "cstep color fmt sock S l S' \<Longrightarrow> cruns color fmt sock S' ls S'' \<Longrightarrow> cruns color fmt sock S (l # ls) S''"

definition events_of :: "cthread \<Rightarrow> (cthread \<times> client_event list) list \<Rightarrow> client_event list" where
  "events_of who ls = concat (map snd (filter (\<lambda>l. fst l = who) ls))"

lemma events_of_simps [simp]:
  "events_of who [] = []"
  "events_of who ((t, es) # ls) = (if t = who then es @ events_of who ls else events_of who ls)"
  "events_of who (ls @ ls') = events_of who ls @ events_of who ls'"
  by (simp_all add: events_of_def)

end
