(* ===== verification/Client_Interleaving.thy ===== *)
theory Client_Interleaving
  imports Client_Threads
begin

text \<open>
  Facts about the two interleaving threads of the client: what each of them relies on of the other,
  the end of the receive thread, and the main thread of any interleaving as a run of the sequential
  \<^const>\<open>client_session\<close>.
\<close>

section \<open>The invariant\<close>

definition chatting :: "main_at \<Rightarrow> bool" where
  "chatting m \<longleftrightarrow> m \<in> {Greeting, LoopTest, AtPrompt, Reading, Ending 0, Closing 0, Joining 0, Done 0}"

definition over :: "main_at \<Rightarrow> bool" where
  "over m \<longleftrightarrow> (\<exists>rc. m \<in> {Closing rc, Joining rc, Done rc})"

definition csys_ok :: "csys \<Rightarrow> bool" where
  "csys_ok S \<longleftrightarrow> (chatting (main S) \<longrightarrow> g_authenticated (glob S)) \<and>
     (over (main S) \<longrightarrow> \<not> g_connected (glob S)) \<and>
     (recv S = REnded \<or> recv S = RLost \<longrightarrow> \<not> g_connected (glob S)) \<and>
     (\<forall>rc. main S = Done rc \<longrightarrow> recv S = REnded)"

lemma handle_server_frame_flags:
  "g_connected (fst (handle_server_frame color fmt f st)) = g_connected st"
  "g_authenticated st \<Longrightarrow> g_authenticated (fst (handle_server_frame color fmt f st))"
  by (auto simp: handle_server_frame_def Let_def split: option.splits MsgType.splits)

lemma auth_round_never_true: "auth_round color sent input = (effs, r, rest) \<Longrightarrow> r \<noteq> Finished True"
  by (auto simp: auth_round_def Let_def split: option.splits choice.splits prod.splits if_splits)

lemma csys_ok_init: "csys_ok (csys_init st input)"
  by (simp add: csys_ok_def csys_init_def chatting_def over_def)

lemma csys_ok_step:
  assumes "cstep color fmt sock S (t, es) S'" and ok: "csys_ok S"
  shows "csys_ok S'"
  using assms(1)
proof cases
  case (round sent effs r rest)
  with ok auth_round_never_true [OF round(5)] show ?thesis
    by (auto simp: csys_ok_def chatting_def over_def split: round.splits)
next
  case (r_handle pending frame frames st out)
  with ok handle_server_frame_flags [where f = frame and st = "glob S" and color = color and fmt = fmt] show ?thesis
    by (auto simp: csys_ok_def chatting_def over_def)
qed (use ok in \<open>auto simp: csys_ok_def chatting_def over_def split: if_splits\<close>)

lemma csys_ok_runs: "cruns color fmt sock S ls S' \<Longrightarrow> csys_ok S \<Longrightarrow> csys_ok S'"
proof (induction rule: cruns.induct)
  case (step S l S' ls S'')
  then show ?case by (cases l) (auto intro: csys_ok_step)
qed

section \<open>The end of the receive thread\<close>

text \<open>What the receive thread has left to do once the connection is marked as closed.\<close>

fun recv_steps :: "recv_at \<Rightarrow> nat" where
  "recv_steps REnded = 0"
| "recv_steps (RTest p) = 1"
| "recv_steps RLost = 1"
| "recv_steps RClear = 1"
| "recv_steps RInvalid = 2"
| "recv_steps (RFrames p fs) = 2"
| "recv_steps (RRecv p) = 3"
| "recv_steps (RHandle p f fs) = 3"

lemma recv_step_decreases:
  assumes "cstep color fmt sock S (RecvT, es) S'" and "\<not> g_connected (glob S)"
  shows "recv_steps (recv S') < recv_steps (recv S) \<and> \<not> g_connected (glob S') \<and> main S' = main S"
  using assms(1)
proof cases
  case (r_handle pending frame frames st out)
  with assms(2) handle_server_frame_flags(1) [where f = frame and st = "glob S" and color = color and fmt = fmt] show ?thesis by simp
qed (use assms(2) in auto)

lemma recv_can_step:
  assumes "recv S \<noteq> REnded"
  shows "\<exists>es S'. cstep color fmt sock S (RecvT, es) S'"
proof (cases "recv S")
  case (RFrames p fs)
  then show ?thesis by (cases fs) (blast intro: cstep.r_none cstep.r_next)+
next
  case (RHandle p f fs)
  obtain st out where "handle_server_frame color fmt f (glob S) = (st, out)" by fastforce
  with RHandle show ?thesis by (blast intro: cstep.r_handle)
qed (use assms in \<open>blast intro: cstep.r_test cstep.r_end cstep.r_lost cstep.r_invalid cstep.r_clear\<close>)+

lemma recv_runs_out:
  assumes "\<not> g_connected (glob S)"
  shows "\<exists>ls S'. cruns color fmt sock S ls S' \<and> events_of MainT ls = [] \<and> recv S' = REnded \<and> main S' = main S"
  using assms
proof (induction "recv_steps (recv S)" arbitrary: S rule: less_induct)
  case less
  show ?case
  proof (cases "recv S = REnded")
    case True
    then show ?thesis by (intro exI [of _ "[]"] exI [of _ S]) (simp add: cruns.here)
  next
    case False
    then obtain es S1 where s: "cstep color fmt sock S (RecvT, es) S1" using recv_can_step by blast
    note D = recv_step_decreases [OF s less.prems]
    with less.hyps [of S1] obtain ls S' where "cruns color fmt sock S1 ls S'" "events_of MainT ls = []"
      "recv S' = REnded" "main S' = main S1" by auto
    with s D show ?thesis
      by (intro exI [of _ "(RecvT, es) # ls"] exI [of _ S']) (simp add: cruns.step)
  qed
qed

lemma recv_runs_short:
  assumes "cruns color fmt sock S ls S'" and "\<not> g_connected (glob S)" and "\<forall>l\<in>set ls. fst l = RecvT"
  shows "length ls \<le> recv_steps (recv S)"
  using assms
proof (induction rule: cruns.induct)
  case (step S l S' ls S'')
  obtain es where l: "l = (RecvT, es)" using step.prems(2) by (cases l) simp
  with recv_step_decreases [of color fmt sock S es S'] step show ?case by fastforce
qed simp

lemma recv_steps_le: "recv_steps r \<le> 3"
  by (cases r) simp_all

section \<open>The main thread as a sequential program\<close>

text \<open>The oracles of the sequential functions can be shifted.\<close>

lemma chat_loop_shift: "chat_loop color view (n + k) input = chat_loop color (\<lambda>i. view (i + k)) n input"
proof (induction input arbitrary: n rule: length_induct)
  case (1 input)
  have "chat_loop color view (Suc (n + k)) rest = chat_loop color (\<lambda>i. view (i + k)) (Suc n) rest"
    if "getline input = Some (line, rest, eof)" for line rest eof
    using 1 getline_Some(2) [OF that] by (metis add_Suc)
  then show ?case
    by (subst (1 2) chat_loop.simps) (auto split: option.splits prod.splits)
qed

lemma read_password_shorter: "read_password prompt input = (asked, pw, rest, eof) \<Longrightarrow> length rest \<le> length input"
  using getline_Some(2) [of input] by (auto simp: read_password_def dest: less_imp_le split: option.splits)

lemma auth_round_shorter:
  assumes "auth_round color sent input = (effs, r, rest)" and "r = Again \<or> r = Waiting"
  shows "length rest < length input"
proof -
  obtain line j eof where g: "getline input = Some (line, j, eof)"
    using assms by (cases "getline input") (auto simp: auth_round_def)
  note L = getline_Some(2) [OF g]
  show ?thesis
  proof (cases "auth_choice (trim line)")
    case (Request t)
    obtain line2 k eof2 where g2: "getline j = Some (line2, k, eof2)"
      using assms g Request by (cases "getline j") (auto simp: auth_round_def)
    obtain asked pw l eof3 where p: "read_password ''Password: '' k = (asked, pw, l, eof3)"
      using prod_cases4 by blast
    have "rest = l"
      using assms g g2 p Request by (auto simp: auth_round_def Let_def split: option.splits if_splits)
    with L getline_Some(2) [OF g2] read_password_shorter [OF p] show ?thesis by simp
  qed (use assms g L in \<open>auto simp: auth_round_def\<close>)
qed

lemma authenticate_shift:
  "authenticate color sent wait (n + k) input =
     authenticate color (\<lambda>i. sent (i + k)) (\<lambda>i. wait (i + k)) n input"
proof (induction input arbitrary: n rule: length_induct)
  case (1 input)
  obtain effs r rest where a: "auth_round color (sent (n + k)) input = (effs, r, rest)" using prod_cases3 by blast
  have "authenticate color sent wait (m + k) rest =
      authenticate color (\<lambda>i. sent (i + k)) (\<lambda>i. wait (i + k)) m rest" if "r = Again \<or> r = Waiting" for m
    using 1 auth_round_shorter [OF a that] by blast
  from this [of n] this [of "Suc n"] a show ?case
    by (subst (1 2) authenticate_rounds) (simp split: round.split option.split)
qed

text \<open>What is left of the session once the login dialogue has returned \<open>b\<close>.\<close>

definition session_rest :: "bool \<Rightarrow> (nat \<Rightarrow> client) \<Rightarrow> string \<Rightarrow> SOCKET \<Rightarrow> bool \<Rightarrow> client_event list \<times> int option" where
  "session_rest color view input sock b =
     (if b then (Act (Print (print_message color (colored color kCyan ''* '' @
                   ''Type /help for a list of commands.''))) #
                 map Act (chat_loop color view 0 input) @ end_session sock, Some 0)
      else (end_session sock, Some 1))"

definition before :: "client_effect list \<Rightarrow> client_event list \<times> int option \<Rightarrow> client_event list \<times> int option" where
  "before effs r = (map Act effs @ fst r, snd r)"

lemma session_rounds:
  "client_session color sent wait view input sock =
     (case auth_round color (sent 0) input of (effs, r, rest) \<Rightarrow> before effs
        (case r of
           Again \<Rightarrow> client_session color sent wait view rest sock
         | Finished b \<Rightarrow> session_rest color view rest sock b
         | Waiting \<Rightarrow>
             (case wait 0 of
                None \<Rightarrow> ([], None)
              | Some st \<Rightarrow>
                  if g_auth_failed st
                  then client_session color (\<lambda>i. sent (i + 1)) (\<lambda>i. wait (i + 1)) view rest sock
                  else session_rest color view rest sock (g_authenticated st))))"
  unfolding client_session_def
  by (subst authenticate_rounds)
    (use authenticate_shift [of color sent wait 0 1] in
      \<open>auto simp: before_def session_rest_def split: prod.splits round.splits option.splits bool.splits\<close>)

lemma auth_round_again:
  "auth_round color sent input = (effs, Again, rest) \<Longrightarrow> auth_round color sent' input = (effs, Again, rest)"
  by (auto simp: auth_round_def Let_def split: option.splits choice.splits prod.splits if_splits)

definition after_prompt :: "bool \<Rightarrow> (nat \<Rightarrow> client) \<Rightarrow> string \<Rightarrow> client_effect list" where
  "after_prompt color view input =
     (case getline input of
        None \<Rightarrow> []
      | Some (line, rest, eof) \<Rightarrow>
          (case chat_line color line of
             (effs, go_on) \<Rightarrow> effs @ (if go_on then chat_loop color view 0 rest else [])))"

lemma chat_loop_prompt:
  "chat_loop color view 0 input =
     (if g_connected (view 0)
      then Print (build_prompt color (g_username (view 0)) (g_room (view 0))) #
           after_prompt color (\<lambda>i. view (i + 1)) input
      else [])"
  by (subst chat_loop.simps)
    (use chat_loop_shift [of color view 0 1] in
      \<open>auto simp: after_prompt_def split: option.splits prod.splits\<close>)

text \<open>What follows the wait for an answer that ended with the globals \<open>st\<close>.\<close>

definition judged :: "bool \<Rightarrow> client \<Rightarrow> (nat \<Rightarrow> bool) \<Rightarrow> (nat \<Rightarrow> client option) \<Rightarrow> (nat \<Rightarrow> client) \<Rightarrow>
    string \<Rightarrow> SOCKET \<Rightarrow> client_event list \<times> int option" where
  "judged color st sent wait view input sock =
     (if g_auth_failed st then client_session color sent wait view input sock
      else session_rest color view input sock (g_authenticated st))"

text \<open>What the main thread does from a place to the end of the program, and the exit status.\<close>

definition completes :: "bool \<Rightarrow> SOCKET \<Rightarrow> csys \<Rightarrow> client_event list \<Rightarrow> int option \<Rightarrow> bool" where
  "completes color sock S es status \<longleftrightarrow>
     (case main S of
        InMenu \<Rightarrow> \<exists>sent wait view. client_session color sent wait view (stdin S) sock = (es, status)
      | InWait \<Rightarrow> \<exists>st sent wait view. judged color st sent wait view (stdin S) sock = (es, status)
      | Judging \<Rightarrow> \<exists>st sent wait view. judged color st sent wait view (stdin S) sock = (es, status)
      | Verdict \<Rightarrow> \<exists>view b. session_rest color view (stdin S) sock b = (es, status)
      | Greeting \<Rightarrow> \<exists>view. session_rest color view (stdin S) sock True = (es, status)
      | LoopTest \<Rightarrow> \<exists>view. es = map Act (chat_loop color view 0 (stdin S)) @ end_session sock \<and> status = Some 0
      | AtPrompt \<Rightarrow> \<exists>view. g_connected (view 0) \<and>
          es = map Act (chat_loop color view 0 (stdin S)) @ end_session sock \<and> status = Some 0
      | Reading \<Rightarrow> \<exists>view. es = map Act (after_prompt color view (stdin S)) @ end_session sock \<and> status = Some 0
      | Ending rc \<Rightarrow> es = end_session sock \<and> status = Some rc
      | Closing rc \<Rightarrow> es = end_session sock \<and> status = Some rc
      | Joining rc \<Rightarrow> es = [JoinReceiver] \<and> status = Some rc
      | Done rc \<Rightarrow> es = [] \<and> status = Some rc)"

lemma completes_recv:
  assumes "cstep color fmt sock S (RecvT, out) S'" and "completes color sock S' es status"
  shows "completes color sock S es status"
proof -
  have "main S' = main S \<and> stdin S' = stdin S" using assms(1) by cases simp_all
  with assms(2) show ?thesis by (cases "main S") (simp_all add: completes_def)
qed

lemma completes_round:
  assumes "main S = InMenu" and a: "auth_round color sent (stdin S) = (effs, r, rest)"
    and "completes color sock (S\<lparr>main := (case r of Again \<Rightarrow> InMenu |
        Finished b \<Rightarrow> (if b then Greeting else Ending 1) | Waiting \<Rightarrow> InWait), stdin := rest\<rparr>) es status"
  shows "completes color sock S (map Act effs @ es) status"
proof (cases r)
  case Again
  with assms(3) obtain sent' wait view where "client_session color sent' wait view rest sock = (es, status)"
    by (auto simp: completes_def)
  with auth_round_again [OF a [unfolded Again], of "sent' 0"]
  have "client_session color sent' wait view (stdin S) sock = (map Act effs @ es, status)"
    by (subst session_rounds) (simp add: before_def)
  with assms(1) show ?thesis by (auto simp: completes_def)
next
  case (Finished b)
  with auth_round_never_true [OF a] have "b = False" by auto
  with Finished assms(3) have "es = end_session sock" "status = Some 1" by (simp_all add: completes_def)
  with a Finished \<open>b = False\<close>
  have "client_session color (\<lambda>_. sent) (\<lambda>_. None) (\<lambda>_. glob S) (stdin S) sock = (map Act effs @ es, status)"
    by (subst session_rounds) (simp add: before_def session_rest_def)
  with assms(1) show ?thesis by (auto simp: completes_def)
next
  case Waiting
  with assms(3) obtain st sent' wait view where w: "judged color st sent' wait view rest sock = (es, status)"
    by (auto simp: completes_def)
  let ?sent = "case_nat sent sent'" and ?wait = "case_nat (Some st) wait"
  have "client_session color ?sent ?wait view (stdin S) sock = (map Act effs @ es, status)"
    using a Waiting w by (subst session_rounds) (auto simp: before_def judged_def split: if_splits)
  with assms(1) show ?thesis by (auto simp: completes_def)
qed

lemma completes_step:
  assumes "cstep color fmt sock S (MainT, out) S'" and "completes color sock S' es status"
  shows "completes color sock S (out @ es) status"
  using assms(1)
proof cases
  case (round sent effs r rest)
  from completes_round [OF round(3,4)] assms(2) round(1,2) show ?thesis by simp
next
  case wake
  with assms(2) show ?thesis by (simp add: completes_def)
next
  case failed
  with assms(2) obtain sent wait view where "client_session color sent wait view (stdin S) sock = (es, status)"
    by (auto simp: completes_def)
  then have "judged color ((glob S)\<lparr>g_auth_failed := True\<rparr>) sent wait view (stdin S) sock = (es, status)"
    by (simp add: judged_def)
  with failed show ?thesis by (auto simp: completes_def)
next
  case not_failed
  with assms(2) obtain view b where "session_rest color view (stdin S) sock b = (es, status)"
    by (auto simp: completes_def)
  then have "judged color ((glob S)\<lparr>g_auth_failed := False, g_authenticated := b\<rparr>) (\<lambda>_. True) (\<lambda>_. None) view
      (stdin S) sock = (es, status)" by (simp add: judged_def)
  with not_failed show ?thesis unfolding completes_def by (simp only: main_at.case) (simp, blast)
next
  case verdict
  with assms(2) show ?thesis
    by (auto simp: completes_def session_rest_def split: if_splits)
next
  case greet
  with assms(2) show ?thesis by (auto simp: completes_def session_rest_def)
next
  case test
  with assms(2) show ?thesis
    by (auto simp: completes_def chat_loop_prompt split: if_splits
        intro: exI [of _ "\<lambda>_. (glob S)\<lparr>g_connected := False\<rparr>"])
next
  case prompt
  with assms(2) obtain view where v: "es = map Act (after_prompt color view (stdin S)) @ end_session sock" "status = Some 0"
    by (auto simp: completes_def)
  let ?view = "case_nat ((glob S)\<lparr>g_connected := True\<rparr>) view"
  have "chat_loop color ?view 0 (stdin S) =
      Print (build_prompt color (g_username (glob S)) (g_room (glob S))) # after_prompt color view (stdin S)"
    by (subst chat_loop_prompt) simp
  with v prompt show ?thesis by (auto simp: completes_def intro!: exI [of _ ?view])
next
  case input_end
  with assms(2) show ?thesis by (simp add: completes_def after_prompt_def)
next
  case (line line rest eof effs go_on)
  with assms(2) show ?thesis
    by (auto simp: completes_def after_prompt_def split: if_splits)
next
  case (closing rc)
  with assms(2) show ?thesis by (simp add: completes_def end_session_def)
qed (use assms(2) in \<open>simp_all add: completes_def\<close>)

lemma completes_runs:
  "cruns color fmt sock S ls S' \<Longrightarrow> completes color sock S' es status \<Longrightarrow>
     completes color sock S (events_of MainT ls @ es) status"
proof (induction rule: cruns.induct)
  case (step S l S' ls S'')
  obtain t out where l: "l = (t, out)" by (cases l)
  with step completes_step [of color fmt sock S out S'] completes_recv [of color fmt sock S out S']
  show ?case by (cases t) simp_all
qed simp
lemma cruns_append: "cruns color fmt sock S ls S' \<Longrightarrow> cruns color fmt sock S' ls' S'' \<Longrightarrow> cruns color fmt sock S (ls @ ls') S''"
  by (induction rule: cruns.induct) (auto intro: cruns.step)

text \<open>A main thread that cannot move waits for the receive thread, which is still there.\<close>

lemma main_can_step:
  assumes "csys_ok S"
  shows "(\<exists>rc. main S = Done rc) \<or> (\<exists>es S'. cstep color fmt sock S (MainT, es) S') \<or> recv S \<noteq> REnded"
proof (cases "main S")
  case InMenu
  obtain effs r rest where "auth_round color True (stdin S) = (effs, r, rest)" using prod_cases3 by blast
  with InMenu show ?thesis by (blast intro: cstep.round)
next
  case InWait
  then show ?thesis
    using assms cstep.wake [of S] by (cases "g_connected (glob S)") (auto simp: csys_ok_def, blast+)
next
  case Judging
  then show ?thesis by (cases "g_auth_failed (glob S)") (blast intro: cstep.failed cstep.not_failed)+
next
  case Reading
  show ?thesis
  proof (cases "getline (stdin S)")
    case None
    with Reading show ?thesis by (blast intro: cstep.input_end)
  next
    case (Some a)
    obtain line rest eof where "getline (stdin S) = Some (line, rest, eof)" using Some by (cases a) auto
    moreover obtain effs go_on where "chat_line color line = (effs, go_on)" by fastforce
    ultimately show ?thesis using Reading by (blast intro: cstep.line)
  qed
next
  case (Joining rc)
  then show ?thesis by (cases "recv S = REnded") (blast intro: cstep.join)+
qed (blast intro: cstep.verdict cstep.greet cstep.test cstep.prompt cstep.ending cstep.closing)+

end
