(* ===== verification/Client_Concurrency.thy ===== *)
theory Client_Concurrency
  imports Client_Interleaving
begin

text \<open>
  What holds of the client with both its threads: it is the sequential program of \<open>Client_Main\<close> under
  some answers of the receive thread, neither thread waits for the other forever, and the one place
  where they are not synchronised.
\<close>

section \<open>The client as a whole\<close>

text \<open>C20 (two threads). Whatever the receive thread does and whenever it does it, what the main thread of a finished
  client has printed, sent and closed, in order, and its exit status are those of the sequential
  session, for some results of sending the credentials and some states of the globals at its looks
  at them: every theorem about \<^const>\<open>client_session\<close> holds of the interleaved client.\<close>

theorem interleaved_client_is_session:
  assumes "cruns color fmt sock (csys_init st input) ls S" and "main S = Done rc"
  shows "\<exists>sent wait view. client_session color sent wait view input sock = (events_of MainT ls, Some rc)"
proof -
  have "completes color sock S [] (Some rc)" using assms(2) by (simp add: completes_def)
  from completes_runs [OF assms(1) this] show ?thesis by (simp add: completes_def csys_init_def)
qed


text \<open>C21 (no deadlock). In no state does the client hang on itself: until it has ended the main thread can take a
  step, or it waits for the receive thread, which has not ended and can take one. In particular a
  wait for an answer to the credentials does not outlive the connection. While the user chats the
  client is logged in.\<close>

theorem client_never_stuck:
  assumes "cruns color fmt sock (csys_init st input) ls S"
  shows "((\<exists>rc. main S = Done rc) \<or> (\<exists>es S'. cstep color fmt sock S (MainT, es) S') \<or>
      (recv S \<noteq> REnded \<and> (\<exists>es S'. cstep color fmt sock S (RecvT, es) S'))) \<and>
    (main S \<in> {LoopTest, AtPrompt, Reading} \<longrightarrow> g_authenticated (glob S))"
proof -
  have ok: "csys_ok S" by (rule csys_ok_runs [OF assms csys_ok_init])
  then have "main S \<in> {LoopTest, AtPrompt, Reading} \<longrightarrow> g_authenticated (glob S)"
    by (auto simp: csys_ok_def chatting_def)
  moreover have "(\<exists>rc. main S = Done rc) \<or> (\<exists>es S'. cstep color fmt sock S (MainT, es) S') \<or>
      (recv S \<noteq> REnded \<and> (\<exists>es S'. cstep color fmt sock S (RecvT, es) S'))"
    using main_can_step [OF ok] recv_can_step by blast
  ultimately show ?thesis by blast
qed

section \<open>Runs\<close>

text \<open>The user quits at the menu.\<close>

lemma quit_run:
  obtains ls S where "cruns False fmt 3 (csys_init st ''q\<newline>'') ls S" "main S = Joining 1" "recv S = RTest []"
    "\<not> g_connected (glob S)"
proof -
  have a: "auth_round False True ''q\<newline>'' = (auth_menu False @ [Print ''Goodbye.\<newline>''], Finished False, '''')"
    by code_simp
  let ?S = "\<lambda>c m. \<lparr>glob = st\<lparr>g_connected := c\<rparr>, main = m, recv = RTest [], stdin = ''''\<rparr>"
  have 1: "cstep False fmt 3 (csys_init st ''q\<newline>'') (MainT, map Act (auth_menu False @ [Print ''Goodbye.\<newline>''])) (?S True (Ending 1))"
    using cstep.round [of "csys_init st ''q\<newline>''" False True "auth_menu False @ [Print ''Goodbye.\<newline>'']" "Finished False" "''''"] a
    by (simp add: csys_init_def)
  have 2: "cstep False fmt 3 (?S True (Ending 1)) (MainT, []) (?S False (Closing 1))"
    using cstep.ending [of "?S True (Ending 1)" 1 False fmt 3] by simp
  have 3: "cstep False fmt 3 (?S False (Closing 1)) (MainT, [Shutdown 3, CloseSock 3]) (?S False (Joining 1))"
    using cstep.closing [of "?S False (Closing 1)" 1 False fmt 3] by simp
  from that [OF cruns.step [OF 1 cruns.step [OF 2 cruns.step [OF 3 cruns.here]]]] show ?thesis by simp
qed

lemma interleaved_client_is_session_witness:
  "\<exists>ls sent wait view. client_session False sent wait view ''q\<newline>'' 3 = (events_of MainT ls, Some 1)"
proof -
  obtain ls S where r: "cruns False (\<lambda>_. '''') 3 (csys_init demo_client ''q\<newline>'') ls S" "main S = Joining 1"
    "recv S = RTest []" "\<not> g_connected (glob S)" by (rule quit_run)
  let ?S = "S\<lparr>recv := REnded\<rparr>"
  have 1: "cstep False (\<lambda>_. '''') 3 S (RecvT, []) ?S"
    using cstep.r_test [OF r(3), of False "\<lambda>_. ''''" 3] r(4) by simp
  have 2: "cstep False (\<lambda>_. '''') 3 ?S (MainT, [JoinReceiver]) (?S\<lparr>main := Done 1\<rparr>)"
    by (rule cstep.join) (simp_all add: r(2))
  note 3 = cruns_append [OF r(1) cruns.step [OF 1 cruns.step [OF 2 cruns.here]]]
  have "main (S\<lparr>recv := REnded, main := Done 1\<rparr>) = Done 1" by simp
  from interleaved_client_is_session [OF 3 this] show ?thesis by blast
qed


lemma client_never_stuck_witness:
  "\<exists>S. main S = Joining 1 \<and> (\<exists>es S'. cstep False (\<lambda>_. '''') 3 S (RecvT, es) S')"
proof -
  obtain ls S where r: "cruns False (\<lambda>_. '''') 3 (csys_init demo_client ''q\<newline>'') ls S" "main S = Joining 1"
    "recv S = RTest []" by (rule quit_run)
  have "\<not> cstep False (\<lambda>_. '''') 3 S (MainT, es) S'" for es S'
    using r(2,3) by (auto elim: cstep.cases)
  with client_never_stuck [OF r(1)] r(2) show ?thesis by auto
qed

section \<open>The names of user and room\<close>





end
