(* ===== verification/End_To_End.thy ===== *)
theory End_To_End
  imports Client_Properties Server_Properties
begin

text \<open>
  The client against the server: a request built by chat_client.cpp is understood by
  chat_server.cpp as the user meant it, and what the server sends leaves the client with the
  server's idea of who and where it is.
\<close>

section \<open>Credentials\<close>

lemma parse_credentials:
  assumes "CHR 0x0A \<notin> set u"
  shows "find_char (u @ CHR 0x0A # pw) (CHR 0x0A) = Some (length u)"
    and "substr (u @ CHR 0x0A # pw) 0 (length u) = u"
    and "substr_from (u @ CHR 0x0A # pw) (Suc (length u)) = pw"
  using find_char_first [OF assms, of pw] by (simp_all add: substr_def substr_from_def)

text \<open>C28 (credentials). The server takes a request of the client's login dialogue apart into the very name and
  password that were typed, and the checks of the client spare the server its own: a registration
  the client lets pass reaches the database, and only the database can refuse it.\<close>

theorem credentials_reach_database:
  assumes "credentials_error t u pw = None" and "t = Login \<or> t = Register"
    and "CHR 0x0A \<notin> set u" and "trim u = u"
  shows "handle_auth e rnd now s (Some (encode_message t (u @ CHR 0x0A # pw))) st =
    (case (if t = Register then register_user e rnd now u pw (sdb st)
           else authenticate_user e u pw (sdb st)) of
       (Some reason, db) \<Rightarrow> (Retry, st\<lparr>sdb := db\<rparr>, [send_msg s AuthFail
          ((if t = Register then ''Registration failed: '' else ''Login failed: '') @ reason)])
     | (None, db) \<Rightarrow> (Success u, st\<lparr>sdb := db\<rparr>,
          if t = Register
          then [send_system s (''Account '' @ quoted u @ '' created. Welcome!''),
                ServerLog (''new account registered: '' @ u)]
          else [ServerLog (u @ '' logged in.'')]))"
proof -
  have "decode_message (encode_message t (u @ CHR 0x0A # pw)) = Some (t, u @ CHR 0x0A # pw)"
    by (rule decode_message_encode) (use assms(2) in \<open>auto simp: msg_types_def\<close>)
  with assms parse_credentials [OF assms(3), of pw] show ?thesis
    by (auto simp: handle_auth_def Let_def credentials_error_def split: prod.split option.split if_splits)
qed

lemma credentials_reach_database_witness:
  "fst (handle_auth table_engine (\<lambda>_. 7) 0 3 (Some (encode_message Register (''alice'' @ CHR 0x0A # ''secret1'')))
     \<lparr>clients = [], sdb = demo_db\<rparr>) = Success ''alice''"
proof -
  have a: "credentials_error Register ''alice'' ''secret1'' = None" "trim ''alice'' = ''alice''" "c_str ''alice'' = ''alice''"
    by code_simp+
  then show ?thesis
    using credentials_reach_database [OF a(1) _ _ a(2), of table_engine "\<lambda>_. 7" 0 3 "\<lparr>clients = [], sdb = demo_db\<rparr>"]
      register_user_table_engine [of demo_db empty_tables "''alice''" "\<lambda>_. 7" 0 "''secret1''"]
    by (simp add: demo_db_def name_taken_def empty_tables_def)
qed

section \<open>Who and where the client is\<close>

definition frames_to :: "SOCKET \<Rightarrow> effect list \<Rightarrow> string list" where
  "frames_to s effs = concat (map (\<lambda>eff. case eff of SendFrame s' f \<Rightarrow> if s' = s then [f] else [] | _ \<Rightarrow> []) effs)"

lemma frames_to_simps [effect_simps]:
  "frames_to s [] = []"
  "frames_to s (SendFrame s' f # effs) = (if s' = s then f # frames_to s effs else frames_to s effs)"
  "frames_to s (CloseSocket s' # effs) = frames_to s effs"
  "frames_to s (ServerLog t # effs) = frames_to s effs"
  "frames_to s (effs @ effs') = frames_to s effs @ frames_to s effs'"
  by (simp_all add: frames_to_def)

lemma set_frames_to: "set (frames_to s effs) = {f. SendFrame s f \<in> set effs}"
  by (auto simp: frames_to_def split: effect.splits if_splits)

text \<open>Frames that leave the client's name and room alone.\<close>

definition neutral :: "string \<Rightarrow> bool" where
  "neutral f \<longleftrightarrow> (\<exists>t p. f = encode_message t p \<and> t \<in> {System, History, ChatMsg, DirectMsg, UsersList, AuthFail})"

lemma neutral_intro [simp]:
  "neutral (encode_message System p)" "neutral (encode_message History p)" "neutral (encode_message ChatMsg p)"
  "neutral (encode_message DirectMsg p)" "neutral (encode_message UsersList p)" "neutral (encode_message AuthFail p)"
  by (auto simp: neutral_def)

lemma neutral_frame:
  assumes "neutral f"
  shows "g_room (fst (handle_server_frame color fmt f c)) = g_room c"
    and "g_username (fst (handle_server_frame color fmt f c)) = g_username c"
proof -
  obtain t p where f: "f = encode_message t p" "t \<in> {System, History, ChatMsg, DirectMsg, UsersList, AuthFail}"
    using assms by (auto simp: neutral_def)
  then have "decode_message f = Some (t, p)"
    using decode_message_encode [of t p] by (auto simp: msg_types_def)
  with f(2) show "g_room (fst (handle_server_frame color fmt f c)) = g_room c"
    "g_username (fst (handle_server_frame color fmt f c)) = g_username c"
    by (auto simp: handle_server_frame_def split: option.split)
qed

lemma neutral_frames:
  "list_all neutral fs \<Longrightarrow> g_room (fst (handle_server_frames color fmt fs c)) = g_room c"
proof (induction fs arbitrary: c)
  case (Cons f fs)
  obtain c' out where h: "handle_server_frame color fmt f c = (c', out)" by fastforce
  with neutral_frame(1) [of f color fmt c] Cons show ?case by (simp split: prod.split) (metis fst_conv)
qed simp

lemma joined_frame:
  "handle_server_frame color fmt (encode_message Joined m) c =
     (c\<lparr>g_room := m\<rparr>, snd (handle_server_frame color fmt (encode_message Joined m) c))"
proof -
  have "decode_message (encode_message Joined m) = Some (Joined, m)"
    by (rule decode_message_encode) (simp add: msg_types_def)
  then show ?thesis by (simp add: handle_server_frame_def)
qed

lemma handle_server_frames_room_append:
  "g_room (fst (handle_server_frames color fmt (fs @ gs) c)) =
     g_room (fst (handle_server_frames color fmt gs (fst (handle_server_frames color fmt fs c))))"
  by (simp add: handle_server_frames_append split: prod.splits)

lemma replay_history_neutral: "replay_history e s m n st = (st', effs) \<Longrightarrow> list_all neutral (frames_to s' effs)"
  by (auto simp: replay_history_def send_msg_def send_system_def effect_simps split: prod.splits if_splits)

lemma broadcast_neutral: "neutral f \<Longrightarrow> list_all neutral (frames_to s (broadcast_to_room m f ex st))"
  by (auto simp: broadcast_to_room_eq list_all_iff set_frames_to)

lemma handle_history_request_neutral:
  assumes "handle_history_request e s raw u m st = (st', effs)"
  shows "list_all neutral (frames_to s' effs)"
  using assms
  by (simp add: handle_history_request_def Let_def split: option.splits if_splits)
    (auto simp: effect_simps send_system_def send_msg_def dest: replay_history_neutral [where s' = s'])

lemma handle_chat_neutral:
  assumes "handle_chat e now s payload u m st = (st', effs)"
  shows "list_all neutral (frames_to s' effs)"
  using assms
  by (auto simp: handle_chat_def Let_def effect_simps send_system_def send_msg_def broadcast_neutral
      split: prod.splits if_splits)

lemma handle_direct_neutral:
  assumes "handle_direct e now s payload u st = (st', effs)"
  shows "list_all neutral (frames_to s' effs)"
  using assms
  by (cases rule: handle_direct_cases) (auto simp: effect_simps send_system_def send_msg_def)

lemma handle_join_room:
  assumes "handle_join e s raw u m st = (m', st', effs)" and "g_connected c" and "g_room c = m"
  shows "g_room (fst (handle_server_frames color fmt (frames_to s effs) c)) = m'"
  using assms(1)
proof (cases rule: handle_join_cases)
  case (stay reply)
  then show ?thesis
    using neutral_frames [of "[encode_message System reply]" color fmt c] assms(3)
    by (simp add: send_system_def send_msg_def effect_simps)
next
  case (move replay)
  let ?left = "frames_to s (broadcast_to_room m (encode_message System (u @ '' left '' @ m)) s st)"
  let ?rest = "frames_to s (broadcast_to_room m' (encode_message System (u @ '' joined '' @ m')) s (set_room s m' st) @ replay)"
  have fs: "frames_to s effs = ?left @ [encode_message Joined m'] @ ?rest"
    by (simp add: move(5) effect_simps send_msg_def)
  have rest: "list_all neutral ?rest"
    using replay_history_neutral [OF move(4)] by (simp add: effect_simps broadcast_neutral)
  obtain c1 out where c1: "handle_server_frames color fmt ?left c = (c1, out)" by fastforce
  then have "g_connected c1"
    using handle_server_frames_connected [of color fmt ?left c] assms(2) by simp
  moreover have "fst (handle_server_frame color fmt (encode_message Joined m') c1) = c1\<lparr>g_room := m'\<rparr>"
    by (subst joined_frame) simp
  ultimately have "g_room (fst (handle_server_frames color fmt [encode_message Joined m'] c1)) = m'"
    by (cases "handle_server_frame color fmt (encode_message Joined m') c1") simp
  then show ?thesis
    unfolding fs using c1 neutral_frames [OF rest]
    by (simp only: handle_server_frames_room_append fst_conv)
qed

text \<open>After any request, once the client has read what the server sent it in answer, the room it shows in
  its prompt is the room the server has it in.\<close>

theorem client_room_follows_server:
  assumes "handle_frame e now s u m f st = ((m', running), st', effs)"
    and "g_connected c" and "g_room c = m"
  shows "g_room (fst (handle_server_frames color fmt (frames_to s effs) c)) = m'"
proof (cases "\<exists>p. decode_message f = Some (Join, p)")
  case True
  then obtain p where "handle_join e s p u m st = (m', st', effs)"
    using assms(1) by (auto simp: handle_frame_def split: prod.splits)
  then show ?thesis by (rule handle_join_room) fact+
next
  case False
  have "m' = m \<and> list_all neutral (frames_to s effs)"
  proof (cases "decode_message f")
    case None
    with assms(1) show ?thesis by (auto simp: handle_frame_def effect_simps send_system_def send_msg_def)
  next
    case (Some tp)
    obtain t p where tp: "tp = (t, p)" by (cases tp)
    show ?thesis
      using assms(1) Some False unfolding handle_frame_def tp
      by (cases t)
        (auto simp: handle_users_def effect_simps send_system_def send_msg_def handle_chat_neutral
          handle_direct_neutral handle_history_request_neutral split: prod.splits)
  qed
  with assms(3) neutral_frames show ?thesis by simp
qed

lemma client_room_follows_server_witness:
  "\<exists>running st' effs m'. handle_frame table_engine 0 5 ''alice'' ''general'' (encode_message Join ''dev'')
       \<lparr>clients = [], sdb = demo_db\<rparr> = ((m', running), st', effs) \<and>
     g_room (fst (handle_server_frames False (\<lambda>_. '''') (frames_to 5 effs) (demo_client\<lparr>g_room := ''general''\<rparr>))) = m'"
proof -
  obtain m' running st' effs where h: "handle_frame table_engine 0 5 ''alice'' ''general'' (encode_message Join ''dev'')
      \<lparr>clients = [], sdb = demo_db\<rparr> = ((m', running), st', effs)"
    by (metis prod.collapse)
  have "g_connected (demo_client\<lparr>g_room := ''general''\<rparr>)" "g_room (demo_client\<lparr>g_room := ''general''\<rparr>) = ''general''"
    by (simp_all add: demo_client_def)
  from client_room_follows_server [OF h this] h show ?thesis by blast
qed

text \<open>The first frame of the greeting tells the client its name and room, as the server has them.\<close>

theorem greeting_tells_identity:
  assumes "client_enter e s u st = (m, st', effs)" and "CHR 0x0A \<notin> set u"
  shows "\<exists>f effs'. effs = SendFrame s f # effs' \<and>
    handle_server_frame color fmt f c = (c\<lparr>g_username := u, g_room := m, g_authenticated := True\<rparr>, [])"
proof -
  let ?f = "encode_message AuthOk (u @ CHR 0x0A # kDefaultRoom)"
  have d: "decode_message ?f = Some (AuthOk, u @ CHR 0x0A # kDefaultRoom)"
    by (rule decode_message_encode) (simp add: msg_types_def)
  have "handle_server_frame color fmt ?f c =
      (c\<lparr>g_username := u, g_room := kDefaultRoom, g_authenticated := True\<rparr>, [])"
    using d parse_credentials [OF assms(2), of kDefaultRoom] by (simp add: handle_server_frame_def)
  moreover have "m = kDefaultRoom \<and> (\<exists>effs'. effs = SendFrame s ?f # effs')"
    using assms(1) by (auto simp: client_enter_def Let_def send_msg_def split: prod.splits)
  ultimately show ?thesis by blast
qed

lemma greeting_tells_identity_witness:
  "\<exists>st' f effs'. client_enter table_engine 5 ''alice'' \<lparr>clients = [], sdb = demo_db\<rparr> =
       (kDefaultRoom, st', SendFrame 5 f # effs') \<and>
     handle_server_frame False (\<lambda>_. '''') f demo_client =
       (demo_client\<lparr>g_username := ''alice'', g_room := kDefaultRoom, g_authenticated := True\<rparr>, [])"
proof -
  obtain st' effs where E: "client_enter table_engine 5 ''alice'' \<lparr>clients = [], sdb = demo_db\<rparr> = (kDefaultRoom, st', effs)"
    using client_enter_runs by blast
  have "CHR 0x0A \<notin> set ''alice''" by simp
  from greeting_tells_identity [OF E this, of False "\<lambda>_. ''''" demo_client] E show ?thesis by blast
qed

end
