(* ===== verification/Delivery.thy ===== *)
theory Delivery
  imports End_To_End Server_Privacy Server_Limits
begin

text \<open>
  From the keyboard of one user to the screens of others: the client that types, the server in any
  state it can reach, and the clients that print. First the names of the rooms clients can be in.
\<close>

section \<open>Rooms\<close>

lemma default_room_sanitized: "kDefaultRoom \<noteq> [] \<and> kDefaultRoom \<in> range sanitize_room"
proof -
  have "sanitize_room kDefaultRoom = kDefaultRoom" unfolding kDefaultRoom_def by code_simp
  then show ?thesis by (metis kDefaultRoom_def list.distinct(1) rangeI)
qed

lemma handle_frame_room:
  assumes "handle_frame e now s u m f st = ((m', running), st', effs)"
  shows "m' = m \<or> m' \<noteq> [] \<and> m' \<in> range sanitize_room"
  using assms
proof (cases rule: handle_frame_cases)
  case (join p)
  from join(3) show ?thesis by (cases rule: handle_join_cases) auto
qed simp_all

lemma reachable_rooms:
  assumes "reachable e (sys_init db) \<sigma>" and "session_of (conns \<sigma> s) = Some (u, m)"
  shows "m \<noteq> [] \<and> m \<in> range sanitize_room"
  using assms
proof (induction arbitrary: s u m rule: reachable.induct)
  case start
  then show ?case by (simp add: sys_init_def)
next
  case (step \<sigma> label \<sigma>')
  obtain s' effs where l: "label = (s', effs)" by (cases label)
  show ?case
  proof (cases "s = s'")
    case False
    with step step_others [OF step(2) [unfolded l] False] show ?thesis by simp
  next
    case True
    from step(2) [unfolded l] show ?thesis
    proof (cases rule: sys_step_cases)
      case (enter u' m' st)
      with step(4) True client_enter_facts(1) [OF enter(2)] default_room_sanitized show ?thesis
        by auto
    next
      case (frame u' m' now f m'' running st)
      with step(4) True have "m = m''" by (auto split: if_splits)
      with step(3) [of s u' m'] frame(1) True handle_frame_room [OF frame(2)] show ?thesis by auto
    next
      case (lost u' m')
      with step(3) [of s u' m'] step(4) True show ?thesis by auto
    qed (use step True in auto)
  qed
qed
text \<open>C27 (room names). In every state the server reaches, every client is in a room whose name is not empty, at most 32
  characters long and made of letters, digits, underscores, hyphens and spaces, whatever names the
  clients asked for; so no client is ever in a room that is the key of a direct conversation.\<close>

theorem reachable_rooms_safe:
  assumes "reachable e (sys_init db) \<sigma>" and "session_of (conns \<sigma> s) = Some (u, m)"
  shows "m \<noteq> [] \<and> length m \<le> 32 \<and> (\<forall>c\<in>set m. isalnum c \<or> c \<in> set ''_- '') \<and>
    (\<forall>a b. m \<noteq> dm_room_key a b)"
proof -
  obtain raw where m: "m = sanitize_room raw" "m \<noteq> []" using reachable_rooms [OF assms] by auto
  have colon: "CHR '':'' \<in> set (dm_room_key a b)" for a b by (simp add: dm_room_key_def)
  moreover have "CHR '':'' \<notin> set m" using sanitize_room_chars [of "CHR '':''" raw] m(1) by auto
  ultimately have "\<forall>a b. m \<noteq> dm_room_key a b" by metis
  moreover have "length m \<le> 32" using m(1) sanitize_room_safe by blast
  moreover have "\<forall>c\<in>set m. isalnum c \<or> c \<in> set ''_- ''" using m(1) sanitize_room_chars by blast
  ultimately show ?thesis using m(2) by blast
qed

lemma reachable_rooms_safe_witness:
  "\<exists>\<sigma> :: tables sys. session_of (conns \<sigma> 5) = Some (''alice'', kDefaultRoom) \<and> length kDefaultRoom \<le> 32"
proof -
  obtain \<sigma> where r: "reachable table_engine (sys_init demo_db) \<sigma>"
    and c: "conns \<sigma> 5 = Some (InRoom ''alice'' kDefaultRoom)" using demo_run by blast
  then have s: "session_of (conns \<sigma> 5) = Some (''alice'', kDefaultRoom)" by simp
  from reachable_rooms_safe [OF r s] s show ?thesis by blast
qed

section \<open>From the keyboard to the screen\<close>

lemma frames_to_broadcast:
  "frames_to s (map (\<lambda>sock. SendFrame sock f) socks) = replicate (count_list socks s) f"
  by (induction socks) (simp_all add: effect_simps)

lemma not_a_key: "m \<in> range sanitize_room \<Longrightarrow> \<not> starts_with m ''dm:''"
proof
  assume "m \<in> range sanitize_room" and "starts_with m ''dm:''"
  then have "CHR '':'' \<in> set m" using starts_with_drop [of m "''dm:''"] by (metis Un_iff list.set_intros set_append)
  with \<open>m \<in> range sanitize_room\<close> sanitize_room_chars [of "CHR '':''"] show False by auto
qed

text \<open>C8 (screens). What a user types as a chat message appears on the screen of every other member of the room: the
  server sends each of them one frame, which fits the framing layer, and their clients print the
  room, the author and the text as it was typed, without the white space around it.\<close>

theorem typed_line_reaches_screens:
  assumes "sqlite_documented e T" and "reachable e (sys_init db) \<sigma>"
    and "conns \<sigma> s = Some (InRoom u m)" and "length u \<le> 20"
    and "Send Chat p \<in> set (fst (chat_line color line))"
    and "handle_frame e now s u m (encode_message Chat p) (srv \<sigma>) = ((m', running), st, effs)"
    and "session_of (conns \<sigma> s') = Some (v, m)" and "s' \<noteq> s"
  shows "\<exists>f. frames_to s' effs = [f] \<and> length f \<le> kMaxFramePayloadSize \<and>
    handle_server_frame False fmt f c =
      (c, [''['' @ fmt now @ ''] ['' @ m @ ''] '' @ u @ '': '' @ trim line @ ''\<newline>''])"
proof -
  let ?msg = "\<lparr>msg_room = m, msg_username = u, msg_content = p, msg_timestamp = now\<rparr>"
  let ?f = "encode_message ChatMsg (encode_chat_message ?msg)"
  from assms(5) have "p = trim line" "p \<noteq> []" "length p \<le> 512"
    using dispatch_chat [of p color "trim line"] by (auto simp: chat_line_def Let_def split: if_splits)
  then have p: "p = trim line" "trim p = p" "p \<noteq> []" "length p \<le> 512" by simp_all
  have m: "m \<in> range sanitize_room" "length m \<le> 32"
    using reachable_rooms [OF assms(2), of s u m] assms(3) sanitize_room_safe by auto
  have ok: "sys_ok T \<sigma>" using sys_ok_reachable [OF assms(2) sys_ok_init assms(1)] .
  obtain stored db' where a: "add_message e ?msg (sdb (srv \<sigma>)) = (stored, db')" by fastforce
  have d: "decode_message (encode_message Chat p) = Some (Chat, p)"
    "decode_message ?f = Some (ChatMsg, encode_chat_message ?msg)"
    by (rule decode_message_encode, simp add: msg_types_def)+
  have "effs = (if \<not> stored then [send_system s ''Failed to store the message in history.''] else []) @
      map (\<lambda>sock. SendFrame sock ?f) (recipients_in m s (clients (srv \<sigma>)))"
    using assms(6) a d(1) p by (auto simp: handle_frame_def handle_chat_def Let_def broadcast_to_room_eq split: if_splits)
  moreover have "count_list (recipients_in m s (clients (srv \<sigma>))) s' = 1"
    using ok registry.recipients_law [of "clients (srv \<sigma>)" m s] assms(7,8)
    by (subst count_list_distinct) (auto simp: sys_ok_def)
  ultimately have "frames_to s' effs = [?f]"
    using assms(8) by (auto simp: effect_simps send_system_def send_msg_def frames_to_broadcast)
  moreover have "length ?f \<le> kMaxFramePayloadSize"
    using m(2) p(4) assms(4) by (simp add: encode_message_def length_encode_chat_message kMaxFramePayloadSize_def)
  moreover have "decode_chat_message (encode_chat_message ?msg) = Some ?msg"
    using chat_codec.decode_enc [of ?msg "[]"] m(2) p(4) assms(4) by (simp add: fits_chat_message_def)
  then have "handle_server_frame False fmt ?f c =
      (c, [''['' @ fmt now @ ''] ['' @ m @ ''] '' @ u @ '': '' @ trim line @ ''\<newline>''])"
    using d(2) p(1) not_a_key [OF m(1)]
    by (simp add: handle_server_frame_def print_chat_message_def print_message_def username_color_def)
  ultimately show ?thesis by blast
qed

lemma typed_line_reaches_screens_witness:
  "\<exists>(\<sigma> :: tables sys) m' running st effs f.
     handle_frame table_engine 0 5 ''alice'' kDefaultRoom (encode_message Chat ''hello'') (srv \<sigma>) = ((m', running), st, effs) \<and>
     frames_to 6 effs = [f] \<and>
     handle_server_frame False (\<lambda>_. ''12:00'') f demo_client = (demo_client, [''[12:00] [general] alice: hello\<newline>''])"
proof -
  obtain \<sigma> where r: "reachable table_engine (sys_init demo_db) \<sigma>"
    and c: "conns \<sigma> 5 = Some (InRoom ''alice'' kDefaultRoom)" "conns \<sigma> 6 = Some (InRoom ''bob'' kDefaultRoom)"
    using demo_run by blast
  obtain m' running st effs where h:
    "handle_frame table_engine 0 5 ''alice'' kDefaultRoom (encode_message Chat ''hello'') (srv \<sigma>) = ((m', running), st, effs)"
    by (metis prod.collapse)
  have t: "trim '' hello '' = ''hello''" and l: "Send Chat ''hello'' \<in> set (fst (chat_line False '' hello ''))"
    by code_simp+
  have "session_of (conns \<sigma> 6) = Some (''bob'', kDefaultRoom)" using c(2) by simp
  from typed_line_reaches_screens [OF table_engine_documented r c(1) _ l h this, of "\<lambda>_. ''12:00''" demo_client] t h
  obtain f where "frames_to 6 effs = [f]"
    "handle_server_frame False (\<lambda>_. ''12:00'') f demo_client = (demo_client, [''[12:00] [general] alice: hello\<newline>''])"
    by (auto simp: kDefaultRoom_def)
  with h show ?thesis by blast
qed

text \<open>C9 (direct screens). A direct message typed as \<^verbatim>\<open>/msg <user> <text>\<close> appears on two screens: the server
  looks up a session of the named user, sends the same frame there and to the author, and the
  first prints it as coming from the author to you, the second as sent by you to that user.\<close>

theorem typed_direct_message_reaches_screens:
  assumes "sqlite_documented e T" and "reachable e (sys_init db) \<sigma>"
    and "conns \<sigma> s = Some (InRoom u m)" and "length u \<le> 20" and "length line \<le> 60000"
    and "Send Direct (target @ CHR 0x0A # content) \<in> set (fst (chat_line color line))"
    and "CHR 0x0A \<notin> set line" and "CHR 0x0A \<notin> set target"
    and "handle_frame e now s u m (encode_message Direct (target @ CHR 0x0A # content)) (srv \<sigma>) = ((m', running), st, effs)"
    and "session_of (conns \<sigma> s2) = Some (trim target, m2)" and "trim target \<noteq> u"
    and "g_username a = u" and "g_username b = trim target"
  shows "\<exists>s' f. s' \<noteq> s \<and> (\<exists>m3. session_of (conns \<sigma> s') = Some (trim target, m3)) \<and>
    frames_to s' effs = [f] \<and> last (frames_to s effs) = f \<and> length f \<le> kMaxFramePayloadSize \<and>
    handle_server_frame False fmt f b =
      (b, [''['' @ fmt now @ ''] '' @ envelope @ u @ arrow @ ''you: '' @ content @ ''\<newline>'']) \<and>
    handle_server_frame False fmt f a =
      (a, [''['' @ fmt now @ ''] '' @ envelope @ ''you'' @ arrow @ trim target @ '': '' @ content @ ''\<newline>''])"
proof -
  let ?p = "target @ CHR 0x0A # content" and ?t = "trim target"
  let ?dm = "\<lparr>dm_from = u, dm_to = ?t, dm_content = content, dm_timestamp = now\<rparr>"
  let ?f = "encode_message DirectMsg (encode_direct_message ?dm)"
  let ?s = "find_in ?t (clients (srv \<sigma>))"
  have ok: "sys_ok T \<sigma>" using sys_ok_reachable [OF assms(2) sys_ok_init assms(1)] .
  then have reg: "registry_ok (clients (srv \<sigma>))" and pres: "\<And>s. presence (clients (srv \<sigma>)) s = session_of (conns \<sigma> s)"
    by (simp_all add: sys_ok_def)
  obtain t1 c1 where parts: "?p = t1 @ CHR 0x0A # c1" "c1 \<noteq> []" "trim c1 = c1" "trim t1 \<noteq> []"
    "CHR 0x0A \<notin> set t1" "length ?p \<le> length line"
    using assms(6,7) by (rule chat_line_direct)
  have "length t1 = length target"
    using find_char_first [OF parts(5), of c1] find_char_first [OF assms(8), of content]
    unfolding parts(1) by simp
  with parts(1) have "t1 = target \<and> c1 = content" by (metis append_eq_append_conv list.inject)
  with parts have p: "content \<noteq> []" "trim content = content" "?t \<noteq> []" "length target + length content < 60000"
    using assms(5) by simp_all
  have tl: "length ?t \<le> length target" by (rule length_trim_le)
  have "presence (clients (srv \<sigma>)) s2 = Some (?t, m2)" using assms(10) by (simp add: pres)
  then have online: "?s \<noteq> INVALID_SOCKET" unfolding registry.find_user_none [OF reg] by blast
  then obtain m3 where s': "session_of (conns \<sigma> ?s) = Some (?t, m3)"
    using registry.find_user_Some [OF reg, of ?t] unfolding pres by blast
  with assms(3,11) have ne: "?s \<noteq> s" by auto
  obtain stored db where a: "add_message e \<lparr>msg_room = dm_room_key u ?t, msg_username = u,
      msg_content = content, msg_timestamp = now\<rparr> (sdb (srv \<sigma>)) = (stored, db)" by fastforce
  have d: "decode_message (encode_message Direct ?p) = Some (Direct, ?p)"
    "decode_message ?f = Some (DirectMsg, encode_direct_message ?dm)"
    by (rule decode_message_encode, simp add: msg_types_def)+
  have "effs = (if \<not> stored then [send_system s ''Failed to store the direct message in history.''] else []) @
      [SendFrame ?s ?f, SendFrame s ?f]"
    using assms(9) a d(1) p parse_credentials [OF assms(8), of content] online
    by (auto simp: handle_frame_def handle_direct_def Let_def server_tables split: if_splits)
  then have "frames_to ?s effs = [?f]" "last (frames_to s effs) = ?f"
    using ne by (auto simp: effect_simps send_system_def send_msg_def)
  moreover have "length ?f \<le> kMaxFramePayloadSize"
    using p(4) tl assms(4)
    by (simp add: encode_message_def encode_direct_message_def append_u16_def append_u32_def append_u64_def kMaxFramePayloadSize_def)
  moreover have "decode_direct_message (encode_direct_message ?dm) = Some ?dm"
    using direct_codec.decode_enc [of ?dm "[]"] p(4) tl assms(4) by (simp add: fits_direct_message_def)
  then have "handle_server_frame False fmt ?f b =
      (b, [''['' @ fmt now @ ''] '' @ envelope @ u @ arrow @ ''you: '' @ content @ ''\<newline>''])"
    "handle_server_frame False fmt ?f a =
      (a, [''['' @ fmt now @ ''] '' @ envelope @ ''you'' @ arrow @ ?t @ '': '' @ content @ ''\<newline>''])"
    using d(2) assms(11-13)
    by (simp_all add: handle_server_frame_def print_direct_def print_message_def)
  ultimately show ?thesis using ne s' by blast
qed
lemma typed_direct_message_reaches_screens_witness:
  "\<exists>(\<sigma> :: tables sys) m' running st effs s' f.
     handle_frame table_engine 0 5 ''alice'' kDefaultRoom (encode_message Direct ''bob\<newline>hi there'') (srv \<sigma>) =
       ((m', running), st, effs) \<and> frames_to s' effs = [f] \<and>
     handle_server_frame False (\<lambda>_. ''12:00'') f (demo_client\<lparr>g_username := ''bob''\<rparr>) =
       (demo_client\<lparr>g_username := ''bob''\<rparr>, [''[12:00] '' @ envelope @ ''alice'' @ arrow @ ''you: hi there\<newline>''])"
proof -
  obtain \<sigma> where r: "reachable table_engine (sys_init demo_db) \<sigma>"
    and c: "conns \<sigma> 5 = Some (InRoom ''alice'' kDefaultRoom)" "conns \<sigma> 6 = Some (InRoom ''bob'' kDefaultRoom)"
    using demo_run by blast
  obtain m' running st effs where h:
    "handle_frame table_engine 0 5 ''alice'' kDefaultRoom (encode_message Direct (''bob'' @ CHR 0x0A # ''hi there'')) (srv \<sigma>) =
       ((m', running), st, effs)"
    by (metis prod.collapse)
  have t: "trim ''bob'' = ''bob''"
    and l: "Send Direct (''bob'' @ CHR 0x0A # ''hi there'') \<in> set (fst (chat_line False ''/msg bob  hi there''))"
    by code_simp+
  have s: "session_of (conns \<sigma> 6) = Some (trim ''bob'', kDefaultRoom)" using c(2) t by simp
  from typed_direct_message_reaches_screens [OF table_engine_documented r c(1) _ _ l _ _ h s _ _ _,
      of "demo_client\<lparr>g_username := ''alice''\<rparr>" "demo_client\<lparr>g_username := ''bob''\<rparr>" "\<lambda>_. ''12:00''"] t
  obtain s' f where "frames_to s' effs = [f]"
    "handle_server_frame False (\<lambda>_. ''12:00'') f (demo_client\<lparr>g_username := ''bob''\<rparr>) =
       (demo_client\<lparr>g_username := ''bob''\<rparr>, [''[12:00] '' @ envelope @ ''alice'' @ arrow @ ''you: hi there\<newline>''])"
    by auto
  with h show ?thesis by (intro exI conjI) auto
qed

end
