(* ===== verification/History_Delivery.thy ===== *)
theory History_Delivery
  imports Delivery
begin

text \<open>
  From the keyboard of one user to the screens of those who come later: the stored message, the
  history replayed to whoever joins the room, and the lines their client prints.
\<close>

section \<open>An open database stays open\<close>














section \<open>The last rows of a room\<close>




section \<open>From the keyboard to the history\<close>











end
