(* ===== verification/Network.thy ===== *)
theory Network
  imports Delivery Client_Threads
begin

text \<open>
  The server and all its clients together. Between each client and its server thread there are two
  queues of frames, one for each direction: what the framing layer makes of the two byte streams of
  a connection, whatever TCP does to them. A step is a handler of the server, which appends what it
  sends to the queues of the receivers, or a client that types a line or a login, reads a frame, or
  goes.
\<close>

section \<open>The system\<close>

record 'd world =
  server_side :: "'d sys"
  users :: "SOCKET \<Rightarrow> client"
  up :: "SOCKET \<Rightarrow> string list"
  down :: "SOCKET \<Rightarrow> string list"

definition fresh_client :: client where
  "fresh_client = \<lparr>g_connected = True, g_authenticated = False, g_auth_failed = False, g_username = '''', g_room = ''''\<rparr>"

definition world_init :: "'d ChatDatabase \<Rightarrow> 'd world" where
  "world_init db = \<lparr>server_side = sys_init db, users = (\<lambda>_. fresh_client), up = (\<lambda>_. []), down = (\<lambda>_. [])\<rparr>"

text \<open>A frame above the limit is not sent; \<^const>\<open>send_frame\<close> refuses it.\<close>

definition sendable :: "string \<Rightarrow> bool" where
  "sendable f \<longleftrightarrow> length f \<le> kMaxFramePayloadSize"

definition deliver :: "effect list \<Rightarrow> (SOCKET \<Rightarrow> string list) \<Rightarrow> SOCKET \<Rightarrow> string list" where
  "deliver effs queues = (\<lambda>s. queues s @ filter sendable (frames_to s effs))"

definition requests :: "client_effect list \<Rightarrow> string list" where
  "requests effs = filter sendable (concat (map (\<lambda>eff. case eff of Send t p \<Rightarrow> [encode_message t p] | Print _ \<Rightarrow> []) effs))"

inductive wstep :: "'d sqlite \<Rightarrow> bool \<Rightarrow> (i64 \<Rightarrow> string) \<Rightarrow> 'd world \<Rightarrow> 'd world \<Rightarrow> bool"
  for e color fmt where
  connect: "conns (server_side W) s = None \<Longrightarrow> s \<noteq> INVALID_SOCKET \<Longrightarrow>
    wstep e color fmt W (W\<lparr>server_side := (server_side W)\<lparr>conns := (conns (server_side W))(s \<mapsto> Authenticating)\<rparr>,
      users := (users W)(s := fresh_client), up := (up W)(s := []), down := (down W)(s := [])\<rparr>)"
| login: "conns (server_side W) s = Some Authenticating \<Longrightarrow> up W s = f # rest \<Longrightarrow>
    handle_auth e rnd now s (Some f) (srv (server_side W)) = (Success u, st, effs) \<Longrightarrow>
    wstep e color fmt W (W\<lparr>server_side := \<lparr>srv = st, conns = (conns (server_side W))(s \<mapsto> Entering u)\<rparr>,
      up := (up W)(s := rest), down := deliver effs (down W)\<rparr>)"
| retry: "conns (server_side W) s = Some Authenticating \<Longrightarrow> up W s = f # rest \<Longrightarrow>
    handle_auth e rnd now s (Some f) (srv (server_side W)) = (Retry, st, effs) \<Longrightarrow>
    wstep e color fmt W (W\<lparr>server_side := (server_side W)\<lparr>srv := st\<rparr>,
      up := (up W)(s := rest), down := deliver effs (down W)\<rparr>)"
| gone: "conns (server_side W) s = Some Authenticating \<Longrightarrow>
    handle_auth e rnd now s None (srv (server_side W)) = (Disconnected, st, effs) \<Longrightarrow>
    wstep e color fmt W (W\<lparr>server_side := \<lparr>srv = st, conns = (conns (server_side W))(s := None)\<rparr>,
      down := deliver effs (down W)\<rparr>)"
| enter: "conns (server_side W) s = Some (Entering u) \<Longrightarrow> client_enter e s u (srv (server_side W)) = (m, st, effs) \<Longrightarrow>
    wstep e color fmt W (W\<lparr>server_side := \<lparr>srv = st, conns = (conns (server_side W))(s \<mapsto> InRoom u m)\<rparr>,
      down := deliver effs (down W)\<rparr>)"
| serve: "conns (server_side W) s = Some (InRoom u m) \<Longrightarrow> up W s = f # rest \<Longrightarrow>
    handle_frame e now s u m f (srv (server_side W)) = ((m', running), st, effs) \<Longrightarrow>
    wstep e color fmt W (W\<lparr>server_side := \<lparr>srv = st,
        conns = (conns (server_side W))(s \<mapsto> (if running then InRoom u m' else Leaving u m'))\<rparr>,
      up := (up W)(s := rest), down := deliver effs (down W)\<rparr>)"
| lost: "conns (server_side W) s = Some (InRoom u m) \<Longrightarrow>
    wstep e color fmt W (W\<lparr>server_side := (server_side W)\<lparr>conns := (conns (server_side W))(s \<mapsto> Leaving u m)\<rparr>\<rparr>)"
| leave: "conns (server_side W) s = Some (Leaving u m) \<Longrightarrow> client_leave s u m (srv (server_side W)) = (st, effs) \<Longrightarrow>
    wstep e color fmt W (W\<lparr>server_side := \<lparr>srv = st, conns = (conns (server_side W))(s := None)\<rparr>,
      down := deliver effs (down W)\<rparr>)"
| ask_login: "g_connected (users W s) \<Longrightarrow> \<not> g_authenticated (users W s) \<Longrightarrow>
    auth_round color sent input = (effs, r, input') \<Longrightarrow>
    wstep e color fmt W (W\<lparr>users := (users W)(s := (users W s)\<lparr>g_auth_failed := False\<rparr>),
      up := (up W)(s := up W s @ requests effs)\<rparr>)"
| type_line: "g_connected (users W s) \<Longrightarrow> g_authenticated (users W s) \<Longrightarrow> chat_line color line = (effs, go_on) \<Longrightarrow>
    wstep e color fmt W (W\<lparr>up := (up W)(s := up W s @ requests effs)\<rparr>)"
| show_frame: "g_connected (users W s) \<Longrightarrow> down W s = f # rest \<Longrightarrow>
    handle_server_frame color fmt f (users W s) = (c, out) \<Longrightarrow>
    wstep e color fmt W (W\<lparr>users := (users W)(s := c), down := (down W)(s := rest)\<rparr>)"
| hang_up: "wstep e color fmt W (W\<lparr>users := (users W)(s := (users W s)\<lparr>g_connected := False\<rparr>)\<rparr>)"

inductive world_reachable :: "'d sqlite \<Rightarrow> bool \<Rightarrow> (i64 \<Rightarrow> string) \<Rightarrow> 'd world \<Rightarrow> 'd world \<Rightarrow> bool"
  for e color fmt W\<^sub>0 where
  start: "world_reachable e color fmt W\<^sub>0 W\<^sub>0"
| step: "world_reachable e color fmt W\<^sub>0 W \<Longrightarrow> wstep e color fmt W W' \<Longrightarrow> world_reachable e color fmt W\<^sub>0 W'"

section \<open>What a queue of frames makes of a client\<close>

definition will_show :: "bool \<Rightarrow> (i64 \<Rightarrow> string) \<Rightarrow> string list \<Rightarrow> client \<Rightarrow> string \<Rightarrow> string \<Rightarrow> bool" where
  "will_show color fmt fs c u m \<longleftrightarrow>
     (g_connected c \<longrightarrow>
        (let c' = fst (handle_server_frames color fmt fs c) in g_username c' = u \<and> g_room c' = m \<and> g_authenticated c'))"

lemma neutral_frame_shown:
  assumes "neutral f" and "handle_server_frame color fmt f c = (c', out)"
  shows "g_username c' = g_username c \<and> g_room c' = g_room c \<and> g_authenticated c' = g_authenticated c"
proof -
  obtain t p where f: "f = encode_message t p" "t \<in> {System, History, ChatMsg, DirectMsg, UsersList, AuthFail}"
    using assms(1) by (auto simp: neutral_def)
  then have "decode_message f = Some (t, p)" using decode_message_encode [of t p] by (auto simp: msg_types_def)
  with f(2) have "g_authenticated (fst (handle_server_frame color fmt f c)) = g_authenticated c"
    by (auto simp: handle_server_frame_def split: option.split)
  with neutral_frame [OF assms(1), of color fmt c] assms(2) show ?thesis by simp
qed

lemma neutral_frames_shown:
  assumes "list_all neutral fs" and "handle_server_frames color fmt fs c = (c', out)"
  shows "g_username c' = g_username c \<and> g_room c' = g_room c \<and> g_authenticated c' = g_authenticated c"
  using assms
proof (induction fs arbitrary: c out)
  case (Cons f fs)
  obtain c1 out1 where h: "handle_server_frame color fmt f c = (c1, out1)" by fastforce
  with Cons neutral_frame_shown [OF _ h] show ?case by (auto split: if_splits prod.splits)
qed simp

lemma will_show_append:
  "will_show color fmt (fs @ gs) c u m \<longleftrightarrow>
     will_show color fmt gs (fst (handle_server_frames color fmt fs c)) u m"
  by (simp add: will_show_def handle_server_frames_append split: prod.splits)

lemma will_show_neutral: "list_all neutral gs \<Longrightarrow> will_show color fmt fs c u m \<Longrightarrow> will_show color fmt (fs @ gs) c u m"
  using neutral_frames_shown [of gs color fmt "fst (handle_server_frames color fmt fs c)"]
  by (cases "handle_server_frames color fmt gs (fst (handle_server_frames color fmt fs c))")
    (unfold will_show_append, simp add: will_show_def Let_def)

lemma will_show_next:
  assumes "will_show color fmt (f # fs) c u m" and "g_connected c" and "handle_server_frame color fmt f c = (c', out)"
  shows "will_show color fmt fs c' u m"
  using assms by (auto simp: will_show_def Let_def split: prod.splits)

text \<open>The flag of a failed login has no part in it.\<close>

definition same_view :: "client \<Rightarrow> client \<Rightarrow> bool" where
  "same_view c c' \<longleftrightarrow> g_connected c' = g_connected c \<and> g_authenticated c' = g_authenticated c \<and>
     g_username c' = g_username c \<and> g_room c' = g_room c"

lemma same_view_frame:
  "same_view c c' \<Longrightarrow>
     same_view (fst (handle_server_frame color fmt f c)) (fst (handle_server_frame color fmt f c'))"
proof (cases "decode_message f")
  case (Some tp)
  obtain t p where "tp = (t, p)" by (cases tp)
  with Some show "same_view c c' \<Longrightarrow> ?thesis"
    by (cases t) (auto simp: handle_server_frame_def same_view_def split: option.split)
qed (simp add: handle_server_frame_def)

lemma same_view_frames:
  "same_view c c' \<Longrightarrow>
     same_view (fst (handle_server_frames color fmt fs c)) (fst (handle_server_frames color fmt fs c'))"
proof (induction fs arbitrary: c c')
  case (Cons f fs)
  obtain d out d' out' where h: "handle_server_frame color fmt f c = (d, out)" "handle_server_frame color fmt f c' = (d', out')"
    by fastforce
  with same_view_frame [OF Cons(2), of color fmt f] have "same_view d d'" by simp
  from Cons.IH [OF this] Cons(2) h show ?case
    by (cases "handle_server_frames color fmt fs d"; cases "handle_server_frames color fmt fs d'")
      (simp add: same_view_def)
qed simp

lemma will_show_cong: "same_view c c' \<Longrightarrow> will_show color fmt fs c u m \<Longrightarrow> will_show color fmt fs c' u m"
  using same_view_frames [of c c' color fmt fs] by (simp add: will_show_def same_view_def Let_def)

lemma will_show_joined:
  assumes "will_show color fmt fs c u m"
  shows "will_show color fmt (fs @ [encode_message Joined m']) c u m'"
proof -
  have "decode_message (encode_message Joined m') = Some (Joined, m')"
    by (rule decode_message_encode) (simp add: msg_types_def)
  with assms show ?thesis
    unfolding will_show_append by (simp add: will_show_def Let_def handle_server_frame_def)
qed

lemma will_show_auth_ok:
  assumes "CHR 0x0A \<notin> set u"
  shows "will_show color fmt (fs @ [encode_message AuthOk (u @ CHR 0x0A # m)]) c u m"
proof -
  have "decode_message (encode_message AuthOk (u @ CHR 0x0A # m)) = Some (AuthOk, u @ CHR 0x0A # m)"
    by (rule decode_message_encode) (simp add: msg_types_def)
  with parse_credentials [OF assms, of m] show ?thesis
    unfolding will_show_append by (simp add: will_show_def Let_def handle_server_frame_def)
qed

section \<open>What each handler sends\<close>

lemma handle_auth_frames:
  assumes "handle_auth e rnd now s input st = (r, st', effs)"
  shows "list_all neutral (frames_to s' effs)"
  using assms
  by (auto simp: handle_auth_def Let_def effect_simps send_msg_def send_system_def
      split: option.splits prod.splits if_splits)

lemma handle_auth_name:
  assumes "handle_auth e rnd now s input st = (Success u, st', effs)"
  shows "CHR 0x0A \<notin> set u"
proof -
  obtain payload i where i: "find_char payload (CHR 0x0A) = Some i" "u = trim (substr payload 0 i)"
    using assms by (cases rule: handle_auth_cases) (auto split: option.splits)
  then have "CHR 0x0A \<notin> set (substr payload 0 i)" using find_char_split(2) [OF i(1)] by (simp add: substr_def)
  then show ?thesis using i(2) set_trim_subset [of "substr payload 0 i"] by auto
qed

lemma client_enter_frames:
  assumes "client_enter e s u st = (m, st', effs)"
  shows "s' \<noteq> s \<Longrightarrow> list_all neutral (frames_to s' effs)"
    and "\<exists>rest. frames_to s effs = encode_message AuthOk (u @ CHR 0x0A # m) # rest \<and> list_all neutral rest"
  using assms
  by (auto simp: client_enter_def Let_def effect_simps send_msg_def send_system_def broadcast_neutral
      dest: replay_history_neutral split: prod.splits)

lemma client_leave_frames: "client_leave s u m st = (st', effs) \<Longrightarrow> list_all neutral (frames_to s' effs)"
  by (auto simp: client_leave_def Let_def effect_simps broadcast_neutral)

lemma handle_frame_frames:
  assumes "handle_frame e now s u m f st = ((m', running), st', effs)"
  shows "s' \<noteq> s \<Longrightarrow> list_all neutral (frames_to s' effs)"
    and "m' = m \<and> list_all neutral (frames_to s effs) \<or>
      (\<exists>before after. frames_to s effs = before @ [encode_message Joined m'] @ after \<and> length m' \<le> 32 \<and>
         list_all neutral before \<and> list_all neutral after)"
proof -
  have "(s' \<noteq> s \<longrightarrow> list_all neutral (frames_to s' effs)) \<and>
    (m' = m \<and> list_all neutral (frames_to s effs) \<or>
      (\<exists>before after. frames_to s effs = before @ [encode_message Joined m'] @ after \<and> length m' \<le> 32 \<and>
         list_all neutral before \<and> list_all neutral after))"
  proof (cases "\<exists>p. decode_message f = Some (Join, p)")
    case True
    then obtain p where "handle_join e s p u m st = (m', st', effs)"
      using assms by (auto simp: handle_frame_def split: prod.splits)
    then show ?thesis
    proof (cases rule: handle_join_cases)
      case (stay reply)
      then show ?thesis by (simp add: effect_simps send_system_def send_msg_def)
    next
      case (move replay)
      have "list_all neutral (frames_to s'' replay)" for s'' by (rule replay_history_neutral [OF move(4)])
      moreover have "length m' \<le> 32" using move(1) sanitize_room_safe by blast
      ultimately show ?thesis
        by (simp add: move(5) effect_simps send_msg_def broadcast_neutral) (metis broadcast_neutral list_all_append neutral_intro(1))
    qed
  next
    case False
    have "m' = m \<and> list_all neutral (frames_to s'' effs)" for s''
    proof (cases "decode_message f")
      case None
      with assms show ?thesis by (auto simp: handle_frame_def effect_simps send_system_def send_msg_def)
    next
      case (Some tp)
      obtain t p where tp: "tp = (t, p)" by (cases tp)
      show ?thesis
        using assms Some False unfolding handle_frame_def tp
        by (cases t)
          (auto simp: handle_users_def effect_simps send_system_def send_msg_def handle_chat_neutral
            handle_direct_neutral handle_history_request_neutral split: prod.splits)
    qed
    then show ?thesis by blast
  qed
  then show "s' \<noteq> s \<Longrightarrow> list_all neutral (frames_to s' effs)"
    "m' = m \<and> list_all neutral (frames_to s effs) \<or>
      (\<exists>before after. frames_to s effs = before @ [encode_message Joined m'] @ after \<and> length m' \<le> 32 \<and>
         list_all neutral before \<and> list_all neutral after)" by blast+
qed

section \<open>The invariant\<close>

definition world_ok :: "bool \<Rightarrow> (i64 \<Rightarrow> string) \<Rightarrow> 'd world \<Rightarrow> bool" where
  "world_ok color fmt W \<longleftrightarrow>
     (\<forall>s u. user_of (conns (server_side W) s) = Some u \<longrightarrow> CHR 0x0A \<notin> set u) \<and>
     (\<forall>s u m. session_of (conns (server_side W) s) = Some (u, m) \<longrightarrow> length u \<le> 65000 \<longrightarrow>
        will_show color fmt (down W s) (users W s) u m)"

lemma neutral_filter: "list_all neutral fs \<Longrightarrow> list_all neutral (filter P fs)"
  by (auto simp: list_all_iff)

lemma deliver_neutral:
  "list_all neutral (frames_to s effs) \<Longrightarrow> will_show color fmt (q s) c u m \<Longrightarrow> will_show color fmt (deliver effs q s) c u m"
  by (simp add: deliver_def will_show_neutral neutral_filter)

lemma deliver_enter:
  assumes "frames_to s effs = encode_message AuthOk (u @ CHR 0x0A # kDefaultRoom) # rest" and "list_all neutral rest"
    and "CHR 0x0A \<notin> set u" and "length u \<le> 65000"
  shows "will_show color fmt (deliver effs q s) c u kDefaultRoom"
proof -
  have "sendable (encode_message AuthOk (u @ CHR 0x0A # kDefaultRoom))"
    using assms(4) by (simp add: sendable_def encode_message_def kMaxFramePayloadSize_def kDefaultRoom_def)
  then have "deliver effs q s = (q s @ [encode_message AuthOk (u @ CHR 0x0A # kDefaultRoom)]) @ filter sendable rest"
    by (simp add: deliver_def assms(1))
  then show ?thesis using will_show_neutral [OF neutral_filter [OF assms(2)] will_show_auth_ok [OF assms(3)]] by simp
qed

lemma deliver_joined:
  assumes "frames_to s effs = before @ [encode_message Joined m'] @ after" and "length m' \<le> 32"
    and "list_all neutral before" and "list_all neutral after" and "will_show color fmt (q s) c u m"
  shows "will_show color fmt (deliver effs q s) c u m'"
proof -
  have "sendable (encode_message Joined m')"
    using assms(2) by (simp add: sendable_def encode_message_def kMaxFramePayloadSize_def)
  then have "deliver effs q s =
      ((q s @ filter sendable before) @ [encode_message Joined m']) @ filter sendable after"
    by (simp add: deliver_def assms(1))
  moreover have "will_show color fmt (q s @ filter sendable before) c u m"
    by (rule will_show_neutral [OF neutral_filter [OF assms(3)] assms(5)])
  note will_show_neutral [OF neutral_filter [OF assms(4)] will_show_joined [OF this]]
  ultimately show ?thesis by (simp only:)
qed

lemma world_ok_init: "world_ok color fmt (world_init db)"
  by (simp add: world_ok_def world_init_def sys_init_def)

lemma world_okD:
  "world_ok color fmt W \<Longrightarrow> user_of (conns (server_side W) s) = Some u \<Longrightarrow> CHR 0x0A \<notin> set u"
  "world_ok color fmt W \<Longrightarrow> session_of (conns (server_side W) s) = Some (u, m) \<Longrightarrow> length u \<le> 65000 \<Longrightarrow>
     will_show color fmt (down W s) (users W s) u m"
  by (auto simp: world_ok_def)

lemma world_ok_step:
  assumes "wstep e color fmt W W'" and ok: "world_ok color fmt W"
  shows "world_ok color fmt W'"
  using assms(1)
proof cases
  case (connect s)
  with ok show ?thesis by (auto simp: world_ok_def)
next
  case (login s f rest rnd now u st effs)
  have n: "list_all neutral (frames_to s' effs)" for s' by (rule handle_auth_frames [OF login(4)])
  from ok login handle_auth_name [OF login(4)] deliver_neutral [OF n] show ?thesis by (auto simp: world_ok_def)
next
  case (retry s f rest rnd now st effs)
  have n: "list_all neutral (frames_to s' effs)" for s' by (rule handle_auth_frames [OF retry(4)])
  from ok retry deliver_neutral [OF n] show ?thesis by (auto simp: world_ok_def)
next
  case (gone s rnd now st effs)
  have n: "list_all neutral (frames_to s' effs)" for s' by (rule handle_auth_frames [OF gone(3)])
  from ok gone deliver_neutral [OF n] show ?thesis by (auto simp: world_ok_def)
next
  case (enter s u m st effs)
  note F = client_enter_frames [OF enter(3)]
  have m: "m = kDefaultRoom" by (rule client_enter_facts(1) [OF enter(3)])
  have u: "CHR 0x0A \<notin> set u" using world_okD(1) [OF ok, of s u] enter(2) by simp
  obtain rest where "frames_to s effs = encode_message AuthOk (u @ CHR 0x0A # m) # rest" "list_all neutral rest"
    using F(2) by blast
  with deliver_enter [of s effs u rest] u m ok enter(1,2) deliver_neutral [OF F(1)] show ?thesis
    by (auto simp: world_ok_def)
next
  case (serve s u m f rest now m' running st effs)
  note F = handle_frame_frames [OF serve(4)]
  have "will_show color fmt (deliver effs (down W) s) (users W s) u m'" if "length u \<le> 65000"
  proof -
    have w: "will_show color fmt (down W s) (users W s) u m" using world_okD(2) [OF ok _ that, of s m] serve(2) by simp
    from F(2) show ?thesis
      using deliver_neutral [of s effs color fmt "down W", OF _ w] deliver_joined [where q = "down W" and s = s and effs = effs, OF _ _ _ _ w] by blast
  qed
  moreover have "CHR 0x0A \<notin> set u" using world_okD(1) [OF ok, of s u] serve(2) by simp
  ultimately show ?thesis using ok serve(1,2) deliver_neutral [OF F(1)]
    by (auto simp: world_ok_def split: if_splits)
next
  case (lost s u m)
  moreover from lost(2) have "CHR 0x0A \<notin> set u" using world_okD(1) [OF ok, of s u] by simp
  ultimately show ?thesis using ok by (auto simp: world_ok_def)
next
  case (leave s u m st effs)
  have n: "list_all neutral (frames_to s' effs)" for s' by (rule client_leave_frames [OF leave(3)])
  from ok leave deliver_neutral [OF n] show ?thesis by (auto simp: world_ok_def)
next
  case (ask_login s sent input effs r input')
  have "will_show color fmt (down W s) ((users W s)\<lparr>g_auth_failed := False\<rparr>) u m"
    if "will_show color fmt (down W s) (users W s) u m" for u m
    by (rule will_show_cong [OF _ that]) (simp add: same_view_def)
  with ok ask_login(1) show ?thesis by (auto simp: world_ok_def)
next
  case (type_line s effs go_on)
  with ok show ?thesis by (auto simp: world_ok_def)
next
  case (show_frame s f rest c out)
  have "will_show color fmt rest c u m" if "session_of (conns (server_side W) s) = Some (u, m)" "length u \<le> 65000" for u m
    using world_okD(2) [OF ok that] will_show_next [OF _ show_frame(2,4)] show_frame(3) by simp
  with ok show_frame(1) show ?thesis by (auto simp: world_ok_def)
next
  case (hang_up s)
  with ok show ?thesis by (auto simp: world_ok_def will_show_def)
qed


lemma world_ok_reachable: "world_reachable e color fmt W\<^sub>0 W \<Longrightarrow> world_ok color fmt W\<^sub>0 \<Longrightarrow> world_ok color fmt W"
  by (induction rule: world_reachable.induct) (auto intro: world_ok_step)

section \<open>The server in it\<close>

text \<open>A step of the system is a step of the server as \<open>Server_System\<close> has it, or none.\<close>

lemma wstep_server:
  assumes "wstep e color fmt W W'"
  shows "server_side W' = server_side W \<or> (\<exists>label. sys_step e (server_side W) label (server_side W'))"
  using assms
proof cases
  case (connect s)
  then show ?thesis using sys_step.accept [of "server_side W" s e] by auto
next
  case (login s f rest rnd now u st effs)
  then show ?thesis using sys_step.auth_success [OF login(2,4)] by auto
next
  case (retry s f rest rnd now st effs)
  then show ?thesis using sys_step.auth_retry [OF retry(2,4)] by auto
next
  case (gone s rnd now st effs)
  then show ?thesis using sys_step.auth_lost [OF gone(2,3)] by auto
next
  case (enter s u m st effs)
  then show ?thesis using sys_step.enter [OF enter(2,3)] by auto
next
  case (serve s u m f rest now m' running st effs)
  then show ?thesis using sys_step.frame [OF serve(2,4)] by auto
next
  case (lost s u m)
  then show ?thesis using sys_step.lost [OF lost(2)] by auto
next
  case (leave s u m st effs)
  then show ?thesis using sys_step.leave [OF leave(2,3)] by auto
qed auto

lemma world_server_reachable:
  assumes "world_reachable e color fmt W\<^sub>0 W"
  shows "reachable e (server_side W\<^sub>0) (server_side W)"
  using assms
proof (induction rule: world_reachable.induct)
  case (step W W')
  from wstep_server [OF step(2)] step(3) show ?case by (auto intro: reachable.step)
qed (rule reachable.start)

section \<open>Reading the queue\<close>

lemma drain:
  assumes "g_connected (users W s)"
  shows "\<exists>W'. world_reachable e color fmt W W' \<and> server_side W' = server_side W \<and> down W' s = [] \<and>
    users W' s = fst (handle_server_frames color fmt (down W s) (users W s))"
  using assms
proof (induction "down W s" arbitrary: W)
  case Nil
  then show ?case by (intro exI [of _ W]) (auto intro: world_reachable.start)
next
  case (Cons f fs)
  obtain c out where h: "handle_server_frame color fmt f (users W s) = (c, out)" by fastforce
  let ?W = "W\<lparr>users := (users W)(s := c), down := (down W)(s := fs)\<rparr>"
  have on: "g_connected c" using handle_server_frame_connected [of color fmt f "users W s"] h Cons(3) by simp
  have st: "wstep e color fmt W ?W" by (rule wstep.show_frame [OF Cons(3) Cons(2) [symmetric] h])
  obtain W' where W': "world_reachable e color fmt ?W W'" "server_side W' = server_side ?W" "down W' s = []"
    "users W' s = fst (handle_server_frames color fmt fs c)"
    using Cons(1) [of ?W] on by auto
  have "world_reachable e color fmt W W'" using W'(1)
  proof (induction rule: world_reachable.induct)
    case start
    show ?case by (rule world_reachable.step [OF world_reachable.start st])
  qed (rule world_reachable.step)
  moreover have "users W' s = fst (handle_server_frames color fmt (down W s) (users W s))"
    using W'(4) h Cons(2,3) by (simp flip: Cons(2) split: prod.split)
  ultimately show ?case using W'(2,3) by auto
qed

text \<open>A run: connection 5 is opened, its user registers as \<^verbatim>\<open>alice\<close> and enters.\<close>

lemma network_demo:
  "\<exists>W :: tables world. world_reachable table_engine False (\<lambda>_. '''') (world_init demo_db) W \<and>
     conns (server_side W) 5 = Some (InRoom ''alice'' kDefaultRoom) \<and>
     presence (clients (srv (server_side W))) 5 = Some (''alice'', kDefaultRoom) \<and> g_connected (users W 5)"
proof -
  let ?R = "world_reachable table_engine False (\<lambda>_. '''') (world_init demo_db)"
  let ?in = "''2\<newline>alice\<newline>secret1\<newline>''"
  have v: "valid_username ''alice''" by code_simp
  define rnd where "rnd = (\<lambda>_::nat. 0 :: u32)"
  define h where "h = c_str (hash_password (generate_salt rnd) ''secret1'')"
  define W1 where "W1 = (world_init demo_db)\<lparr>server_side := (sys_init demo_db)\<lparr>conns := [5 \<mapsto> Authenticating]\<rparr>\<rparr>"
  have 1: "?R W1"
    using world_reachable.step [OF world_reachable.start wstep.connect [of "world_init demo_db" 5]]
    by (simp add: W1_def world_init_def sys_init_def INVALID_SOCKET_def fun_upd_def)
  obtain effs rest where a: "auth_round False True ?in = (effs, Waiting, rest)" "requests effs = [register_frame ''alice'']"
  proof -
    have "snd (auth_round False True ?in) = (Waiting, '''')" by code_simp
    moreover have "concat (map (\<lambda>eff. case eff of Send t p \<Rightarrow> [encode_message t p] | Print _ \<Rightarrow> [])
        (fst (auth_round False True ?in))) = [register_frame ''alice'']" by code_simp
    then have "requests (fst (auth_round False True ?in)) = [register_frame ''alice'']"
      by (simp add: requests_def sendable_def register_frame_def encode_message_def kMaxFramePayloadSize_def)
    ultimately show thesis by (intro that [of "fst (auth_round False True ?in)" "''''"]) (metis prod.collapse)
  qed
  define W2 where "W2 = W1\<lparr>up := (\<lambda>_. [])(5 := [register_frame ''alice''])\<rparr>"
  have 2: "?R W2"
    using world_reachable.step [OF 1 wstep.ask_login [of W1 5, OF _ _ a(1)]] a(2)
    by (simp add: W1_def W2_def world_init_def fresh_client_def fun_upd_def cong: if_cong)
  let ?st = "\<lparr>clients = [], sdb = demo_db\<lparr>cd_db := Some (insert_user_row ''alice'' h 0 empty_tables)\<rparr>\<rparr> :: tables server"
  obtain effs2 where A: "handle_auth table_engine rnd 0 5 (Some (register_frame ''alice'')) (srv (server_side W2)) =
      (Success ''alice'', ?st, effs2)"
    using handle_auth_register [OF v, of "srv (server_side W2)" empty_tables rnd 0 5]
    by (simp add: W2_def W1_def world_init_def sys_init_def demo_db_def name_taken_def empty_tables_def h_def)
  define W3 where "W3 = W2\<lparr>server_side := \<lparr>srv = ?st, conns = [5 \<mapsto> Entering ''alice'']\<rparr>, up := (\<lambda>_. [])(5 := []), down := deliver effs2 (\<lambda>_. [])\<rparr>"
  have 3: "?R W3"
    using world_reachable.step [OF 2 wstep.login [OF _ _ A]]
    by (simp add: W1_def W2_def W3_def world_init_def sys_init_def)
  obtain st4 effs4 where E: "client_enter table_engine 5 ''alice'' (srv (server_side W3)) = (kDefaultRoom, st4, effs4)"
    "clients st4 = add_in 5 ''alice'' kDefaultRoom []"
    using client_enter_runs [of table_engine 5 "''alice''" ?st] by (auto simp: W3_def)
  define W4 where "W4 = W3\<lparr>server_side := \<lparr>srv = st4, conns = [5 \<mapsto> InRoom ''alice'' kDefaultRoom]\<rparr>,
      down := deliver effs4 (down W3)\<rparr>"
  have 4: "?R W4"
    using world_reachable.step [OF 3 wstep.enter [OF _ E(1)]] by (simp add: W3_def W4_def)
  have "presence (clients (srv (server_side W4))) 5 = Some (''alice'', kDefaultRoom)"
    using E(2) registry.add_law [of "[]" 5 "''alice''" kDefaultRoom]
    by (simp add: W4_def registry_ok_def INVALID_SOCKET_def)
  moreover have "g_connected (users W4 5)" by (simp add: W1_def W2_def W3_def W4_def world_init_def fresh_client_def)
  ultimately show ?thesis using 4 by (intro exI [of _ W4]) (simp add: W4_def)
qed

text \<open>C11 (clients agree). In every state of the whole system, with any number of clients that type what they like and read
  when they like: once a client has read what is on its way, which it can without anybody else, it is
  logged in and shows the name and the room under which the server has it in its table, provided the name is not so long that the
  greeting does not fit into a frame.\<close>

theorem client_view_converges:
  assumes "sqlite_documented e T" and "world_reachable e color fmt (world_init db) W"
    and "presence (clients (srv (server_side W))) s = Some (u, m)" and "g_connected (users W s)" and "length u \<le> 65000"
  shows "\<exists>W'. world_reachable e color fmt W W' \<and> server_side W' = server_side W \<and> down W' s = [] \<and>
    g_authenticated (users W' s) \<and> g_username (users W' s) = u \<and> g_room (users W' s) = m"
proof -
  have "reachable e (sys_init db) (server_side W)"
    using world_server_reachable [OF assms(2)] by (simp add: world_init_def)
  then have "sys_ok T (server_side W)" by (rule sys_ok_reachable [OF _ sys_ok_init assms(1)])
  with assms(3) have "session_of (conns (server_side W) s) = Some (u, m)" by (simp add: sys_ok_def)
  then have "will_show color fmt (down W s) (users W s) u m"
    by (rule world_okD(2) [OF world_ok_reachable [OF assms(2) world_ok_init] _ assms(5)])
  then have v: "g_username (fst (handle_server_frames color fmt (down W s) (users W s))) = u"
    "g_room (fst (handle_server_frames color fmt (down W s) (users W s))) = m"
    "g_authenticated (fst (handle_server_frames color fmt (down W s) (users W s)))"
    using assms(4) by (simp_all add: will_show_def Let_def)
  obtain W' where "world_reachable e color fmt W W'" "server_side W' = server_side W" "down W' s = []"
    "users W' s = fst (handle_server_frames color fmt (down W s) (users W s))"
    using drain [where e = e, OF assms(4)] by blast
  with v show ?thesis by (intro exI [of _ W']) simp
qed

lemma client_view_converges_witness:
  "\<exists>W :: tables world. world_reachable table_engine False (\<lambda>_. '''') (world_init demo_db) W \<and>
    presence (clients (srv (server_side W))) 5 = Some (''alice'', kDefaultRoom) \<and>
    (\<exists>W'. world_reachable table_engine False (\<lambda>_. '''') W W' \<and> down W' 5 = [] \<and>
      build_prompt False (g_username (users W' 5)) (g_room (users W' 5)) = ''[general] alice> '')"
proof -
  obtain W where W: "world_reachable table_engine False (\<lambda>_. '''') (world_init demo_db) W"
    "presence (clients (srv (server_side W))) 5 = Some (''alice'', kDefaultRoom)" "g_connected (users W 5)"
    using network_demo by blast
  have "build_prompt False ''alice'' kDefaultRoom = ''[general] alice> ''" unfolding kDefaultRoom_def by code_simp
  moreover obtain W' where "world_reachable table_engine False (\<lambda>_. '''') W W'" "down W' 5 = []"
    "g_username (users W' 5) = ''alice''" "g_room (users W' 5) = kDefaultRoom"
    using client_view_converges [OF table_engine_documented W] by auto
  ultimately show ?thesis using W by (intro exI [of _ W] conjI exI [of _ W']) simp_all
qed

end
