(* ===== verification/Server_Io.thy ===== *)
theory Server_Io
  imports Framing
begin

text \<open>
  \<^verbatim>\<open>read_next_frame\<close> of chat_server.cpp. The loop ends for every peer: each turn that delivers no
  frame leaves a longer undecoded rest, and a rest stays below one maximal frame.
\<close>

definition kRecvBuffer :: nat where
  "kRecvBuffer = 4096"

lemma extract_no_frame:
  assumes "extract_frames pending [] = (True, rest, [])"
  shows "rest = pending" and "length pending < 4 + kMaxFramePayloadSize"
proof -
  from assms have s: "split_frames pending = ([], rest, True)"
    by (auto simp: extract_frames_eq split: prod.splits if_splits)
  then show "rest = pending" by (rule split_frames_Nil)
  then show "length pending < 4 + kMaxFramePayloadSize"
    using split_frames_rest [OF s] by simp
qed

text \<open>
  The result: the frame (None for the returned \<^verbatim>\<open>false\<close>), the network, and the new contents of
  \<^verbatim>\<open>pending\<close> and \<^verbatim>\<open>queue\<close>.
\<close>

function read_next_frame ::
    "'w net \<Rightarrow> 'w \<Rightarrow> SOCKET \<Rightarrow> u8 list \<Rightarrow> string list \<Rightarrow> string option \<times> 'w \<times> u8 list \<times> string list" where
  "read_next_frame net w sock pending queue =
     (case queue of
        [] \<Rightarrow>
          (case net_recv net w sock kRecvBuffer of
             (bytes, w') \<Rightarrow>
               if bytes = [] then (None, w', pending, [])
               else (case extract_frames (pending @ bytes) [] of
                       (ok, pending', frames) \<Rightarrow>
                         if \<not> ok then (None, w', pending', [])
                         else read_next_frame net w' sock pending' frames))
      | frame # rest \<Rightarrow> (Some frame, w, pending, rest))"
  by pat_completeness auto
termination
proof (relation "measure (\<lambda>(net, w, sock, pending, queue).
    if queue = [] then Suc (4 + kMaxFramePayloadSize - length pending) else 0)", goal_cases)
  case 1
  show ?case by simp
next
  case (2 net w sock pending queue bytes w' ok result pending' frames)
  then have "length (pending @ bytes) < 4 + kMaxFramePayloadSize \<and> pending' = pending @ bytes"
    if "frames = []"
    using extract_no_frame [of "pending @ bytes" pending'] that by simp
  with 2(1,3) show ?case by (cases "frames = []") (auto simp: diff_less_mono2)
qed

declare read_next_frame.simps [simp del]

section \<open>The frames of the connection, in order\<close>

text \<open>
  POSIX \<^verbatim>\<open>recv\<close> on a stream socket delivers the next bytes of the incoming stream; \<open>inbox w s\<close> is
  what the peer of socket \<open>s\<close> has sent and has not been received yet.
\<close>

definition recv_documented :: "'w net \<Rightarrow> ('w \<Rightarrow> SOCKET \<Rightarrow> u8 list) \<Rightarrow> bool" where
  "recv_documented net inbox \<longleftrightarrow>
     (\<forall>w s n bytes w'. net_recv net w s n = (bytes, w') \<longrightarrow>
        length bytes \<le> n \<and> inbox w s = bytes @ inbox w' s)"

lemma read_next_frame_frame:
  "read_next_frame net w sock pending (frame # rest) = (Some frame, w, pending, rest)"
  by (simp add: read_next_frame.simps [of net w sock pending])

lemma read_next_frame_stream:
  assumes "recv_documented net inbox"
    and "read_next_frame net w sock pending queue = (Some frame, w', pending', queue')"
    and "split_frames pending = ([], pending, True)"
  shows "\<exists>bytes fs. inbox w sock = bytes @ inbox w' sock \<and>
    split_frames (pending @ bytes) = (fs, pending', True) \<and> queue @ fs = frame # queue'"
  using assms
proof (induction net w sock pending queue rule: read_next_frame.induct)
  case (1 net w sock pending queue)
  note run = "1.prems"(2) [unfolded read_next_frame.simps [of net w sock pending queue]]
  show ?case
  proof (cases queue)
    case (Cons f rest)
    with run "1.prems"(3) show ?thesis by (intro exI [of _ "[]"]) auto
  next
    case Nil
    obtain bytes w1 where r: "net_recv net w sock kRecvBuffer = (bytes, w1)" by fastforce
    obtain ok p1 frames where x: "extract_frames (pending @ bytes) [] = (ok, p1, frames)"
      using prod_cases3 by blast
    from run Nil r x have ne: "bytes \<noteq> []" and ok: "ok"
      and go: "read_next_frame net w1 sock p1 frames = (Some frame, w', pending', queue')"
      by (auto split: if_splits)
    from x ok have s: "split_frames (pending @ bytes) = (frames, p1, True)"
      by (auto simp: extract_frames_eq split: prod.splits if_splits)
    then have "split_frames p1 = ([], p1, True)" using split_frames_rest by blast
    with "1.IH" [OF Nil r [symmetric] ne x [symmetric] refl] ok go "1.prems"(1)
    obtain bytes' fs where b: "inbox w1 sock = bytes' @ inbox w' sock"
      "split_frames (p1 @ bytes') = (fs, pending', True)" "frames @ fs = frame # queue'" by auto
    have "split_frames ((pending @ bytes) @ bytes') = (frames @ fs, pending', True)"
      using split_frames_append [OF s, of bytes'] b(2) by simp
    moreover have "inbox w sock = (bytes @ bytes') @ inbox w' sock"
      using "1.prems"(1) r b(1) by (auto simp: recv_documented_def)
    ultimately show ?thesis using Nil b(3) by (intro exI [of _ "bytes @ bytes'"]) auto
  qed
qed

end
