(* ===== verification/Protocol_Properties.thy ===== *)
theory Protocol_Properties
  imports Server_Io
begin

text \<open>
  What protocol.cpp guarantees: exact acceptance conditions of the decoders, and the passage of
  frames through a TCP stream, from \<^verbatim>\<open>send_frame\<close> on one side to \<^verbatim>\<open>extract_frames\<close> and
  \<^verbatim>\<open>read_next_frame\<close> on the other.
\<close>

section \<open>Decoders\<close>

text \<open>C17 (history codec). \<^verbatim>\<open>decode_history\<close> accepts a buffer exactly when it starts with the encoding of a list of
  at most 65535 messages whose fields fit their length fields, and then returns this list; every
  other buffer is refused, a truncated one and one with a wrong count in particular.\<close>

theorem history_decode_exact:
  "decode_history data = Some ms \<longleftrightarrow>
     length ms < 65536 \<and> (\<forall>m\<in>set ms. length (msg_room m) < 65536 \<and> length (msg_username m) < 65536 \<and>
       length (msg_content m) < 4294967296) \<and>
     (\<exists>rest. data = encode_history ms @ rest)"
  using history_codec.as_list.decode_iff [of data ms]
  by (auto simp: list_all_iff fits_chat_message_def prefix_def)

lemma history_decode_exact_witness:
  "decode_history (encode_history [\<lparr>msg_room = ''r'', msg_username = ''u'', msg_content = ''x'', msg_timestamp = 7\<rparr>] @ ''tail'') =
     Some [\<lparr>msg_room = ''r'', msg_username = ''u'', msg_content = ''x'', msg_timestamp = 7\<rparr>]"
  unfolding history_decode_exact by simp

text \<open>A history cut anywhere before its end is refused.\<close>

theorem truncated_history_refused:
  assumes "length ms < 65536" and "list_all fits_chat_message ms" and "n < length (encode_history ms)"
  shows "decode_history (take n (encode_history ms)) = None"
  using assms by (intro history_codec.as_list.decode_truncated) simp_all

lemma truncated_history_refused_witness:
  "decode_history (take 5 (encode_history [\<lparr>msg_room = ''r'', msg_username = ''u'', msg_content = ''x'', msg_timestamp = 7\<rparr>])) = None"
  by (rule truncated_history_refused)
    (simp_all add: fits_chat_message_def encode_history_eq encode_chat_message_eq count_field_def name_field_def text_field_def)

text \<open>\<^verbatim>\<open>decode_chat_message\<close> and \<^verbatim>\<open>decode_direct_message\<close> return a message exactly when the
  buffer starts with its encoding and its fields fit; the timestamp keeps all 64 bits.\<close>

theorem message_records_decode_exact:
  "(decode_chat_message data = Some m \<longleftrightarrow> fits_chat_message m \<and> prefix (encode_chat_message m) data) \<and>
   (decode_direct_message data = Some d \<longleftrightarrow> fits_direct_message d \<and> prefix (encode_direct_message d) data)"
  using chat_codec.decode_iff direct_codec.decode_iff by blast

text \<open>A user list is decoded exactly from the buffers that start with its encoding.\<close>

theorem user_list_decode_exact:
  "decode_user_list data = Some us \<longleftrightarrow>
     length us < 65536 \<and> list_all fits_name us \<and> prefix (encode_user_list us) data"
  using users_codec.as_list.decode_iff [of data us] by simp

text \<open>Every non-empty frame is a typed message, and the type and the payload determine the frame; all
  seventeen types survive the passage.\<close>

theorem typed_message_round_trip:
  "(decode_message frame = None \<longleftrightarrow> frame = []) \<and>
   (decode_message frame = Some (t, p) \<longrightarrow> encode_message t p = frame) \<and>
   list_all (\<lambda>t. decode_message (encode_message t p) = Some (t, p)) msg_types"
  by (simp add: decode_message_None_iff decode_message_Some_iff decode_message_encode list_all_iff msg_of_code_msg_code)

lemma typed_message_round_trip_witness:
  "encode_message Join ''dev'' = CHR 0x08 # ''dev''"
proof -
  have "decode_message (CHR 0x08 # ''dev'') = Some (Join, ''dev'')" by code_simp
  with typed_message_round_trip [of "CHR 0x08 # ''dev''" Join "''dev''"] show ?thesis by blast
qed

section \<open>Sending and receiving\<close>

text \<open>A network that accepts everything: its state is what was written to each socket.\<close>

definition tape_net :: "(SOCKET \<Rightarrow> string) net" where
  "tape_net = \<lparr>net_send = (\<lambda>w s data. (int (length data), w(s := w s @ data))),
     net_recv = (\<lambda>w s n. (map u8_of_char (take n (w s)), w(s := drop n (w s))))\<rparr>"

lemma tape_net_documented: "net_documented tape_net (\<lambda>w. w)"
  by (simp add: net_documented_def tape_net_def)

lemma tape_net_recv: "recv_documented tape_net (\<lambda>w s. map u8_of_char (w s))"
  by (auto simp: recv_documented_def tape_net_def) (metis append_take_drop_id map_append)

lemma tape_send_all: "send_all tape_net w s data = (True, w(s := w s @ data))"
proof (cases "data = []")
  case True
  then show ?thesis by (simp add: send_all_def send_all_loop.simps)
next
  case False
  then have "send_all_loop tape_net w s data 0 = send_all_loop tape_net (w(s := w s @ data)) s data (length data)"
    by (subst send_all_loop.simps) (simp add: tape_net_def)
  then show ?thesis by (simp add: send_all_def send_all_loop.simps [of _ _ _ _ "length data"])
qed

text \<open>C12 (sender). A frame whose sending succeeds is appended whole to what the socket has sent, so the receiver
  gets exactly the earlier frames and this one; one whose sending fails never makes the receiver
  see a wrong or additional frame. No other socket is touched.\<close>

theorem send_frame_delivers:
  assumes "net_documented net wire" and "map u8_of_char (wire w s) = wire_bytes ps"
    and "list_all (\<lambda>p. length p \<le> kMaxFramePayloadSize) ps"
    and "send_frame net w s p = (ok, w')"
  shows "(\<exists>rest. extract_frames (map u8_of_char (wire w' s)) [] = (True, rest, if ok then ps @ [p] else ps) \<and>
      (ok \<longrightarrow> rest = [])) \<and> (\<forall>s'. s' \<noteq> s \<longrightarrow> wire w' s' = wire w s')"
proof -
  obtain k where w': "wire w' = (wire w)(s := wire w s @ take k (frame_bytes p))"
    and ok: "ok \<longleftrightarrow> length p \<le> kMaxFramePayloadSize \<and> k = length (frame_bytes p)"
    and k: "k \<le> length (frame_bytes p)" and big: "length p > kMaxFramePayloadSize \<longrightarrow> w' = w"
    using send_frame_wire [OF assms(1,4)] by blast
  have e: "extract_frames (wire_bytes ps @ t) [] =
      (case split_frames t of (fs, rest, ok) \<Rightarrow> (ok, if ok then rest else wire_bytes ps @ t, ps @ fs))" for t
    using split_frames_wire [OF assms(3), of t] by (simp add: extract_frames_eq split: prod.splits)
  have "\<exists>rest. extract_frames (map u8_of_char (wire w' s)) [] = (True, rest, if ok then ps @ [p] else ps) \<and>
      (ok \<longrightarrow> rest = [])"
  proof (cases ok)
    case True
    with ok have p: "length p \<le> kMaxFramePayloadSize" and "take k (frame_bytes p) = frame_bytes p" by auto
    with w' assms(2) have "map u8_of_char (wire w' s) = wire_bytes ps @ map u8_of_char (frame_bytes p)" by simp
    with e split_frames_frame [OF p, of "[]"] True show ?thesis by (simp add: split_frames_short)
  next
    case False
    show ?thesis
    proof (cases "length p > kMaxFramePayloadSize")
      case True
      with big assms(2) e [of "[]"] False show ?thesis by (simp add: split_frames_short)
    next
      case fits: False
      then have kl: "k < 4 + length p" using ok False k by (auto simp: frame_bytes_def)
      let ?t = "map u8_of_char (take k (frame_bytes p))"
      have "split_frames ?t = ([], ?t, True)"
      proof (cases "k < 4")
        case True
        then show ?thesis by (intro split_frames_short) simp
      next
        case False
        have "take 4 ?t = take 4 (map u8_of_char (frame_bytes p) @ [])"
          using False by (simp add: take_map min_def)
        then have "unat (be_join (take 4 ?t) :: u32) = length p"
          using header_value [of p "[]"] fits by simp
        then show ?thesis using False fits kl by (intro split_frames_incomplete) (simp_all add: frame_bytes_def)
      qed
      with e [of ?t] w' assms(2) False show ?thesis by simp
    qed
  qed
  with w' show ?thesis by simp
qed

lemma send_frame_delivers_witness:
  "\<exists>w'. send_frame tape_net (\<lambda>_. '''') 3 ''hello'' = (True, w') \<and>
     (\<exists>rest. extract_frames (map u8_of_char (w' 3)) [] = (True, rest, [''hello'']))"
proof -
  have s: "send_frame tape_net (\<lambda>_. '''') 3 ''hello'' = (True, (\<lambda>_. '''')(3 := length_header ''hello'' @ ''hello''))"
    by (simp add: send_frame_def kMaxFramePayloadSize_def tape_send_all)
  have "map u8_of_char ((\<lambda>_. '''') (3 :: int)) = wire_bytes []" by simp
  from send_frame_delivers [OF tape_net_documented this _ s] s show ?thesis by auto
qed

text \<open>C13 (fragmentation). However the byte stream of a sequence of frames is cut into reads, the receiver that
  extracts after every read gets exactly these frames, in order, and keeps nothing back.\<close>

theorem frames_survive_fragmentation:
  assumes "list_all (\<lambda>p. length p \<le> kMaxFramePayloadSize) ps" and "concat pieces = wire_bytes ps"
  shows "feed extract_stream [] pieces = (ps, [], True)"
proof -
  have "extract_stream (wire_bytes ps) = (ps, [], True)"
    using split_frames_wire [OF assms(1), of "[]"] by (simp add: extract_stream_eq split_frames_short)
  then show ?thesis using frames.feed_whole [of pieces] assms(2) by simp
qed

lemma frames_survive_fragmentation_witness:
  "feed extract_stream [] [[0], [0, 0, 2, 104], [105, 0, 0, 0], [0]] = ([''hi'', ''''], [], True)"
proof (rule frames_survive_fragmentation)
  have "u8_of_char (CHR ''h'') = 104" "u8_of_char (CHR ''i'') = 105" by code_simp+
  then show "concat [[0], [0, 0, 2, 104], [105, 0, 0, 0], [0]] = wire_bytes [''hi'', '''']"
    by (simp add: frame_bytes_def length_header_def be_split_def comp_def upt_rec)
qed (simp add: kMaxFramePayloadSize_def)

text \<open>C23 (reference). \<^verbatim>\<open>extract_frames\<close>, which walks an offset through its buffer, computes the recursive splitting of
  the stream; it leaves less than one maximal frame undecoded, and there is no further frame in
  what it leaves.\<close>

theorem extract_frames_is_split:
  "extract_frames pending frames =
     (case split_frames pending of (fs, rest, ok) \<Rightarrow> (ok, if ok then rest else pending, frames @ fs)) \<and>
   (fst (extract_frames pending frames) \<longrightarrow>
      length (fst (snd (extract_frames pending frames))) < 4 + kMaxFramePayloadSize \<and>
      extract_frames (fst (snd (extract_frames pending frames))) [] =
        (True, fst (snd (extract_frames pending frames)), []))"
proof (intro conjI impI)
  show eq: "extract_frames pending frames =
      (case split_frames pending of (fs, rest, ok) \<Rightarrow> (ok, if ok then rest else pending, frames @ fs))"
    by (rule extract_frames_eq)
  assume ok: "fst (extract_frames pending frames)"
  obtain fs rest where s: "split_frames pending = (fs, rest, True)"
    using ok eq by (cases "split_frames pending") auto
  note R = split_frames_rest [OF s]
  show "length (fst (snd (extract_frames pending frames))) < 4 + kMaxFramePayloadSize"
    using R s by (simp add: eq)
  show "extract_frames (fst (snd (extract_frames pending frames))) [] =
      (True, fst (snd (extract_frames pending frames)), [])"
    using R s by (simp add: eq extract_frames_eq)
qed

lemma extract_frames_is_split_witness:
  "extract_frames (map u8_of_char (frame_bytes ''A'') @ [0, 0]) [] = (True, [0, 0], [''A'']) \<and>
   extract_frames [0, 0] [] = (True, [0, 0], [])"
proof -
  let ?s = "map u8_of_char (frame_bytes ''A'') @ [0, 0]"
  have e: "extract_frames ?s [] = (True, [0, 0], [''A''])"
    using split_frames_frame [of "''A''" "[0, 0]"]
    by (simp add: extract_frames_eq split_frames_short kMaxFramePayloadSize_def)
  from extract_frames_is_split [of ?s "[]"] show ?thesis by (simp add: e)
qed

text \<open>C24 (reader). \<^verbatim>\<open>read_next_frame\<close> hands out the frames of the connection in the order they were sent: the frame it
  returns and the ones it keeps in its queue are the queue it had, followed by the frames completed
  by the bytes it has read; the bytes come from the front of what the peer sent.\<close>

theorem read_next_frame_in_order:
  assumes "recv_documented net inbox"
    and "read_next_frame net w sock pending queue = (Some frame, w', pending', queue')"
    and "split_frames pending = ([], pending, True)"
  shows "\<exists>bytes fs. inbox w sock = bytes @ inbox w' sock \<and>
    extract_frames (pending @ bytes) queue = (True, pending', frame # queue') \<and>
    queue @ fs = frame # queue'"
proof -
  obtain bytes fs where "inbox w sock = bytes @ inbox w' sock"
    "split_frames (pending @ bytes) = (fs, pending', True)" "queue @ fs = frame # queue'"
    using read_next_frame_stream [OF assms] by blast
  then show ?thesis by (intro exI [of _ bytes] exI [of _ fs]) (simp add: extract_frames_eq)
qed

lemma read_next_frame_in_order_witness:
  "\<exists>w' p' q'. read_next_frame tape_net ((\<lambda>_. '''')(4 := frame_bytes ''hi'')) 4 [] [] = (Some ''hi'', w', p', q') \<and>
     (\<exists>bytes. extract_frames bytes [] = (True, p', ''hi'' # q'))"
proof -
  let ?w = "(\<lambda>_. '''')(4 := frame_bytes ''hi'')"
  let ?b = "map u8_of_char (frame_bytes ''hi'')"
  have e: "extract_frames ?b [] = (True, [], [''hi''])"
    using split_frames_frame [of "''hi''" "[]"] by (simp add: extract_frames_eq split_frames_short kMaxFramePayloadSize_def)
  have "length (frame_bytes ''hi'') \<le> kRecvBuffer" by (simp add: frame_bytes_def kRecvBuffer_def)
  then have r: "read_next_frame tape_net ?w 4 [] [] = (Some ''hi'', ?w(4 := ''''), [], [])"
    using e by (subst read_next_frame.simps) (simp add: tape_net_def read_next_frame.simps frame_bytes_def)
  from read_next_frame_in_order [OF tape_net_recv r] r show ?thesis
    by (auto simp: split_frames_short)
qed

section \<open>Unsynchronised senders\<close>

text \<open>\<^verbatim>\<open>send_frame\<close> writes header and payload in two calls and takes no lock. When two threads of the
  server write to the same client at the same time, as two broadcasts do, the calls can alternate;
  then the client's stream is no longer a sequence of frames, and it drops the connection.\<close>

theorem alternating_senders_break_stream:
  assumes "net_documented net wire" and "wire w s = ''''"
    and "send_all net w s (length_header ''ab'') = (True, w1)"
    and "send_all net w1 s (length_header ''cd'') = (True, w2)"
    and "send_all net w2 s ''ab'' = (True, w3)" and "send_all net w3 s ''cd'' = (True, w4)"
  shows "\<exists>rest frames. extract_frames (map u8_of_char (wire w4 s)) [] = (False, rest, frames) \<and> ''ab'' \<notin> set frames"
proof -
  have step: "wire w' s = wire w s @ data" if "send_all net w s data = (True, w')" for w w' data
    using send_all_wire [OF assms(1) that] by auto
  have "wire w4 s = length_header ''ab'' @ length_header ''cd'' @ ''ab'' @ ''cd''"
    using step [OF assms(3)] step [OF assms(4)] step [OF assms(5)] step [OF assms(6)] assms(2) by simp
  moreover have "map u8_of_char (length_header ''ab'') = [0, 0, 0, 2]" "map u8_of_char (length_header ''cd'') = [0, 0, 0, 2]"
    by (simp_all add: length_header_def be_split_def comp_def upt_rec)
  moreover have "map u8_of_char (''ab'' @ ''cd'') = [97, 98, 99, 100]" by code_simp
  ultimately have stream: "map u8_of_char (wire w4 s) = [0, 0, 0, 2, 0, 0, 0, 2, 97, 98, 99, 100]" by simp
  have "u8_of_char (CHR 0x00) = 0" by code_simp
  then have "map u8_of_char (frame_bytes [CHR 0x00, CHR 0x00]) = [0, 0, 0, 2, 0, 0]"
    by (simp add: frame_bytes_def length_header_def be_split_def comp_def upt_rec)
  moreover have "split_frames [0, 2, 97, 98, 99, 100] = ([], [0, 2, 97, 98, 99, 100], False)"
    by (intro split_frames_oversized) (simp_all add: be_join_def kMaxFramePayloadSize_def)
  ultimately have "split_frames [0, 0, 0, 2, 0, 0, 0, 2, 97, 98, 99, 100] =
      ([[CHR 0x00, CHR 0x00]], [0, 2, 97, 98, 99, 100], False)"
    using split_frames_frame [of "[CHR 0x00, CHR 0x00]" "[0, 2, 97, 98, 99, 100]"]
    by (simp add: kMaxFramePayloadSize_def)
  then show ?thesis unfolding stream by (simp add: extract_frames_eq)
qed

lemma alternating_senders_break_stream_witness:
  "\<exists>rest frames. extract_frames (map u8_of_char (length_header ''ab'' @ length_header ''cd'' @ ''ab'' @ ''cd'')) [] =
     (False, rest, frames) \<and> ''ab'' \<notin> set frames"
proof -
  define w :: "SOCKET \<Rightarrow> string" where "w = (\<lambda>_. '''')"
  have "w 3 = ''''" by (simp add: w_def)
  then have "(\<lambda>w. w) w 3 = ''''" by simp
  note X = alternating_senders_break_stream [of tape_net "\<lambda>w. w" w 3, OF tape_net_documented this
      tape_send_all tape_send_all tape_send_all tape_send_all]
  then show ?thesis by (simp add: w_def)
qed

end
