(* ===== verification/Start_Up.thy ===== *)
theory Start_Up
  imports Client_Main Server_Main
begin

text \<open>
  Start-up of the two programs side by side: what each makes of its port argument.
\<close>

text \<open>The client does not check its port: whatever number is given, it connects to that number modulo
  65536 while it tells the user the number itself, so a port above 65535 reaches another service.
  The server refuses such a number.\<close>

theorem client_port_wraps:
  assumes "client_startup os color args w = Some (events, r)" and "length args > 2"
    and "args ! 2 = nat_to_string n" and "n < 2 ^ 31" and "Connect s a p \<in> set events"
  shows "unat p = n mod 65536 \<and>
    Act (Print (''Connecting to '' @ client_host args @ '':'' @ nat_to_string n @ '' ...\<newline>'')) \<in> set events \<and>
    (n > 65535 \<longrightarrow> (\<exists>m. server_startup los e tty [''ChatServer'', nat_to_string n] lw = Some ([Err m], lw, Inl 1)))"
proof -
  have port: "client_port args = Some (int n)"
    using assms(2-4) atoi_to_string by (simp add: client_port_def)
  have sport: "server_port [''ChatServer'', nat_to_string n] = Some (int n)"
    using assms(4) atoi_to_string by (simp add: server_port_def)
  have "p = word_of_int (int n) \<and>
      Act (Print (''Connecting to '' @ client_host args @ '':'' @ to_string (int n) @ '' ...\<newline>'')) \<in> set events"
    using assms(1,5) port
    by (auto simp: client_startup_def Let_def split: prod.splits if_splits)
  moreover have "to_string (int n) = nat_to_string n" by (simp add: to_string_def)
  moreover have "unat (word_of_int (int n) :: u16) = n mod 65536" by (simp add: unat_of_nat)
  moreover have "server_startup los e tty [''ChatServer'', nat_to_string n] lw =
      Some ([Err (''Invalid port: '' @ to_string (int n) @ ''\<newline>'')], lw, Inl 1)" if "n > 65535"
    using sport that by (simp add: server_startup_def Let_def)
  ultimately show ?thesis by auto
qed

theorem client_port_wraps_witness:
  "\<exists>events r. client_startup willing_net False [''ChatClient'', ''127.0.0.1'', nat_to_string 65616] () = Some (events, r) \<and>
     Connect 3 0x7F000001 80 \<in> set events \<and>
     Act (Print (''Connecting to 127.0.0.1:'' @ nat_to_string 65616 @ '' ...\<newline>'')) \<in> set events"
proof -
  have port: "client_port [''ChatClient'', ''127.0.0.1'', nat_to_string 65616] = Some 65616"
    using atoi_to_string [of 65616] by (simp add: client_port_def)
  obtain events r where
    run: "client_startup willing_net False [''ChatClient'', ''127.0.0.1'', nat_to_string 65616] () = Some (events, r)"
    and c: "Connect 3 0x7F000001 80 \<in> set events"
    by (simp add: client_startup_def port willing_net_def INVALID_SOCKET_def Let_def)
  have "Act (Print (''Connecting to 127.0.0.1:'' @ nat_to_string 65616 @ '' ...\<newline>'')) \<in> set events"
    using client_port_wraps [OF run _ _ _ c, of 65616 willing_os table_engine 0 "()"]
    by (simp add: client_host_def)
  with run c show ?thesis by blast
qed

end
