(* ===== verification/Compiler_Probe.thy ===== *)
theory Compiler_Probe
  imports Cpp_String "HOL-Library.Signed_Division"
begin

text \<open>
  The compiler identification source CMakeCXXCompilerId.cpp that the build directories of the
  repository hold. It is a program for the preprocessor: from the macros the compiler predefines
  it builds the strings CMake reads back from the binary. Here the predefined macros are an
  environment, each section of the file is a function of it, and a macro the file defines under a
  condition is an optional field of a record.

  A macro that stands for nothing or for text other than an integer or a string literal is \<open>Other\<close>.
  In \<^verbatim>\<open>#if\<close> an undefined name counts as 0; in an initialiser it does not compile, so the arguments of
  \<open>DEC\<close> and \<open>HEX\<close> are optional and the strings are \<open>IllFormed\<close> where one is missing.
\<close>

section \<open>Macros and expressions\<close>

datatype mval = Num int | Str string | Other

type_synonym macros = "string \<rightharpoonup> mval"

definition is_defined :: "macros \<Rightarrow> string \<Rightarrow> bool" where
  "is_defined e n \<longleftrightarrow> e n \<noteq> None"

definition any_defined :: "macros \<Rightarrow> string list \<Rightarrow> bool" where
  "any_defined e ns \<longleftrightarrow> list_ex (is_defined e) ns"

definition number :: "macros \<Rightarrow> string \<Rightarrow> int option" where
  "number e n = (case e n of Some (Num v) \<Rightarrow> Some v | _ \<Rightarrow> None)"

definition text_of :: "macros \<Rightarrow> string \<Rightarrow> string option" where
  "text_of e n = (case e n of Some (Str s) \<Rightarrow> Some s | _ \<Rightarrow> None)"

definition if_value :: "macros \<Rightarrow> string \<Rightarrow> int" where
  "if_value e n = (case number e n of Some v \<Rightarrow> v | None \<Rightarrow> 0)"

text \<open>The integer operators of C++: \<^verbatim>\<open>/\<close> and \<^verbatim>\<open>%\<close> truncate towards zero.\<close>

definition over :: "int option \<Rightarrow> int \<Rightarrow> int option" where
  "over x k = map_option (\<lambda>v. v sdiv k) x"

definition modulo :: "int option \<Rightarrow> int \<Rightarrow> int option" where
  "modulo x k = map_option (\<lambda>v. v smod k) x"

definition shifted :: "int option \<Rightarrow> nat \<Rightarrow> int option" where
  "shifted x k = map_option (drop_bit k) x"

definition masked :: "int option \<Rightarrow> int \<Rightarrow> int option" where
  "masked x k = map_option (\<lambda>v. v AND k) x"

text \<open>The macro calls that stand for eight digit characters.\<close>

datatype literal = DEC "int option" | HEX "int option"

text \<open>
  What the first section defines: the name of the compiler, of the one it imitates, and the parts
  of the version numbers. None is a macro that is not defined.
\<close>

record compiler =
  COMPILER_ID :: string
  SIMULATE_ID :: "string option"
  COMPILER_VERSION :: "string option option"
  VERSION_MAJOR :: "literal option"
  VERSION_MINOR :: "literal option"
  VERSION_PATCH :: "literal option"
  VERSION_TWEAK :: "literal option"
  VERSION_INTERNAL :: "literal option"
  VERSION_INTERNAL_STR :: "string option option"
  SIMULATE_MAJOR :: "literal option"
  SIMULATE_MINOR :: "literal option"
  SIMULATE_PATCH :: "literal option"

definition compiler_named :: "string \<Rightarrow> compiler" where
  "compiler_named name =
     \<lparr>COMPILER_ID = name, SIMULATE_ID = None, COMPILER_VERSION = None,
      VERSION_MAJOR = None, VERSION_MINOR = None, VERSION_PATCH = None, VERSION_TWEAK = None,
      VERSION_INTERNAL = None, VERSION_INTERNAL_STR = None,
      SIMULATE_MAJOR = None, SIMULATE_MINOR = None, SIMULATE_PATCH = None\<rparr>"

definition versioned :: "string \<Rightarrow> literal \<Rightarrow> literal \<Rightarrow> compiler" where
  "versioned name major minor =
     (compiler_named name)\<lparr>VERSION_MAJOR := Some major, VERSION_MINOR := Some minor\<rparr>"

definition patched :: "string \<Rightarrow> literal \<Rightarrow> literal \<Rightarrow> literal \<Rightarrow> compiler" where
  "patched name major minor patch = (versioned name major minor)\<lparr>VERSION_PATCH := Some patch\<rparr>"

text \<open>A macro that is defined only under a condition.\<close>

definition only_if :: "bool \<Rightarrow> 'a \<Rightarrow> 'a option" where
  "only_if b x = (if b then Some x else None)"

section \<open>The compiler\<close>

text \<open>
  The chain of \<^verbatim>\<open>#if\<close> and \<^verbatim>\<open>#elif\<close>, in its order and in six pieces. Where a branch defines a
  macro twice, the later definition counts.
\<close>

definition msvc_simulation :: "macros \<Rightarrow> compiler \<Rightarrow> compiler" where
  "msvc_simulation e c =
     (if is_defined e ''_MSC_VER''
      then c\<lparr>SIMULATE_ID := Some ''MSVC'',
             SIMULATE_MAJOR := Some (DEC (over (number e ''_MSC_VER'') 100)),
             SIMULATE_MINOR := Some (DEC (modulo (number e ''_MSC_VER'') 100))\<rparr>
      else c)"

definition gnu_simulation :: "macros \<Rightarrow> compiler \<Rightarrow> compiler" where
  "gnu_simulation e c =
     (let c = (if is_defined e ''__GNUC__'' then c\<lparr>SIMULATE_ID := Some ''GNU''\<rparr> else c);
          c = (if is_defined e ''__GNUC__'' then c\<lparr>SIMULATE_MAJOR := Some (DEC (number e ''__GNUC__''))\<rparr>
               else if is_defined e ''__GNUG__'' then c\<lparr>SIMULATE_MAJOR := Some (DEC (number e ''__GNUG__''))\<rparr>
               else c);
          c = (if is_defined e ''__GNUC_MINOR__''
               then c\<lparr>SIMULATE_MINOR := Some (DEC (number e ''__GNUC_MINOR__''))\<rparr> else c)
      in if is_defined e ''__GNUC_PATCHLEVEL__''
         then c\<lparr>SIMULATE_PATCH := Some (DEC (number e ''__GNUC_PATCHLEVEL__''))\<rparr> else c)"

definition id_last :: "macros \<Rightarrow> compiler" where
  "id_last e =
     (if is_defined e ''__GNUC__'' \<or> is_defined e ''__GNUG__'' then
        (compiler_named ''GNU'')
          \<lparr>VERSION_MAJOR := Some (if is_defined e ''__GNUC__'' then DEC (number e ''__GNUC__'')
                                  else DEC (number e ''__GNUG__'')),
           VERSION_MINOR := only_if (is_defined e ''__GNUC_MINOR__'') (DEC (number e ''__GNUC_MINOR__'')),
           VERSION_PATCH := only_if (is_defined e ''__GNUC_PATCHLEVEL__'')
             (DEC (number e ''__GNUC_PATCHLEVEL__''))\<rparr>
      else if is_defined e ''_MSC_VER'' then
        (versioned ''MSVC'' (DEC (over (number e ''_MSC_VER'') 100)) (DEC (modulo (number e ''_MSC_VER'') 100)))
          \<lparr>VERSION_PATCH := only_if (is_defined e ''_MSC_FULL_VER'')
             (if if_value e ''_MSC_VER'' \<ge> 1400 then DEC (modulo (number e ''_MSC_FULL_VER'') 100000)
              else DEC (modulo (number e ''_MSC_FULL_VER'') 10000)),
           VERSION_TWEAK := only_if (is_defined e ''_MSC_BUILD'') (DEC (number e ''_MSC_BUILD''))\<rparr>
      else if is_defined e ''_ADI_COMPILER'' then
        (if is_defined e ''__VERSIONNUM__'' then
           (patched ''ADSP'' (DEC (masked (shifted (number e ''__VERSIONNUM__'') 24) 0xFF))
              (DEC (masked (shifted (number e ''__VERSIONNUM__'') 16) 0xFF))
              (DEC (masked (shifted (number e ''__VERSIONNUM__'') 8) 0xFF)))
             \<lparr>VERSION_TWEAK := Some (DEC (masked (number e ''__VERSIONNUM__'') 0xFF))\<rparr>
         else compiler_named ''ADSP'')
      else if is_defined e ''__IAR_SYSTEMS_ICC__'' \<or> is_defined e ''__IAR_SYSTEMS_ICC'' then
        (if is_defined e ''__VER__'' \<and> is_defined e ''__ICCARM__'' then
           (patched ''IAR'' (DEC (over (number e ''__VER__'') 1000000))
              (DEC (modulo (over (number e ''__VER__'') 1000) 1000)) (DEC (modulo (number e ''__VER__'') 1000)))
             \<lparr>VERSION_INTERNAL := Some (DEC (number e ''__IAR_SYSTEMS_ICC__''))\<rparr>
         else if is_defined e ''__VER__'' \<and>
           any_defined e [''__ICCAVR__'', ''__ICCRX__'', ''__ICCRH850__'', ''__ICCRL78__'', ''__ICC430__'',
             ''__ICCRISCV__'', ''__ICCV850__'', ''__ICC8051__'', ''__ICCSTM8__''] then
           (patched ''IAR'' (DEC (over (number e ''__VER__'') 100))
              (DEC (map_option (\<lambda>v. v - (v sdiv 100) * 100) (number e ''__VER__'')))
              (DEC (number e ''__SUBVERSION__'')))
             \<lparr>VERSION_INTERNAL := Some (DEC (number e ''__IAR_SYSTEMS_ICC__''))\<rparr>
         else compiler_named ''IAR'')
      else if is_defined e ''__DCC__'' \<and> is_defined e ''_DIAB_TOOL'' then
        (patched ''Diab'' (DEC (number e ''__VERSION_MAJOR_NUMBER__''))
           (DEC (number e ''__VERSION_MINOR_NUMBER__'')) (DEC (number e ''__VERSION_ARCH_FEATURE_NUMBER__'')))
          \<lparr>VERSION_TWEAK := Some (DEC (number e ''__VERSION_BUG_FIX_NUMBER__''))\<rparr>
      else if is_defined e ''__hpux'' \<or> is_defined e ''__hpua'' then compiler_named ''HP''
      else compiler_named '''')"

definition id_clang :: "macros \<Rightarrow> compiler" where
  "id_clang e =
     (if is_defined e ''__clang__'' \<and> is_defined e ''__apple_build_version__'' then
        msvc_simulation e
          ((patched ''AppleClang'' (DEC (number e ''__clang_major__'')) (DEC (number e ''__clang_minor__''))
             (DEC (number e ''__clang_patchlevel__'')))
            \<lparr>VERSION_TWEAK := Some (DEC (number e ''__apple_build_version__''))\<rparr>)
      else if is_defined e ''__clang__'' \<and> is_defined e ''__ARMCOMPILER_VERSION'' then
        (patched ''ARMClang'' (DEC (over (number e ''__ARMCOMPILER_VERSION'') 1000000))
           (DEC (modulo (over (number e ''__ARMCOMPILER_VERSION'') 10000) 100))
           (DEC (modulo (over (number e ''__ARMCOMPILER_VERSION'') 100) 100)))
          \<lparr>VERSION_INTERNAL := Some (DEC (number e ''__ARMCOMPILER_VERSION''))\<rparr>
      else if is_defined e ''__clang__'' \<and> is_defined e ''__ti__'' then
        (patched ''TIClang'' (DEC (number e ''__ti_major__'')) (DEC (number e ''__ti_minor__''))
           (DEC (number e ''__ti_patchlevel__'')))
          \<lparr>VERSION_INTERNAL := Some (DEC (number e ''__ti_version__''))\<rparr>
      else if is_defined e ''__clang__'' then
        msvc_simulation e
          (patched ''Clang'' (DEC (number e ''__clang_major__'')) (DEC (number e ''__clang_minor__''))
             (DEC (number e ''__clang_patchlevel__'')))
      else if is_defined e ''__LCC__'' \<and> any_defined e [''__GNUC__'', ''__GNUG__'', ''__MCST__''] then
        (let c = (versioned ''LCC'' (DEC (over (number e ''__LCC__'') 100))
                    (DEC (modulo (number e ''__LCC__'') 100)))
                   \<lparr>VERSION_PATCH := only_if (is_defined e ''__LCC_MINOR__'') (DEC (number e ''__LCC_MINOR__''))\<rparr>
         in if is_defined e ''__GNUC__'' \<and> is_defined e ''__GNUC_MINOR__'' then
              c\<lparr>SIMULATE_ID := Some ''GNU'', SIMULATE_MAJOR := Some (DEC (number e ''__GNUC__'')),
                SIMULATE_MINOR := Some (DEC (number e ''__GNUC_MINOR__'')),
                SIMULATE_PATCH := only_if (is_defined e ''__GNUC_PATCHLEVEL__'')
                  (DEC (number e ''__GNUC_PATCHLEVEL__''))\<rparr>
            else c)
      else id_last e)"

definition id_embedded :: "macros \<Rightarrow> compiler" where
  "id_embedded e =
     (if is_defined e ''__FUJITSU'' then
        (let c = (if is_defined e ''__FCC_version__''
                  then (compiler_named ''Fujitsu'')\<lparr>COMPILER_VERSION := Some (text_of e ''__FCC_version__'')\<rparr>
                  else if is_defined e ''__FCC_major__''
                  then patched ''Fujitsu'' (DEC (number e ''__FCC_major__'')) (DEC (number e ''__FCC_minor__''))
                         (DEC (number e ''__FCC_patchlevel__''))
                  else compiler_named ''Fujitsu'')
         in c\<lparr>VERSION_INTERNAL :=
               (if is_defined e ''__fcc_version'' then Some (DEC (number e ''__fcc_version''))
                else only_if (is_defined e ''__FCC_VERSION'') (DEC (number e ''__FCC_VERSION'')))\<rparr>)
      else if is_defined e ''__ghs__'' then
        (if is_defined e ''__GHS_VERSION_NUMBER'' then
           patched ''GHS'' (DEC (over (number e ''__GHS_VERSION_NUMBER'') 100))
             (DEC (modulo (over (number e ''__GHS_VERSION_NUMBER'') 10) 10))
             (DEC (modulo (number e ''__GHS_VERSION_NUMBER'') 10))
         else compiler_named ''GHS'')
      else if is_defined e ''__TASKING__'' then
        (versioned ''Tasking'' (DEC (over (number e ''__VERSION__'') 1000))
           (DEC (modulo (number e ''__VERSION__'') 100)))
          \<lparr>VERSION_INTERNAL := Some (DEC (number e ''__VERSION__''))\<rparr>
      else if is_defined e ''__ORANGEC__'' then
        patched ''OrangeC'' (DEC (number e ''__ORANGEC_MAJOR__'')) (DEC (number e ''__ORANGEC_MINOR__''))
          (DEC (number e ''__ORANGEC_PATCHLEVEL__''))
      else if is_defined e ''__RENESAS__'' then
        patched ''Renesas'' (HEX (masked (shifted (number e ''__RENESAS_VERSION__'') 24) 0xFF))
          (HEX (masked (shifted (number e ''__RENESAS_VERSION__'') 16) 0xFF))
          (HEX (masked (shifted (number e ''__RENESAS_VERSION__'') 8) 0xFF))
      else if is_defined e ''__SCO_VERSION__'' then compiler_named ''SCO''
      else if is_defined e ''__ARMCC_VERSION'' \<and> \<not> is_defined e ''__clang__'' then
        (if if_value e ''__ARMCC_VERSION'' \<ge> 1000000 then
           patched ''ARMCC'' (DEC (over (number e ''__ARMCC_VERSION'') 1000000))
             (DEC (modulo (over (number e ''__ARMCC_VERSION'') 10000) 100))
             (DEC (modulo (number e ''__ARMCC_VERSION'') 10000))
         else
           patched ''ARMCC'' (DEC (over (number e ''__ARMCC_VERSION'') 100000))
             (DEC (modulo (over (number e ''__ARMCC_VERSION'') 10000) 10))
             (DEC (modulo (number e ''__ARMCC_VERSION'') 10000)))
      else id_clang e)"

definition decimal_vrp :: "string \<Rightarrow> int option \<Rightarrow> compiler" where
  "decimal_vrp name v = patched name (DEC (over v 100)) (DEC (modulo (over v 10) 10)) (DEC (modulo v 10))"

definition id_vendor :: "macros \<Rightarrow> compiler" where
  "id_vendor e =
     (if is_defined e ''__IBMCPP__'' \<and> is_defined e ''__COMPILER_VER__'' then
        decimal_vrp ''zOS'' (number e ''__IBMCPP__'')
      else if is_defined e ''__open_xl__'' \<and> is_defined e ''__clang__'' then
        (patched ''IBMClang'' (DEC (number e ''__open_xl_version__'')) (DEC (number e ''__open_xl_release__''))
           (DEC (number e ''__open_xl_modification__'')))
          \<lparr>VERSION_TWEAK := Some (DEC (number e ''__open_xl_ptf_fix_level__'')),
           VERSION_INTERNAL_STR := Some (text_of e ''__clang_version__'')\<rparr>
      else if is_defined e ''__ibmxl__'' \<and> is_defined e ''__clang__'' then
        (patched ''XLClang'' (DEC (number e ''__ibmxl_version__'')) (DEC (number e ''__ibmxl_release__''))
           (DEC (number e ''__ibmxl_modification__'')))
          \<lparr>VERSION_TWEAK := Some (DEC (number e ''__ibmxl_ptf_fix_level__''))\<rparr>
      else if is_defined e ''__IBMCPP__'' \<and> \<not> is_defined e ''__COMPILER_VER__'' \<and>
        if_value e ''__IBMCPP__'' \<ge> 800 then decimal_vrp ''XL'' (number e ''__IBMCPP__'')
      else if is_defined e ''__IBMCPP__'' \<and> \<not> is_defined e ''__COMPILER_VER__'' \<and>
        if_value e ''__IBMCPP__'' < 800 then decimal_vrp ''VisualAge'' (number e ''__IBMCPP__'')
      else if is_defined e ''__NVCOMPILER'' then
        (versioned ''NVHPC'' (DEC (number e ''__NVCOMPILER_MAJOR__'')) (DEC (number e ''__NVCOMPILER_MINOR__'')))
          \<lparr>VERSION_PATCH := only_if (is_defined e ''__NVCOMPILER_PATCHLEVEL__'')
             (DEC (number e ''__NVCOMPILER_PATCHLEVEL__''))\<rparr>
      else if is_defined e ''__PGI'' then
        (versioned ''PGI'' (DEC (number e ''__PGIC__'')) (DEC (number e ''__PGIC_MINOR__'')))
          \<lparr>VERSION_PATCH := only_if (is_defined e ''__PGIC_PATCHLEVEL__'')
             (DEC (number e ''__PGIC_PATCHLEVEL__''))\<rparr>
      else if is_defined e ''__clang__'' \<and> is_defined e ''__cray__'' then
        (patched ''CrayClang'' (DEC (number e ''__cray_major__'')) (DEC (number e ''__cray_minor__''))
           (DEC (number e ''__cray_patchlevel__'')))
          \<lparr>VERSION_INTERNAL_STR := Some (text_of e ''__clang_version__'')\<rparr>
      else if is_defined e ''_CRAYC'' then
        versioned ''Cray'' (DEC (number e ''_RELEASE_MAJOR'')) (DEC (number e ''_RELEASE_MINOR''))
      else if is_defined e ''__TI_COMPILER_VERSION__'' then
        patched ''TI'' (DEC (over (number e ''__TI_COMPILER_VERSION__'') 1000000))
          (DEC (modulo (over (number e ''__TI_COMPILER_VERSION__'') 1000) 1000))
          (DEC (modulo (number e ''__TI_COMPILER_VERSION__'') 1000))
      else if is_defined e ''__CLANG_FUJITSU'' then
        (patched ''FujitsuClang'' (DEC (number e ''__FCC_major__'')) (DEC (number e ''__FCC_minor__''))
           (DEC (number e ''__FCC_patchlevel__'')))
          \<lparr>VERSION_INTERNAL_STR := Some (text_of e ''__clang_version__'')\<rparr>
      else id_embedded e)"

definition id_old :: "macros \<Rightarrow> compiler" where
  "id_old e =
     (if is_defined e ''__PATHCC__'' then
        (versioned ''PathScale'' (DEC (number e ''__PATHCC__'')) (DEC (number e ''__PATHCC_MINOR__'')))
          \<lparr>VERSION_PATCH := only_if (is_defined e ''__PATHCC_PATCHLEVEL__'')
             (DEC (number e ''__PATHCC_PATCHLEVEL__''))\<rparr>
      else if is_defined e ''__BORLANDC__'' \<and> is_defined e ''__CODEGEARC_VERSION__'' then
        patched ''Embarcadero'' (HEX (masked (shifted (number e ''__CODEGEARC_VERSION__'') 24) 0x00FF))
          (HEX (masked (shifted (number e ''__CODEGEARC_VERSION__'') 16) 0x00FF))
          (DEC (masked (number e ''__CODEGEARC_VERSION__'') 0xFFFF))
      else if is_defined e ''__BORLANDC__'' then
        versioned ''Borland'' (HEX (shifted (number e ''__BORLANDC__'') 8))
          (HEX (masked (number e ''__BORLANDC__'') 0xFF))
      else if is_defined e ''__WATCOMC__'' \<and> if_value e ''__WATCOMC__'' < 1200 then
        (versioned ''Watcom'' (DEC (over (number e ''__WATCOMC__'') 100))
           (DEC (modulo (over (number e ''__WATCOMC__'') 10) 10)))
          \<lparr>VERSION_PATCH := only_if (if_value e ''__WATCOMC__'' smod 10 > 0)
             (DEC (modulo (number e ''__WATCOMC__'') 10))\<rparr>
      else if is_defined e ''__WATCOMC__'' then
        (versioned ''OpenWatcom''
           (DEC (over (map_option (\<lambda>v. v - 1100) (number e ''__WATCOMC__'')) 100))
           (DEC (modulo (over (number e ''__WATCOMC__'') 10) 10)))
          \<lparr>VERSION_PATCH := only_if (if_value e ''__WATCOMC__'' smod 10 > 0)
             (DEC (modulo (number e ''__WATCOMC__'') 10))\<rparr>
      else if is_defined e ''__SUNPRO_CC'' then
        (if if_value e ''__SUNPRO_CC'' \<ge> 0x5100 then
           patched ''SunPro'' (HEX (shifted (number e ''__SUNPRO_CC'') 12))
             (HEX (masked (shifted (number e ''__SUNPRO_CC'') 4) 0xFF))
             (HEX (masked (number e ''__SUNPRO_CC'') 0xF))
         else
           patched ''SunPro'' (HEX (shifted (number e ''__SUNPRO_CC'') 8))
             (HEX (masked (shifted (number e ''__SUNPRO_CC'') 4) 0xF))
             (HEX (masked (number e ''__SUNPRO_CC'') 0xF)))
      else if is_defined e ''__HP_aCC'' then
        patched ''HP'' (DEC (over (number e ''__HP_aCC'') 10000))
          (DEC (modulo (over (number e ''__HP_aCC'') 100) 100)) (DEC (modulo (number e ''__HP_aCC'') 100))
      else if is_defined e ''__DECCXX'' then
        patched ''Compaq'' (DEC (over (number e ''__DECCXX_VER'') 10000000))
          (DEC (modulo (over (number e ''__DECCXX_VER'') 100000) 100))
          (DEC (modulo (number e ''__DECCXX_VER'') 10000))
      else id_vendor e)"

definition compiler_id :: "macros \<Rightarrow> compiler" where
  "compiler_id e =
     (if is_defined e ''__INTEL_COMPILER'' \<or> is_defined e ''__ICC'' then
        (let v = number e ''__INTEL_COMPILER'';
             old = (if_value e ''__INTEL_COMPILER'' < 2021 \<or> if_value e ''__INTEL_COMPILER'' = 202110 \<or>
                    if_value e ''__INTEL_COMPILER'' = 202111);
             c = (if old then
                    patched ''Intel'' (DEC (over v 100)) (DEC (modulo (over v 10) 10))
                      (if is_defined e ''__INTEL_COMPILER_UPDATE'' then DEC (number e ''__INTEL_COMPILER_UPDATE'')
                       else DEC (modulo v 10))
                  else patched ''Intel'' (DEC v) (DEC (number e ''__INTEL_COMPILER_UPDATE'')) (DEC (Some 0)));
             c = c\<lparr>VERSION_TWEAK := only_if (is_defined e ''__INTEL_COMPILER_BUILD_DATE'')
                      (DEC (number e ''__INTEL_COMPILER_BUILD_DATE''))\<rparr>
         in gnu_simulation e (msvc_simulation e c))
      else if (is_defined e ''__clang__'' \<and> is_defined e ''__INTEL_CLANG_COMPILER'') \<or>
        is_defined e ''__INTEL_LLVM_COMPILER'' then
        (let v = number e ''__INTEL_LLVM_COMPILER'';
             c = (if if_value e ''__INTEL_LLVM_COMPILER'' < 1000000
                  then decimal_vrp ''IntelLLVM'' v
                  else patched ''IntelLLVM'' (DEC (over v 10000)) (DEC (modulo (over v 100) 100))
                         (DEC (modulo v 100)))
         in gnu_simulation e (msvc_simulation e c))
      else id_old e)"

section \<open>Platform and architecture\<close>

definition PLATFORM_ID :: "macros \<Rightarrow> string" where
  "PLATFORM_ID e =
     (if any_defined e [''__linux'', ''__linux__'', ''linux''] then ''Linux''
      else if is_defined e ''__MSYS__'' then ''MSYS''
      else if is_defined e ''__CYGWIN__'' then ''Cygwin''
      else if is_defined e ''__MINGW32__'' then ''MinGW''
      else if is_defined e ''__APPLE__'' then ''Darwin''
      else if any_defined e [''_WIN32'', ''__WIN32__'', ''WIN32''] then ''Windows''
      else if any_defined e [''__FreeBSD__'', ''__FreeBSD''] then ''FreeBSD''
      else if any_defined e [''__NetBSD__'', ''__NetBSD''] then ''NetBSD''
      else if any_defined e [''__OpenBSD__'', ''__OPENBSD''] then ''OpenBSD''
      else if any_defined e [''__sun'', ''sun''] then ''SunOS''
      else if any_defined e [''_AIX'', ''__AIX'', ''__AIX__'', ''__aix'', ''__aix__''] then ''AIX''
      else if any_defined e [''__hpux'', ''__hpux__''] then ''HP-UX''
      else if is_defined e ''__HAIKU__'' then ''Haiku''
      else if any_defined e [''__BeOS'', ''__BEOS__'', ''_BEOS''] then ''BeOS''
      else if any_defined e [''__QNX__'', ''__QNXNTO__''] then ''QNX''
      else if any_defined e [''__tru64'', ''_tru64'', ''__TRU64__''] then ''Tru64''
      else if any_defined e [''__riscos'', ''__riscos__''] then ''RISCos''
      else if any_defined e [''__sinix'', ''__sinix__'', ''__SINIX__''] then ''SINIX''
      else if is_defined e ''__UNIX_SV__'' then ''UNIX_SV''
      else if is_defined e ''__bsdos__'' then ''BSDOS''
      else if any_defined e [''_MPRAS'', ''MPRAS''] then ''MP-RAS''
      else if any_defined e [''__osf'', ''__osf__''] then ''OSF1''
      else if any_defined e [''_SCO_SV'', ''SCO_SV'', ''sco_sv''] then ''SCO_SV''
      else if any_defined e [''__ultrix'', ''__ultrix__'', ''_ULTRIX''] then ''ULTRIX''
      else if any_defined e [''__XENIX__'', ''_XENIX'', ''XENIX''] then ''Xenix''
      else if is_defined e ''__WATCOMC__'' then
         (if is_defined e ''__LINUX__'' then ''Linux''
          else if is_defined e ''__DOS__'' then ''DOS''
          else if is_defined e ''__OS2__'' then ''OS2''
          else if is_defined e ''__WINDOWS__'' then ''Windows3x''
          else if is_defined e ''__VXWORKS__'' then ''VxWorks''
          else '''')
      else if is_defined e ''__INTEGRITY'' then
         (if is_defined e ''INT_178B'' then ''Integrity178''
          else ''Integrity'')
      else if is_defined e ''_ADI_COMPILER'' then ''ADSP''
      else '''')"

text \<open>
  \<^verbatim>\<open>STRINGIFY\<close> of a macro that stands for an integer: its digits, as the compiler spells it. Undefined,
  it would be the name itself.
\<close>

definition STRINGIFY :: "macros \<Rightarrow> string \<Rightarrow> string" where
  "STRINGIFY e n = (case number e n of Some v \<Rightarrow> to_string v | None \<Rightarrow> n)"

definition ARCHITECTURE_ID_rest :: "macros \<Rightarrow> string" where
  "ARCHITECTURE_ID_rest e =
     (if is_defined e ''__clang__'' \<and> is_defined e ''__ti__'' then
         (if is_defined e ''__ARM_ARCH'' then ''ARM''
          else '''')
      else if is_defined e ''__TI_COMPILER_VERSION__'' then
         (if is_defined e ''__TI_ARM__'' then ''ARM''
          else if is_defined e ''__MSP430__'' then ''MSP430''
          else if is_defined e ''__TMS320C28XX__'' then ''TMS320C28x''
          else if any_defined e [''__TMS320C6X__'', ''_TMS320C6X''] then ''TMS320C6x''
          else '''')
      else if is_defined e ''__ADSPSHARC__'' then ''SHARC''
      else if is_defined e ''__ADSPBLACKFIN__'' then ''Blackfin''
      else if is_defined e ''__TASKING__'' then
         (if any_defined e [''__CTC__'', ''__CPTC__''] then ''TriCore''
          else if is_defined e ''__CMCS__'' then ''MCS''
          else if any_defined e [''__CARM__'', ''__CPARM__''] then ''ARM''
          else if is_defined e ''__CARC__'' then ''ARC''
          else if is_defined e ''__C51__'' then ''8051''
          else if is_defined e ''__CPCP__'' then ''PCP''
          else '''')
      else if is_defined e ''__RENESAS__'' then
         (if is_defined e ''__CCRX__'' then ''RX''
          else if is_defined e ''__CCRL__'' then ''RL78''
          else if is_defined e ''__CCRH__'' then ''RH850''
          else '''')
      else '''')"

definition ARCHITECTURE_ID :: "macros \<Rightarrow> string" where
  "ARCHITECTURE_ID e =
     (if is_defined e ''_WIN32'' \<and> is_defined e ''_MSC_VER'' then
         (if is_defined e ''_M_IA64'' then ''IA64''
          else if is_defined e ''_M_ARM64EC'' then ''ARM64EC''
          else if any_defined e [''_M_X64'', ''_M_AMD64''] then ''x64''
          else if is_defined e ''_M_IX86'' then ''X86''
          else if is_defined e ''_M_ARM64'' then ''ARM64''
          else if is_defined e ''_M_ARM'' then
             (if if_value e ''_M_ARM'' = 4 then ''ARMV4I''
              else if if_value e ''_M_ARM'' = 5 then ''ARMV5I''
              else ''ARMV'' @ STRINGIFY e ''_M_ARM'')
          else if is_defined e ''_M_MIPS'' then ''MIPS''
          else if is_defined e ''_M_SH'' then ''SHx''
          else '''')
      else if is_defined e ''__WATCOMC__'' then
         (if is_defined e ''_M_I86'' then ''I86''
          else if is_defined e ''_M_IX86'' then ''X86''
          else '''')
      else if any_defined e [''__IAR_SYSTEMS_ICC__'', ''__IAR_SYSTEMS_ICC''] then
         (if is_defined e ''__ICCARM__'' then ''ARM''
          else if is_defined e ''__ICCRX__'' then ''RX''
          else if is_defined e ''__ICCRH850__'' then ''RH850''
          else if is_defined e ''__ICCRL78__'' then ''RL78''
          else if is_defined e ''__ICCRISCV__'' then ''RISCV''
          else if is_defined e ''__ICCAVR__'' then ''AVR''
          else if is_defined e ''__ICC430__'' then ''MSP430''
          else if is_defined e ''__ICCV850__'' then ''V850''
          else if is_defined e ''__ICC8051__'' then ''8051''
          else if is_defined e ''__ICCSTM8__'' then ''STM8''
          else '''')
      else if is_defined e ''__ghs__'' then
         (if is_defined e ''__PPC64__'' then ''PPC64''
          else if is_defined e ''__ppc__'' then ''PPC''
          else if is_defined e ''__ARM__'' then ''ARM''
          else if is_defined e ''__x86_64__'' then ''x64''
          else if is_defined e ''__i386__'' then ''X86''
          else '''')
      else ARCHITECTURE_ID_rest e)"


section \<open>Digits\<close>

text \<open>
  \<^verbatim>\<open>DEC(n)\<close> is eight decimal digits and \<^verbatim>\<open>HEX(n)\<close> eight characters, each \<^verbatim>\<open>'0'\<close> plus a nibble.
\<close>

definition DEC_chars :: "int \<Rightarrow> string" where
  "DEC_chars n =
     [char_of (0x30 + (n sdiv 10000000) smod 10), char_of (0x30 + (n sdiv 1000000) smod 10),
      char_of (0x30 + (n sdiv 100000) smod 10), char_of (0x30 + (n sdiv 10000) smod 10),
      char_of (0x30 + (n sdiv 1000) smod 10), char_of (0x30 + (n sdiv 100) smod 10),
      char_of (0x30 + (n sdiv 10) smod 10), char_of (0x30 + n smod 10)]"

definition HEX_chars :: "int \<Rightarrow> string" where
  "HEX_chars n =
     [char_of (0x30 + (drop_bit 28 n AND 0xF)), char_of (0x30 + (drop_bit 24 n AND 0xF)),
      char_of (0x30 + (drop_bit 20 n AND 0xF)), char_of (0x30 + (drop_bit 16 n AND 0xF)),
      char_of (0x30 + (drop_bit 12 n AND 0xF)), char_of (0x30 + (drop_bit 8 n AND 0xF)),
      char_of (0x30 + (drop_bit 4 n AND 0xF)), char_of (0x30 + (n AND 0xF))]"

fun literal_chars :: "literal \<Rightarrow> string option" where
  "literal_chars (DEC n) = map_option DEC_chars n"
| "literal_chars (HEX n) = map_option HEX_chars n"

section \<open>The strings\<close>

text \<open>
  A global of the file: under its condition it may be absent; it does not compile when a name in
  it is undeclared; otherwise its characters up to and without the final NUL.
\<close>

datatype global = Absent | IllFormed | Declared string

fun global_of :: "string option \<Rightarrow> global" where
  "global_of None = IllFormed"
| "global_of (Some s) = Declared s"

definition info_compiler :: "compiler \<Rightarrow> global" where
  "info_compiler c = Declared (''INFO:compiler['' @ COMPILER_ID c @ '']'')"

definition info_simulate :: "compiler \<Rightarrow> global" where
  "info_simulate c =
     (case SIMULATE_ID c of
        None \<Rightarrow> Absent
      | Some name \<Rightarrow> Declared (''INFO:simulate['' @ name @ '']''))"

definition info_cray :: "macros \<Rightarrow> global" where
  "info_cray e =
     (if is_defined e ''__CRAYXT_COMPUTE_LINUX_TARGET'' then Declared ''INFO:compiler_wrapper[CrayPrgEnv]''
      else Absent)"

definition qnxnto :: "macros \<Rightarrow> global" where
  "qnxnto e = (if is_defined e ''__QNXNTO__'' then Declared ''INFO:qnxnto[]'' else Absent)"

text \<open>The components after the first: each only if the one before it is there.\<close>

fun dotted :: "literal option list \<Rightarrow> string option" where
  "dotted [] = Some ''''"
| "dotted (None # cs) = Some ''''"
| "dotted (Some c # cs) =
     do { digits \<leftarrow> literal_chars c; rest \<leftarrow> dotted cs; Some (CHR ''.'' # digits @ rest) }"

definition version_string :: "string \<Rightarrow> literal \<Rightarrow> literal option list \<Rightarrow> string option" where
  "version_string label major rest =
     do { digits \<leftarrow> literal_chars major; more \<leftarrow> dotted rest; Some (''INFO:'' @ label @ ''['' @ digits @ more @ '']'') }"

definition info_version :: "compiler \<Rightarrow> global" where
  "info_version c =
     (case COMPILER_VERSION c of
        Some v \<Rightarrow> global_of (map_option (\<lambda>v. ''INFO:compiler_version['' @ v @ '']'') v)
      | None \<Rightarrow>
          (case VERSION_MAJOR c of
             None \<Rightarrow> Absent
           | Some major \<Rightarrow>
               global_of (version_string ''compiler_version'' major
                 [VERSION_MINOR c, VERSION_PATCH c, VERSION_TWEAK c])))"

definition info_version_internal :: "compiler \<Rightarrow> global" where
  "info_version_internal c =
     (case VERSION_INTERNAL c of
        Some v \<Rightarrow> global_of (version_string ''compiler_version_internal'' v [])
      | None \<Rightarrow>
          (case VERSION_INTERNAL_STR c of
             Some v \<Rightarrow> global_of (map_option (\<lambda>v. ''INFO:compiler_version_internal['' @ v @ '']'') v)
           | None \<Rightarrow> Absent))"

text \<open>\<^verbatim>\<open>SIMULATE_VERSION_TWEAK\<close> is never defined.\<close>

definition info_simulate_version :: "compiler \<Rightarrow> global" where
  "info_simulate_version c =
     (case SIMULATE_MAJOR c of
        None \<Rightarrow> Absent
      | Some major \<Rightarrow>
          global_of (version_string ''simulate_version'' major [SIMULATE_MINOR c, SIMULATE_PATCH c, None]))"

definition info_platform :: "macros \<Rightarrow> global" where
  "info_platform e = Declared (''INFO:platform['' @ PLATFORM_ID e @ '']'')"

definition info_arch :: "macros \<Rightarrow> global" where
  "info_arch e = Declared (''INFO:arch['' @ ARCHITECTURE_ID e @ '']'')"

section \<open>The language standard\<close>

definition CXX_STD_98 :: int where "CXX_STD_98 = 199711"
definition CXX_STD_11 :: int where "CXX_STD_11 = 201103"
definition CXX_STD_14 :: int where "CXX_STD_14 = 201402"
definition CXX_STD_17 :: int where "CXX_STD_17 = 201703"
definition CXX_STD_20 :: int where "CXX_STD_20 = 202002"
definition CXX_STD_23 :: int where "CXX_STD_23 = 202302"

lemmas cxx_standards = CXX_STD_98_def CXX_STD_11_def CXX_STD_14_def CXX_STD_17_def CXX_STD_20_def CXX_STD_23_def

definition CXX_STD :: "macros \<Rightarrow> int" where
  "CXX_STD e =
     (let cplusplus = if_value e ''__cplusplus''; msvc_lang = if_value e ''_MSVC_LANG''
      in if is_defined e ''__INTEL_COMPILER'' \<and> is_defined e ''_MSVC_LANG'' then
           (if msvc_lang > CXX_STD_17 then msvc_lang
            else if msvc_lang = CXX_STD_17 \<and> is_defined e ''__cpp_aggregate_paren_init'' then CXX_STD_20
            else if msvc_lang > CXX_STD_14 \<and> cplusplus > CXX_STD_17 then CXX_STD_20
            else if msvc_lang > CXX_STD_14 then CXX_STD_17
            else if is_defined e ''__INTEL_CXX11_MODE__'' \<and> is_defined e ''__cpp_aggregate_nsdmi'' then CXX_STD_14
            else if is_defined e ''__INTEL_CXX11_MODE__'' then CXX_STD_11
            else CXX_STD_98)
         else if is_defined e ''_MSC_VER'' \<and> is_defined e ''_MSVC_LANG'' then
           (if msvc_lang > cplusplus then msvc_lang else cplusplus)
         else if is_defined e ''__NVCOMPILER'' then
           (if cplusplus = CXX_STD_17 \<and> is_defined e ''__cpp_aggregate_paren_init'' then CXX_STD_20
            else cplusplus)
         else if is_defined e ''__INTEL_COMPILER'' \<or> is_defined e ''__PGI'' then
           (if cplusplus = CXX_STD_11 \<and> is_defined e ''__cpp_namespace_attributes'' then CXX_STD_17
            else if cplusplus = CXX_STD_11 \<and> is_defined e ''__cpp_aggregate_nsdmi'' then CXX_STD_14
            else cplusplus)
         else if (is_defined e ''__IBMCPP__'' \<or> is_defined e ''__ibmxl__'') \<and> is_defined e ''__linux__'' then
           (if cplusplus = CXX_STD_11 \<and> is_defined e ''__cpp_aggregate_nsdmi'' then CXX_STD_14 else cplusplus)
         else if cplusplus = 1 \<and> is_defined e ''__GXX_EXPERIMENTAL_CXX0X__'' then CXX_STD_11
         else cplusplus)"

definition standard_name :: "int \<Rightarrow> string" where
  "standard_name std =
     (if std > CXX_STD_23 then ''26''
      else if std > CXX_STD_20 then ''23''
      else if std > CXX_STD_17 then ''20''
      else if std > CXX_STD_14 then ''17''
      else if std > CXX_STD_11 then ''14''
      else if std \<ge> CXX_STD_11 then ''11''
      else ''98'')"

definition info_language_standard_default :: "macros \<Rightarrow> global" where
  "info_language_standard_default e =
     Declared (''INFO:standard_default['' @ standard_name (CXX_STD e) @ '']'')"

definition info_language_extensions_default :: "macros \<Rightarrow> global" where
  "info_language_extensions_default e =
     Declared (''INFO:extensions_default['' @
       (if (is_defined e ''__clang__'' \<or> is_defined e ''__GNUC__'' \<or> is_defined e ''__xlC__'' \<or>
            is_defined e ''__TI_COMPILER_VERSION__'' \<or> is_defined e ''__RENESAS__'') \<and>
           \<not> is_defined e ''__STRICT_ANSI__''
        then ''ON'' else ''OFF'') @ '']'')"

section \<open>main\<close>

text \<open>
  The globals \<^verbatim>\<open>main\<close> reads, each at index \<^verbatim>\<open>argc\<close>, under the conditions it reads them; the sum is the
  exit status. A read past the final NUL is undefined and gives None.
\<close>

definition globals_read :: "compiler \<Rightarrow> global \<Rightarrow> macros \<Rightarrow> global list" where
  "globals_read c standard_default e =
     [info_compiler c, info_platform e, info_arch e] @
     (if VERSION_MAJOR c \<noteq> None then [info_version c] else []) @
     (if VERSION_INTERNAL c \<noteq> None \<or> VERSION_INTERNAL_STR c \<noteq> None then [info_version_internal c] else []) @
     (if SIMULATE_ID c \<noteq> None then [info_simulate c] else []) @
     (if SIMULATE_MAJOR c \<noteq> None then [info_simulate_version c] else []) @
     (if is_defined e ''__CRAYXT_COMPUTE_LINUX_TARGET'' then [info_cray e] else []) @
     [standard_default, info_language_extensions_default e]"

fun char_at :: "global \<Rightarrow> nat \<Rightarrow> int option" where
  "char_at (Declared s) i =
     (if i < length s then Some (sint (u8_of_char (s ! i))) else if i = length s then Some 0 else None)"
| "char_at _ i = None"

definition sum_at :: "nat \<Rightarrow> global list \<Rightarrow> int option" where
  "sum_at argc gs = foldl (\<lambda>require g. do { r \<leftarrow> require; c \<leftarrow> char_at g argc; Some (r + c) }) (Some 0) gs"

definition probe_globals :: "macros \<Rightarrow> global list" where
  "probe_globals e = globals_read (compiler_id e) (info_language_standard_default e) e"

definition probe_main :: "macros \<Rightarrow> nat \<Rightarrow> int option" where
  "probe_main e argc = sum_at argc (probe_globals e)"

section \<open>Reading the digits back\<close>

text \<open>What a reader of the strings does: the value of a run of digits, and the test for a hex digit.\<close>

definition read_digits :: "int \<Rightarrow> string \<Rightarrow> int" where
  "read_digits base s = foldl (\<lambda>n c. base * n + (int (code_of c) - 0x30)) 0 s"

definition isxdigit :: "char \<Rightarrow> bool" where
  "isxdigit c \<longleftrightarrow> isdigit c \<or> (65 \<le> code_of c \<and> code_of c \<le> 70) \<or> (97 \<le> code_of c \<and> code_of c \<le> 102)"

lemma code_of_digit_char:
  assumes "0 \<le> d" and "d \<le> 15"
  shows "code_of (char_of (0x30 + d :: int)) = nat (0x30 + d)"
proof -
  have "(of_char (char_of (0x30 + d :: int)) :: int) = 0x30 + d" using assms by (simp add: of_char_of)
  then have "int (code_of (char_of (0x30 + d :: int))) = 0x30 + d"
    unfolding code_of_def of_nat_of_char .
  then show ?thesis by linarith
qed

lemma digit_isdigit: "0 \<le> d \<Longrightarrow> d \<le> 15 \<Longrightarrow> isdigit (char_of (0x30 + d :: int)) \<longleftrightarrow> d \<le> 9"
  unfolding isdigit_def code_of_digit_char by linarith

lemma digit_isxdigit: "0 \<le> d \<Longrightarrow> d \<le> 15 \<Longrightarrow> isxdigit (char_of (0x30 + d :: int)) \<longleftrightarrow> d \<le> 9"
  unfolding isxdigit_def isdigit_def code_of_digit_char by linarith

definition digits :: "int \<Rightarrow> int \<Rightarrow> int list" where
  "digits base n = map (\<lambda>k. n div base ^ k mod base) [7, 6, 5, 4, 3, 2, 1, 0]"

lemma digits_value:
  assumes "0 \<le> n" and "n < base ^ 8" and "0 < base"
  shows "foldl (\<lambda>m d. base * m + d) 0 (digits base n) = n"
proof -
  have step: "base * (n div base ^ Suc k) + n div base ^ k mod base = n div base ^ k" for k
  proof -
    have "n div base ^ Suc k = n div base ^ k div base"
      using assms(3) by (simp add: zdiv_zmult2_eq [symmetric] mult.commute)
    then show ?thesis by simp
  qed
  have "n div base ^ 8 = 0" using assms(1,2) by simp
  then have "n div base ^ 7 mod base = n div base ^ 7" using step [of 7] by (simp add: numeral_eq_Suc)
  with step [of 6] step [of 5] step [of 4] step [of 3] step [of 2] step [of 1] step [of 0]
  show ?thesis by (simp add: digits_def numeral_eq_Suc)
qed

lemma sdiv_smod_nonneg:
  assumes "0 \<le> (n :: int)" and "0 < k"
  shows "n sdiv k = n div k" and "n smod k = n mod k"
  using assms by (simp_all add: signed_divide_int_def signed_modulo_int_def sgn_if)

lemma DEC_chars_digits:
  assumes "0 \<le> n"
  shows "DEC_chars n = map (\<lambda>d. char_of (0x30 + d)) (digits 10 n)"
proof -
  have "(n sdiv k) smod 10 = n div k mod 10" if "0 < k" for k
    using sdiv_smod_nonneg(1) [OF assms that] sdiv_smod_nonneg(2) [of "n div k" 10] assms that
    by (simp add: pos_imp_zdiv_nonneg_iff)
  then show ?thesis
    using sdiv_smod_nonneg(2) [OF assms, of 10] by (simp add: DEC_chars_def digits_def)
qed

lemma nibble_eq: "drop_bit k m AND 0xF = m div 2 ^ k mod (16 :: int)"
proof -
  have "drop_bit k m AND 0xF = take_bit 4 (drop_bit k m)"
    by (simp add: take_bit_eq_mask mask_eq_exp_minus_1)
  then show ?thesis by (simp only: take_bit_eq_mod drop_bit_eq_div) simp
qed

lemma HEX_chars_digits: "HEX_chars n = map (\<lambda>d. char_of (0x30 + d)) (digits 16 n)"
  using nibble_eq [of 0 n] by (simp add: HEX_chars_def digits_def nibble_eq)

lemma read_digits_map:
  "list_all (\<lambda>d. 0 \<le> d \<and> d \<le> 15) ds \<Longrightarrow>
     read_digits base (map (\<lambda>d. char_of (0x30 + d)) ds) = foldl (\<lambda>m d. base * m + d) 0 ds"
proof -
  have "foldl (\<lambda>n c. base * n + (int (code_of c) - 0x30)) m (map (\<lambda>d. char_of (0x30 + d)) ds) =
      foldl (\<lambda>m d. base * m + d) m ds" if "list_all (\<lambda>d. 0 \<le> d \<and> d \<le> 15) ds" for m
    using that by (induction ds arbitrary: m) (simp_all add: code_of_digit_char)
  then show "list_all (\<lambda>d. 0 \<le> d \<and> d \<le> 15) ds \<Longrightarrow> ?thesis" by (simp add: read_digits_def)
qed

lemma digits_bounds:
  assumes "0 < base" and "base \<le> 16"
  shows "list_all (\<lambda>d. 0 \<le> d \<and> d \<le> 15) (digits base n)"
proof -
  have "0 \<le> m mod base \<and> m mod base \<le> 15" for m
    using pos_mod_bound [OF assms(1), of m] pos_mod_sign [OF assms(1), of m] assms(2) by linarith
  then show ?thesis by (simp add: digits_def)
qed

section \<open>Properties\<close>

lemma digit_chars:
  assumes "list_all (\<lambda>d. 0 \<le> d \<and> d \<le> (15 :: int)) ds"
  shows "list_all isdigit (map (\<lambda>d. char_of (0x30 + d)) ds) \<longleftrightarrow> list_all (\<lambda>d. d \<le> 9) ds"
    and "list_all isxdigit (map (\<lambda>d. char_of (0x30 + d)) ds) \<longleftrightarrow> list_all (\<lambda>d. d \<le> 9) ds"
  using assms by (induction ds) (simp_all add: digit_isdigit digit_isxdigit)

lemma dec_literal:
  assumes "0 \<le> n" and "n < 10 ^ 8"
  shows "list_all isdigit (DEC_chars n)" and "read_digits 10 (DEC_chars n) = n"
proof -
  have b: "list_all (\<lambda>d. 0 \<le> d \<and> d \<le> 15) (digits 10 n)" by (rule digits_bounds) simp_all
  have "m mod 10 \<le> 9" for m :: int using pos_mod_bound [of 10 m] by simp
  then have "list_all (\<lambda>d. d \<le> 9) (digits 10 n)" by (simp only: digits_def list.map list.pred_inject simp_thms)
  then show "list_all isdigit (DEC_chars n)"
    using digit_chars(1) [OF b] by (simp add: DEC_chars_digits [OF assms(1)])
  show "read_digits 10 (DEC_chars n) = n"
    using read_digits_map [OF b, of 10] digits_value [of n 10] assms by (simp add: DEC_chars_digits)
qed

lemma hex_literal:
  assumes "0 \<le> n"
  shows "n < 16 ^ 8 \<Longrightarrow> read_digits 16 (HEX_chars n) = n"
    and "list_all isxdigit (HEX_chars n) \<longleftrightarrow> list_all (\<lambda>d. d \<le> 9) (digits 16 n)"
proof -
  have b: "list_all (\<lambda>d. 0 \<le> d \<and> d \<le> 15) (digits 16 n)" by (rule digits_bounds) simp_all
  show "read_digits 16 (HEX_chars n) = n" if "n < 16 ^ 8"
    using read_digits_map [OF b, of 16] digits_value [of n 16] assms that by (simp add: HEX_chars_digits)
  show "list_all isxdigit (HEX_chars n) \<longleftrightarrow> list_all (\<lambda>d. d \<le> 9) (digits 16 n)"
    using digit_chars(2) [OF b] by (simp add: HEX_chars_digits)
qed

text \<open>The decimal literals of the version strings are digits and read back as the number, up to
  eight digits; a hexadecimal literal reads back by the same rule, but it consists of hex digits
  only if no nibble is above 9: from 10 on the macro runs into the characters after \<^verbatim>\<open>'9'\<close>.\<close>

theorem version_literals_read_back:
  assumes "0 \<le> n"
  shows "(n < 10 ^ 8 \<longrightarrow> list_all isdigit (DEC_chars n) \<and> read_digits 10 (DEC_chars n) = n) \<and>
    (n < 16 ^ 8 \<longrightarrow> read_digits 16 (HEX_chars n) = n) \<and>
    (list_all isxdigit (HEX_chars n) \<longleftrightarrow> list_all (\<lambda>d. d \<le> 9) (digits 16 n))"
  using dec_literal [OF assms] hex_literal [OF assms] by blast

theorem version_literals_read_back_witness:
  "read_digits 10 (DEC_chars 17000603) = 17000603 \<and> \<not> list_all isxdigit (HEX_chars 0x5A)"
  using version_literals_read_back [of 17000603] version_literals_read_back [of "0x5A"]
  by (simp add: digits_def)

lemma version_string_declared: "global_of (version_string l m r) \<noteq> Absent"
  by (cases "version_string l m r") simp_all

lemma global_of_declared [simp]: "global_of x \<noteq> Absent" "Absent \<noteq> global_of x"
  by (cases x; simp)+

lemma globals_read_declared: "std \<noteq> Absent \<Longrightarrow> Absent \<notin> set (globals_read c std e)"
  by (auto simp: globals_read_def info_compiler_def info_platform_def info_arch_def
      info_version_def info_version_internal_def info_simulate_def info_simulate_version_def
      info_cray_def info_language_extensions_default_def
      split: option.splits if_splits)

fun at_least :: "nat \<Rightarrow> global \<Rightarrow> bool" where
  "at_least n (Declared s) \<longleftrightarrow> n \<le> length s"
| "at_least n _ \<longleftrightarrow> True"

lemma at_least_global_of: "at_least n (global_of x) \<longleftrightarrow> (\<forall>s. x = Some s \<longrightarrow> n \<le> length s)"
  by (cases x) simp_all

lemma version_string_length: "version_string l m r = Some s \<Longrightarrow> length l + 7 \<le> length s"
  by (auto simp: version_string_def)

lemma version_global_long:
  "n \<le> length l + 7 \<Longrightarrow> at_least n (global_of (version_string l m r))"
  by (auto simp: at_least_global_of dest: version_string_length)

lemma globals_read_long: "at_least 11 std \<Longrightarrow> \<forall>g\<in>set (globals_read c std e). at_least 11 g"
  by (auto simp: globals_read_def info_compiler_def info_platform_def info_arch_def
      info_version_def info_version_internal_def info_simulate_def info_simulate_version_def
      info_cray_def info_language_extensions_default_def
      version_global_long at_least_global_of dest: version_string_length split: option.splits if_splits)

lemma char_at_declared: "g \<noteq> Absent \<Longrightarrow> g \<noteq> IllFormed \<Longrightarrow> at_least n g \<Longrightarrow> i \<le> n \<Longrightarrow> char_at g i \<noteq> None"
  by (cases g) auto

lemma sum_chars_total:
  assumes "\<forall>g\<in>set gs. char_at g i \<noteq> None"
  shows "foldl (\<lambda>require g. do { r \<leftarrow> require; c \<leftarrow> char_at g i; Some (r + c) }) (Some k) gs \<noteq> None"
  using assms by (induction gs arbitrary: k) auto

lemma sum_at_total:
  assumes "IllFormed \<notin> set (globals_read c std e)" and "std \<noteq> Absent" and "at_least 11 std" and "argc \<le> 11"
  shows "sum_at argc (globals_read c std e) \<noteq> None"
  unfolding sum_at_def
  by (rule sum_chars_total) (metis assms char_at_declared globals_read_declared globals_read_long)

text \<open>\<^verbatim>\<open>main\<close> of the probe refers to no global that its own conditions have left undeclared; so
  where the file compiles, \<^verbatim>\<open>main\<close> is defined for every \<^verbatim>\<open>argc\<close> up to 11: no string it indexes is
  shorter.\<close>

theorem probe_main_defined:
  "Absent \<notin> set (probe_globals e) \<and>
   (IllFormed \<notin> set (probe_globals e) \<and> argc \<le> 11 \<longrightarrow> probe_main e argc \<noteq> None)"
  using globals_read_declared [of "info_language_standard_default e"] sum_at_total [of _ "info_language_standard_default e"]
  by (simp add: probe_globals_def probe_main_def info_language_standard_default_def)

theorem probe_main_defined_witness: "probe_main Map.empty 11 \<noteq> None"
proof -
  have "IllFormed \<notin> set (probe_globals Map.empty)"
    by (simp add: probe_globals_def globals_read_def info_compiler_def info_platform_def info_arch_def
        info_language_standard_default_def info_language_extensions_default_def is_defined_def
        compiler_id_def id_old_def id_vendor_def id_embedded_def id_clang_def id_last_def
        any_defined_def compiler_named_def)
  then show ?thesis using probe_main_defined [of Map.empty 11] by simp
qed

text \<open>The names the chain asks for before it comes to Apple's clang.\<close>

definition asked_before_apple :: "string list" where
  "asked_before_apple =
     [''__INTEL_COMPILER'', ''__ICC'', ''__INTEL_CLANG_COMPILER'', ''__INTEL_LLVM_COMPILER'', ''__PATHCC__'',
      ''__BORLANDC__'', ''__WATCOMC__'', ''__SUNPRO_CC'', ''__HP_aCC'', ''__DECCXX'', ''__IBMCPP__'',
      ''__open_xl__'', ''__ibmxl__'', ''__NVCOMPILER'', ''__PGI'', ''__cray__'', ''_CRAYC'',
      ''__TI_COMPILER_VERSION__'', ''__CLANG_FUJITSU'', ''__FUJITSU'', ''__ghs__'', ''__TASKING__'',
      ''__ORANGEC__'', ''__RENESAS__'', ''__SCO_VERSION__'']"

lemma apple_clang_id:
  assumes "list_all (\<lambda>n. \<not> is_defined e n) asked_before_apple"
    and "is_defined e ''__clang__''" and "is_defined e ''__apple_build_version__''"
  shows "compiler_id e = msvc_simulation e
    ((patched ''AppleClang'' (DEC (number e ''__clang_major__'')) (DEC (number e ''__clang_minor__''))
       (DEC (number e ''__clang_patchlevel__'')))
      \<lparr>VERSION_TWEAK := Some (DEC (number e ''__apple_build_version__''))\<rparr>)"
  using assms unfolding asked_before_apple_def
  by (simp add: compiler_id_def id_old_def id_vendor_def id_embedded_def id_clang_def)

text \<open>A compiler that predefines the macros of Apple's clang, and none the chain asks for
  earlier, is reported as AppleClang with its four version numbers, even though it also predefines
  the macros of GCC; and the default standard is the one of its \<^verbatim>\<open>__cplusplus\<close>.\<close>

theorem apple_clang_reported:
  assumes "list_all (\<lambda>n. \<not> is_defined e n) asked_before_apple" and "\<not> is_defined e ''_MSC_VER''"
    and "is_defined e ''__clang__''" and "e ''__apple_build_version__'' = Some (Num build)"
    and "e ''__clang_major__'' = Some (Num major)" and "e ''__clang_minor__'' = Some (Num minor)"
    and "e ''__clang_patchlevel__'' = Some (Num patch)" and "e ''__cplusplus'' = Some (Num std)" and "std \<noteq> 1"
  shows "info_compiler (compiler_id e) = Declared ''INFO:compiler[AppleClang]'' \<and> info_simulate (compiler_id e) = Absent \<and>
    info_version (compiler_id e) = Declared (''INFO:compiler_version['' @ DEC_chars major @ ''.'' @ DEC_chars minor @ ''.'' @
      DEC_chars patch @ ''.'' @ DEC_chars build @ '']'') \<and>
    info_language_standard_default e = Declared (''INFO:standard_default['' @ standard_name std @ '']'')"
proof -
  have id: "compiler_id e =
    (patched ''AppleClang'' (DEC (Some major)) (DEC (Some minor)) (DEC (Some patch)))
      \<lparr>VERSION_TWEAK := Some (DEC (Some build))\<rparr>"
    using apple_clang_id [of e] assms by (simp add: is_defined_def number_def msvc_simulation_def)
  have "CXX_STD e = std"
    using assms by (simp add: CXX_STD_def asked_before_apple_def is_defined_def if_value_def number_def)
  with id show ?thesis
    by (simp add: info_compiler_def info_simulate_def info_version_def info_language_standard_default_def
        patched_def versioned_def compiler_named_def version_string_def)
qed

text \<open>The macros of the compiler the build directories record: AppleClang 21.0.0.21000101, default standard 14.\<close>

definition recorded_macros :: macros where
  "recorded_macros =
     [''__clang__'' \<mapsto> Num 1, ''__GNUC__'' \<mapsto> Num 4, ''__GNUC_MINOR__'' \<mapsto> Num 2, ''__APPLE__'' \<mapsto> Num 1,
      ''__apple_build_version__'' \<mapsto> Num 21000101, ''__clang_major__'' \<mapsto> Num 21,
      ''__clang_minor__'' \<mapsto> Num 0, ''__clang_patchlevel__'' \<mapsto> Num 0, ''__cplusplus'' \<mapsto> Num 201402]"

theorem apple_clang_reported_witness:
  "info_version (compiler_id recorded_macros) = Declared ''INFO:compiler_version[00000021.00000000.00000000.21000101]'' \<and>
   info_language_standard_default recorded_macros = Declared ''INFO:standard_default[14]''"
proof -
  have "DEC_chars 21 = ''00000021''" "DEC_chars 0 = ''00000000''" "DEC_chars 21000101 = ''21000101''"
    "standard_name 201402 = ''14''"
    by code_simp+
  then show ?thesis
    using apple_clang_reported [of recorded_macros 21000101 21 0 0 201402]
    by (simp add: recorded_macros_def asked_before_apple_def is_defined_def)
qed

text \<open>Numbers packed in decimal fields come apart.\<close>

lemma decimal_fields:
  fixes k :: int
  assumes "0 \<le> v" and "0 \<le> r" and "r < k"
  shows "(v * k + r) sdiv k = v" and "(v * k + r) smod k = r"
proof -
  have k: "0 < k" and nn: "0 \<le> v * k + r" using assms by simp_all
  show "(v * k + r) sdiv k = v" using sdiv_smod_nonneg(1) [OF nn k] assms k by simp
  show "(v * k + r) smod k = r" using sdiv_smod_nonneg(2) [OF nn k] assms k by simp
qed

lemma watcom_fields:
  fixes v :: int
  assumes "1 \<le> v" and "0 \<le> r" and "r \<le> 9" and "0 \<le> p" and "p \<le> 9"
  shows "(v * 100 + (r * 10 + p) + 1100 - 1100) sdiv 100 = v"
    and "((v * 100 + (r * 10 + p) + 1100) sdiv 10) smod 10 = r"
    and "(v * 100 + (r * 10 + p) + 1100) smod 10 = p"
proof -
  show "(v * 100 + (r * 10 + p) + 1100 - 1100) sdiv 100 = v"
    using decimal_fields(1) [of v "r * 10 + p" 100] assms by simp
  have eq: "v * 100 + (r * 10 + p) + 1100 = ((v + 11) * 10 + r) * 10 + p" by simp
  show "((v * 100 + (r * 10 + p) + 1100) sdiv 10) smod 10 = r"
    unfolding eq using decimal_fields(1) [of "(v + 11) * 10 + r" p 10] decimal_fields(2) [of "v + 11" r 10] assms
    by simp
  show "(v * 100 + (r * 10 + p) + 1100) smod 10 = p"
    unfolding eq using decimal_fields(2) [of "(v + 11) * 10 + r" p 10] assms by simp
qed

text \<open>The comments of the file say how each compiler packs its version into one number; the
  components come out as they were packed, for the plain decimal form VVRRPP, for OpenWatcom's
  VVRP + 1100, and for Intel's eight digits VVVVRRPP.\<close>

theorem packed_versions_unpack:
  assumes "0 \<le> r" and "0 \<le> p" and "1 \<le> v"
  shows "(r < 100 \<and> p < 100 \<longrightarrow>
      compiler_id [''__HP_aCC'' \<mapsto> Num ((v * 100 + r) * 100 + p)] =
        patched ''HP'' (DEC (Some v)) (DEC (Some r)) (DEC (Some p))) \<and>
    (r < 100 \<and> p < 100 \<and> 100 \<le> v \<longrightarrow>
      compiler_id [''__INTEL_LLVM_COMPILER'' \<mapsto> Num ((v * 100 + r) * 100 + p)] =
        patched ''IntelLLVM'' (DEC (Some v)) (DEC (Some r)) (DEC (Some p))) \<and>
    (r \<le> 9 \<and> 1 \<le> p \<and> p \<le> 9 \<longrightarrow>
      compiler_id [''__WATCOMC__'' \<mapsto> Num (v * 100 + (r * 10 + p) + 1100)] =
        patched ''OpenWatcom'' (DEC (Some v)) (DEC (Some r)) (DEC (Some p)))"
proof (intro conjI impI)
  assume b: "r < 100 \<and> p < 100"
  have "((v * 100 + r) * 100 + p) sdiv 10000 = v"
    using decimal_fields(1) [of v "r * 100 + p" 10000] assms b by (simp add: algebra_simps)
  moreover have "((v * 100 + r) * 100 + p) sdiv 100 = v * 100 + r" "((v * 100 + r) * 100 + p) smod 100 = p"
    "(v * 100 + r) smod 100 = r"
    using decimal_fields [of "v * 100 + r" p 100] decimal_fields(2) [of v r 100] assms b by simp_all
  ultimately show "compiler_id [''__HP_aCC'' \<mapsto> Num ((v * 100 + r) * 100 + p)] =
      patched ''HP'' (DEC (Some v)) (DEC (Some r)) (DEC (Some p))"
    by (simp only: compiler_id_def id_old_def is_defined_def number_def over_def modulo_def) simp
next
  assume b: "r < 100 \<and> p < 100 \<and> 100 \<le> v"
  have "((v * 100 + r) * 100 + p) sdiv 10000 = v"
    using decimal_fields(1) [of v "r * 100 + p" 10000] assms b by (simp add: algebra_simps)
  moreover have "((v * 100 + r) * 100 + p) sdiv 100 = v * 100 + r" "((v * 100 + r) * 100 + p) smod 100 = p"
    "(v * 100 + r) smod 100 = r"
    using decimal_fields [of "v * 100 + r" p 100] decimal_fields(2) [of v r 100] assms b by simp_all
  moreover have "1000000 \<le> (v * 100 + r) * 100 + p" using assms b by simp
  ultimately show "compiler_id [''__INTEL_LLVM_COMPILER'' \<mapsto> Num ((v * 100 + r) * 100 + p)] =
      patched ''IntelLLVM'' (DEC (Some v)) (DEC (Some r)) (DEC (Some p))"
    by (simp add: compiler_id_def is_defined_def if_value_def number_def over_def modulo_def Let_def
        gnu_simulation_def msvc_simulation_def)
next
  assume "r \<le> 9 \<and> 1 \<le> p \<and> p \<le> 9"
  with watcom_fields [of v r p] assms
  show "compiler_id [''__WATCOMC__'' \<mapsto> Num (v * 100 + (r * 10 + p) + 1100)] =
      patched ''OpenWatcom'' (DEC (Some v)) (DEC (Some r)) (DEC (Some p))"
    by (simp add: compiler_id_def id_old_def is_defined_def if_value_def number_def over_def modulo_def
        only_if_def patched_def versioned_def compiler_named_def)
qed

theorem packed_versions_unpack_witness:
  "compiler_id [''__WATCOMC__'' \<mapsto> Num 1291] =
     patched ''OpenWatcom'' (DEC (Some 1)) (DEC (Some 9)) (DEC (Some 1)) \<and>
   compiler_id [''__HP_aCC'' \<mapsto> Num 62501] = patched ''HP'' (DEC (Some 6)) (DEC (Some 25)) (DEC (Some 1))"
  using packed_versions_unpack [of 9 1 1] packed_versions_unpack [of 25 1 6] by simp

end
