(* ===== verification/Compiler_Probe_C.thy ===== *)
theory Compiler_Probe_C
  imports Compiler_Probe
begin

text \<open>
  The C version of the compiler identification source, CMakeCCompilerId.c. It has the sections of the
  C++ one, in the same order. Where a section is the same text in both files, its definition is the
  one of \<open>Compiler_Probe\<close>; the chain of compilers is written out, as it asks for other names and for
  three compilers that only know C.
\<close>

section \<open>The languages\<close>



definition ID_VOID_MAIN :: "macros \<Rightarrow> bool" where
  "ID_VOID_MAIN e \<longleftrightarrow> is_defined e ''__18CXX''"

section \<open>The compiler\<close>

definition C_id_last :: "macros \<Rightarrow> compiler" where
  "C_id_last e =
     (if is_defined e ''__GNUC__'' then
        (compiler_named ''GNU'')
          \<lparr>VERSION_MAJOR := Some (DEC (number e ''__GNUC__'')),
           VERSION_MINOR := only_if (is_defined e ''__GNUC_MINOR__'') (DEC (number e ''__GNUC_MINOR__'')),
           VERSION_PATCH := only_if (is_defined e ''__GNUC_PATCHLEVEL__'')
             (DEC (number e ''__GNUC_PATCHLEVEL__''))\<rparr>
      else if is_defined e ''_MSC_VER'' then
        (versioned ''MSVC'' (DEC (over (number e ''_MSC_VER'') 100)) (DEC (modulo (number e ''_MSC_VER'') 100)))
          \<lparr>VERSION_PATCH := only_if (is_defined e ''_MSC_FULL_VER'')
             (if if_value e ''_MSC_VER'' \<ge> 1400 then DEC (modulo (number e ''_MSC_FULL_VER'') 100000)
              else DEC (modulo (number e ''_MSC_FULL_VER'') 10000)),
           VERSION_TWEAK := only_if (is_defined e ''_MSC_BUILD'') (DEC (number e ''_MSC_BUILD''))\<rparr>
      else if is_defined e ''_ADI_COMPILER'' then
        (if is_defined e ''__VERSIONNUM__'' then
           (patched ''ADSP'' (DEC (masked (shifted (number e ''__VERSIONNUM__'') 24) 0xFF))
              (DEC (masked (shifted (number e ''__VERSIONNUM__'') 16) 0xFF))
              (DEC (masked (shifted (number e ''__VERSIONNUM__'') 8) 0xFF)))
             \<lparr>VERSION_TWEAK := Some (DEC (masked (number e ''__VERSIONNUM__'') 0xFF))\<rparr>
         else compiler_named ''ADSP'')
      else if is_defined e ''__IAR_SYSTEMS_ICC__'' \<or> is_defined e ''__IAR_SYSTEMS_ICC'' then
        (if is_defined e ''__VER__'' \<and> is_defined e ''__ICCARM__'' then
           (patched ''IAR'' (DEC (over (number e ''__VER__'') 1000000))
              (DEC (modulo (over (number e ''__VER__'') 1000) 1000)) (DEC (modulo (number e ''__VER__'') 1000)))
             \<lparr>VERSION_INTERNAL := Some (DEC (number e ''__IAR_SYSTEMS_ICC__''))\<rparr>
         else if is_defined e ''__VER__'' \<and>
           any_defined e [''__ICCAVR__'', ''__ICCRX__'', ''__ICCRH850__'', ''__ICCRL78__'', ''__ICC430__'',
             ''__ICCRISCV__'', ''__ICCV850__'', ''__ICC8051__'', ''__ICCSTM8__''] then
           (patched ''IAR'' (DEC (over (number e ''__VER__'') 100))
              (DEC (map_option (\<lambda>v. v - (v sdiv 100) * 100) (number e ''__VER__'')))
              (DEC (number e ''__SUBVERSION__'')))
             \<lparr>VERSION_INTERNAL := Some (DEC (number e ''__IAR_SYSTEMS_ICC__''))\<rparr>
         else compiler_named ''IAR'')
      else if is_defined e ''__DCC__'' \<and> is_defined e ''_DIAB_TOOL'' then
        (patched ''Diab'' (DEC (number e ''__VERSION_MAJOR_NUMBER__''))
           (DEC (number e ''__VERSION_MINOR_NUMBER__'')) (DEC (number e ''__VERSION_ARCH_FEATURE_NUMBER__'')))
          \<lparr>VERSION_TWEAK := Some (DEC (number e ''__VERSION_BUG_FIX_NUMBER__''))\<rparr>
      else if is_defined e ''__SDCC_VERSION_MAJOR'' \<or> is_defined e ''SDCC'' then
        (if is_defined e ''__SDCC_VERSION_MAJOR'' then
           patched ''SDCC'' (DEC (number e ''__SDCC_VERSION_MAJOR'')) (DEC (number e ''__SDCC_VERSION_MINOR''))
             (DEC (number e ''__SDCC_VERSION_PATCH''))
         else decimal_vrp ''SDCC'' (number e ''SDCC''))
      else if is_defined e ''__hpux'' \<or> is_defined e ''__hpua'' then compiler_named ''HP''
      else compiler_named '''')"

definition C_id_clang :: "macros \<Rightarrow> compiler" where
  "C_id_clang e =
     (if is_defined e ''__clang__'' \<and> is_defined e ''__apple_build_version__'' then
        msvc_simulation e
          ((patched ''AppleClang'' (DEC (number e ''__clang_major__'')) (DEC (number e ''__clang_minor__''))
             (DEC (number e ''__clang_patchlevel__'')))
            \<lparr>VERSION_TWEAK := Some (DEC (number e ''__apple_build_version__''))\<rparr>)
      else if is_defined e ''__clang__'' \<and> is_defined e ''__ARMCOMPILER_VERSION'' then
        (patched ''ARMClang'' (DEC (over (number e ''__ARMCOMPILER_VERSION'') 1000000))
           (DEC (modulo (over (number e ''__ARMCOMPILER_VERSION'') 10000) 100))
           (DEC (modulo (over (number e ''__ARMCOMPILER_VERSION'') 100) 100)))
          \<lparr>VERSION_INTERNAL := Some (DEC (number e ''__ARMCOMPILER_VERSION''))\<rparr>
      else if is_defined e ''__clang__'' \<and> is_defined e ''__ti__'' then
        (patched ''TIClang'' (DEC (number e ''__ti_major__'')) (DEC (number e ''__ti_minor__''))
           (DEC (number e ''__ti_patchlevel__'')))
          \<lparr>VERSION_INTERNAL := Some (DEC (number e ''__ti_version__''))\<rparr>
      else if is_defined e ''__clang__'' then
        msvc_simulation e
          (patched ''Clang'' (DEC (number e ''__clang_major__'')) (DEC (number e ''__clang_minor__''))
             (DEC (number e ''__clang_patchlevel__'')))
      else if is_defined e ''__LCC__'' \<and> any_defined e [''__GNUC__'', ''__GNUG__'', ''__MCST__''] then
        (let c = (versioned ''LCC'' (DEC (over (number e ''__LCC__'') 100))
                    (DEC (modulo (number e ''__LCC__'') 100)))
                   \<lparr>VERSION_PATCH := only_if (is_defined e ''__LCC_MINOR__'') (DEC (number e ''__LCC_MINOR__''))\<rparr>
         in if is_defined e ''__GNUC__'' \<and> is_defined e ''__GNUC_MINOR__'' then
              c\<lparr>SIMULATE_ID := Some ''GNU'', SIMULATE_MAJOR := Some (DEC (number e ''__GNUC__'')),
                SIMULATE_MINOR := Some (DEC (number e ''__GNUC_MINOR__'')),
                SIMULATE_PATCH := only_if (is_defined e ''__GNUC_PATCHLEVEL__'')
                  (DEC (number e ''__GNUC_PATCHLEVEL__''))\<rparr>
            else c)
      else C_id_last e)"

definition C_id_embedded :: "macros \<Rightarrow> compiler" where
  "C_id_embedded e =
     (if is_defined e ''__FUJITSU'' then
        (let c = (if is_defined e ''__FCC_version__''
                  then (compiler_named ''Fujitsu'')\<lparr>COMPILER_VERSION := Some (text_of e ''__FCC_version__'')\<rparr>
                  else if is_defined e ''__FCC_major__''
                  then patched ''Fujitsu'' (DEC (number e ''__FCC_major__'')) (DEC (number e ''__FCC_minor__''))
                         (DEC (number e ''__FCC_patchlevel__''))
                  else compiler_named ''Fujitsu'')
         in c\<lparr>VERSION_INTERNAL :=
               (if is_defined e ''__fcc_version'' then Some (DEC (number e ''__fcc_version''))
                else only_if (is_defined e ''__FCC_VERSION'') (DEC (number e ''__FCC_VERSION'')))\<rparr>)
      else if is_defined e ''__ghs__'' then
        (if is_defined e ''__GHS_VERSION_NUMBER'' then
           patched ''GHS'' (DEC (over (number e ''__GHS_VERSION_NUMBER'') 100))
             (DEC (modulo (over (number e ''__GHS_VERSION_NUMBER'') 10) 10))
             (DEC (modulo (number e ''__GHS_VERSION_NUMBER'') 10))
         else compiler_named ''GHS'')
      else if is_defined e ''__TASKING__'' then
        (versioned ''Tasking'' (DEC (over (number e ''__VERSION__'') 1000))
           (DEC (modulo (number e ''__VERSION__'') 100)))
          \<lparr>VERSION_INTERNAL := Some (DEC (number e ''__VERSION__''))\<rparr>
      else if is_defined e ''__ORANGEC__'' then
        patched ''OrangeC'' (DEC (number e ''__ORANGEC_MAJOR__'')) (DEC (number e ''__ORANGEC_MINOR__''))
          (DEC (number e ''__ORANGEC_PATCHLEVEL__''))
      else if is_defined e ''__RENESAS__'' then
        patched ''Renesas'' (HEX (masked (shifted (number e ''__RENESAS_VERSION__'') 24) 0xFF))
          (HEX (masked (shifted (number e ''__RENESAS_VERSION__'') 16) 0xFF))
          (HEX (masked (shifted (number e ''__RENESAS_VERSION__'') 8) 0xFF))
      else if is_defined e ''__TINYC__'' then compiler_named ''TinyCC''
      else if is_defined e ''__BCC__'' then compiler_named ''Bruce''
      else if is_defined e ''__SCO_VERSION__'' then compiler_named ''SCO''
      else if is_defined e ''__ARMCC_VERSION'' \<and> \<not> is_defined e ''__clang__'' then
        (if if_value e ''__ARMCC_VERSION'' \<ge> 1000000 then
           patched ''ARMCC'' (DEC (over (number e ''__ARMCC_VERSION'') 1000000))
             (DEC (modulo (over (number e ''__ARMCC_VERSION'') 10000) 100))
             (DEC (modulo (number e ''__ARMCC_VERSION'') 10000))
         else
           patched ''ARMCC'' (DEC (over (number e ''__ARMCC_VERSION'') 100000))
             (DEC (modulo (over (number e ''__ARMCC_VERSION'') 10000) 10))
             (DEC (modulo (number e ''__ARMCC_VERSION'') 10000)))
      else C_id_clang e)"

definition C_id_vendor :: "macros \<Rightarrow> compiler" where
  "C_id_vendor e =
     (if is_defined e ''__IBMC__'' \<and> is_defined e ''__COMPILER_VER__'' then
        decimal_vrp ''zOS'' (number e ''__IBMC__'')
      else if is_defined e ''__open_xl__'' \<and> is_defined e ''__clang__'' then
        (patched ''IBMClang'' (DEC (number e ''__open_xl_version__'')) (DEC (number e ''__open_xl_release__''))
           (DEC (number e ''__open_xl_modification__'')))
          \<lparr>VERSION_TWEAK := Some (DEC (number e ''__open_xl_ptf_fix_level__'')),
           VERSION_INTERNAL_STR := Some (text_of e ''__clang_version__'')\<rparr>
      else if is_defined e ''__ibmxl__'' \<and> is_defined e ''__clang__'' then
        (patched ''XLClang'' (DEC (number e ''__ibmxl_version__'')) (DEC (number e ''__ibmxl_release__''))
           (DEC (number e ''__ibmxl_modification__'')))
          \<lparr>VERSION_TWEAK := Some (DEC (number e ''__ibmxl_ptf_fix_level__''))\<rparr>
      else if is_defined e ''__IBMC__'' \<and> \<not> is_defined e ''__COMPILER_VER__'' \<and>
        if_value e ''__IBMC__'' \<ge> 800 then decimal_vrp ''XL'' (number e ''__IBMC__'')
      else if is_defined e ''__IBMC__'' \<and> \<not> is_defined e ''__COMPILER_VER__'' \<and>
        if_value e ''__IBMC__'' < 800 then decimal_vrp ''VisualAge'' (number e ''__IBMC__'')
      else if is_defined e ''__NVCOMPILER'' then
        (versioned ''NVHPC'' (DEC (number e ''__NVCOMPILER_MAJOR__'')) (DEC (number e ''__NVCOMPILER_MINOR__'')))
          \<lparr>VERSION_PATCH := only_if (is_defined e ''__NVCOMPILER_PATCHLEVEL__'')
             (DEC (number e ''__NVCOMPILER_PATCHLEVEL__''))\<rparr>
      else if is_defined e ''__PGI'' then
        (versioned ''PGI'' (DEC (number e ''__PGIC__'')) (DEC (number e ''__PGIC_MINOR__'')))
          \<lparr>VERSION_PATCH := only_if (is_defined e ''__PGIC_PATCHLEVEL__'')
             (DEC (number e ''__PGIC_PATCHLEVEL__''))\<rparr>
      else if is_defined e ''__clang__'' \<and> is_defined e ''__cray__'' then
        (patched ''CrayClang'' (DEC (number e ''__cray_major__'')) (DEC (number e ''__cray_minor__''))
           (DEC (number e ''__cray_patchlevel__'')))
          \<lparr>VERSION_INTERNAL_STR := Some (text_of e ''__clang_version__'')\<rparr>
      else if is_defined e ''_CRAYC'' then
        versioned ''Cray'' (DEC (number e ''_RELEASE_MAJOR'')) (DEC (number e ''_RELEASE_MINOR''))
      else if is_defined e ''__TI_COMPILER_VERSION__'' then
        patched ''TI'' (DEC (over (number e ''__TI_COMPILER_VERSION__'') 1000000))
          (DEC (modulo (over (number e ''__TI_COMPILER_VERSION__'') 1000) 1000))
          (DEC (modulo (number e ''__TI_COMPILER_VERSION__'') 1000))
      else if is_defined e ''__CLANG_FUJITSU'' then
        (patched ''FujitsuClang'' (DEC (number e ''__FCC_major__'')) (DEC (number e ''__FCC_minor__''))
           (DEC (number e ''__FCC_patchlevel__'')))
          \<lparr>VERSION_INTERNAL_STR := Some (text_of e ''__clang_version__'')\<rparr>
      else C_id_embedded e)"

definition C_id_old :: "macros \<Rightarrow> compiler" where
  "C_id_old e =
     (if is_defined e ''__PATHCC__'' then
        (versioned ''PathScale'' (DEC (number e ''__PATHCC__'')) (DEC (number e ''__PATHCC_MINOR__'')))
          \<lparr>VERSION_PATCH := only_if (is_defined e ''__PATHCC_PATCHLEVEL__'')
             (DEC (number e ''__PATHCC_PATCHLEVEL__''))\<rparr>
      else if is_defined e ''__BORLANDC__'' \<and> is_defined e ''__CODEGEARC_VERSION__'' then
        patched ''Embarcadero'' (HEX (masked (shifted (number e ''__CODEGEARC_VERSION__'') 24) 0x00FF))
          (HEX (masked (shifted (number e ''__CODEGEARC_VERSION__'') 16) 0x00FF))
          (DEC (masked (number e ''__CODEGEARC_VERSION__'') 0xFFFF))
      else if is_defined e ''__BORLANDC__'' then
        versioned ''Borland'' (HEX (shifted (number e ''__BORLANDC__'') 8))
          (HEX (masked (number e ''__BORLANDC__'') 0xFF))
      else if is_defined e ''__WATCOMC__'' \<and> if_value e ''__WATCOMC__'' < 1200 then
        (versioned ''Watcom'' (DEC (over (number e ''__WATCOMC__'') 100))
           (DEC (modulo (over (number e ''__WATCOMC__'') 10) 10)))
          \<lparr>VERSION_PATCH := only_if (if_value e ''__WATCOMC__'' smod 10 > 0)
             (DEC (modulo (number e ''__WATCOMC__'') 10))\<rparr>
      else if is_defined e ''__WATCOMC__'' then
        (versioned ''OpenWatcom''
           (DEC (over (map_option (\<lambda>v. v - 1100) (number e ''__WATCOMC__'')) 100))
           (DEC (modulo (over (number e ''__WATCOMC__'') 10) 10)))
          \<lparr>VERSION_PATCH := only_if (if_value e ''__WATCOMC__'' smod 10 > 0)
             (DEC (modulo (number e ''__WATCOMC__'') 10))\<rparr>
      else if is_defined e ''__SUNPRO_C'' then
        (if if_value e ''__SUNPRO_C'' \<ge> 0x5100 then
           patched ''SunPro'' (HEX (shifted (number e ''__SUNPRO_C'') 12))
             (HEX (masked (shifted (number e ''__SUNPRO_C'') 4) 0xFF))
             (HEX (masked (number e ''__SUNPRO_C'') 0xF))
         else
           patched ''SunPro'' (HEX (shifted (number e ''__SUNPRO_C'') 8))
             (HEX (masked (shifted (number e ''__SUNPRO_C'') 4) 0xF))
             (HEX (masked (number e ''__SUNPRO_C'') 0xF)))
      else if is_defined e ''__HP_cc'' then
        patched ''HP'' (DEC (over (number e ''__HP_cc'') 10000))
          (DEC (modulo (over (number e ''__HP_cc'') 100) 100)) (DEC (modulo (number e ''__HP_cc'') 100))
      else if is_defined e ''__DECC'' then
        patched ''Compaq'' (DEC (over (number e ''__DECC_VER'') 10000000))
          (DEC (modulo (over (number e ''__DECC_VER'') 100000) 100))
          (DEC (modulo (number e ''__DECC_VER'') 10000))
      else C_id_vendor e)"

definition C_compiler_id :: "macros \<Rightarrow> compiler" where
  "C_compiler_id e =
     (if is_defined e ''__INTEL_COMPILER'' \<or> is_defined e ''__ICC'' then
        (let v = number e ''__INTEL_COMPILER'';
             old = (if_value e ''__INTEL_COMPILER'' < 2021 \<or> if_value e ''__INTEL_COMPILER'' = 202110 \<or>
                    if_value e ''__INTEL_COMPILER'' = 202111);
             c = (if old then
                    patched ''Intel'' (DEC (over v 100)) (DEC (modulo (over v 10) 10))
                      (if is_defined e ''__INTEL_COMPILER_UPDATE'' then DEC (number e ''__INTEL_COMPILER_UPDATE'')
                       else DEC (modulo v 10))
                  else patched ''Intel'' (DEC v) (DEC (number e ''__INTEL_COMPILER_UPDATE'')) (DEC (Some 0)));
             c = c\<lparr>VERSION_TWEAK := only_if (is_defined e ''__INTEL_COMPILER_BUILD_DATE'')
                      (DEC (number e ''__INTEL_COMPILER_BUILD_DATE''))\<rparr>
         in gnu_simulation e (msvc_simulation e c))
      else if (is_defined e ''__clang__'' \<and> is_defined e ''__INTEL_CLANG_COMPILER'') \<or>
        is_defined e ''__INTEL_LLVM_COMPILER'' then
        (let v = number e ''__INTEL_LLVM_COMPILER'';
             c = (if if_value e ''__INTEL_LLVM_COMPILER'' < 1000000
                  then decimal_vrp ''IntelLLVM'' v
                  else patched ''IntelLLVM'' (DEC (over v 10000)) (DEC (modulo (over v 100) 100))
                         (DEC (modulo v 100)))
         in gnu_simulation e (msvc_simulation e c))
      else C_id_old e)"

section \<open>Platform and architecture\<close>


definition C_ARCHITECTURE_ID_rest :: "macros \<Rightarrow> string" where
  "C_ARCHITECTURE_ID_rest = ARCHITECTURE_ID_rest"


section \<open>The language standard\<close>

definition C_STD_99 :: int where "C_STD_99 = 199901"
definition C_STD_11 :: int where "C_STD_11 = 201112"
definition C_STD_17 :: int where "C_STD_17 = 201710"

lemmas c_standards = C_STD_99_def C_STD_11_def C_STD_17_def

text \<open>Without \<^verbatim>\<open>__STDC_VERSION__\<close> the name \<^verbatim>\<open>C_STD\<close> is not defined and counts as 0.\<close>

definition C_STD :: "macros \<Rightarrow> int" where
  "C_STD e = if_value e ''__STDC_VERSION__''"

definition C_VERSION :: "macros \<Rightarrow> string" where
  "C_VERSION e =
     (if \<not> is_defined e ''__STDC__'' \<and> \<not> is_defined e ''__clang__'' \<and> \<not> is_defined e ''__RENESAS__'' then
        (if any_defined e [''_MSC_VER'', ''__ibmxl__'', ''__IBMC__''] then ''90'' else '''')
      else if C_STD e > C_STD_17 then ''23''
      else if C_STD e > C_STD_11 then ''17''
      else if C_STD e > C_STD_99 then ''11''
      else if C_STD e \<ge> C_STD_99 then ''99''
      else ''90'')"

definition C_info_language_standard_default :: "macros \<Rightarrow> global" where
  "C_info_language_standard_default e = Declared (''INFO:standard_default['' @ C_VERSION e @ '']'')"

section \<open>main\<close>

text \<open>
  With \<^verbatim>\<open>ID_VOID_MAIN\<close> the program reads nothing and has no exit status, \<open>Some None\<close>; otherwise
  \<^verbatim>\<open>main\<close> is the one of the C++ file, and None stands for an undefined read.
\<close>

definition C_probe_globals :: "macros \<Rightarrow> global list" where
  "C_probe_globals e = globals_read (C_compiler_id e) (C_info_language_standard_default e) e"

definition C_main :: "macros \<Rightarrow> nat \<Rightarrow> int option option" where
  "C_main e argc = (if ID_VOID_MAIN e then Some None else map_option Some (sum_at argc (C_probe_globals e)))"

section \<open>One compiler, two languages\<close>
















text \<open>\<^verbatim>\<open>main\<close> of the C file, like that of the C++ one, reads no string past its end for an \<^verbatim>\<open>argc\<close> up to 11, where
  the file compiles.\<close>

lemma C_main_defined:
  "Absent \<notin> set (C_probe_globals e) \<and>
   (IllFormed \<notin> set (C_probe_globals e) \<and> argc \<le> 11 \<longrightarrow> C_main e argc \<noteq> None)"
  using globals_read_declared [of "C_info_language_standard_default e"] sum_at_total [of _ "C_info_language_standard_default e"]
  by (simp add: C_probe_globals_def C_main_def C_info_language_standard_default_def)

text \<open>The standards since C99, and their drafts up to the next one, get their names; everything older is 90.\<close>

lemma C_VERSION_names:
  assumes "is_defined e ''__STDC__''" and "e ''__STDC_VERSION__'' = Some (Num v)"
  shows "v < 199901 \<Longrightarrow> C_VERSION e = ''90''" and "v = 199901 \<Longrightarrow> C_VERSION e = ''99''"
    and "199901 < v \<Longrightarrow> v \<le> 201112 \<Longrightarrow> C_VERSION e = ''11''"
    and "201112 < v \<Longrightarrow> v \<le> 201710 \<Longrightarrow> C_VERSION e = ''17''" and "201710 < v \<Longrightarrow> C_VERSION e = ''23''"
  using assms by (simp_all add: C_VERSION_def C_STD_def c_standards if_value_def number_def)

end
