(* ===== verification/Refinement_Interface.thy ===== *)
theory Refinement_Interface
  imports Chat_Prelude
begin

text \<open>
  Runs of a labelled transition relation, and the contract between a detailed system and an
  abstract one: \<open>view\<close> maps its states to abstract states, \<open>obs\<close> its labels to what can be observed
  of them, and every step from a good state is an abstract step. Then every run of the detailed system is a run of the abstract one with the
  same observations, and what the abstract system keeps invariant, the detailed one keeps.
\<close>

inductive runs :: "('s \<Rightarrow> 'l \<Rightarrow> 's \<Rightarrow> bool) \<Rightarrow> 's \<Rightarrow> 'l list \<Rightarrow> 's \<Rightarrow> bool" for step s where
  none: "runs step s [] s"
| more: "runs step s ls t \<Longrightarrow> step t l u \<Longrightarrow> runs step s (ls @ [l]) u"

inductive_cases runs_NilE: "runs step s [] t"

lemma runs_Nil [simp]: "runs step s [] t \<longleftrightarrow> t = s"
  by (auto elim: runs_NilE intro: runs.none)

lemma runs_single: "step s l t \<Longrightarrow> runs step s [l] t"
  using runs.more [OF runs.none] by fastforce

lemma runs_append: "runs step t ms u \<Longrightarrow> runs step s ls t \<Longrightarrow> runs step s (ls @ ms) u"
proof (induction rule: runs.induct)
  case (more ms u l v)
  from runs.more [OF more.IH [OF more.prems] more.hyps(2)] show ?case by simp
qed simp

locale refinement =
  fixes step :: "'c \<Rightarrow> 'l \<Rightarrow> 'c \<Rightarrow> bool"
    and good :: "'c \<Rightarrow> bool"
    and spec :: "'a \<Rightarrow> 'm \<Rightarrow> 'a \<Rightarrow> bool"
    and view :: "'c \<Rightarrow> 'a"
    and obs :: "'l \<Rightarrow> 'm"
  assumes keeps: "good c \<Longrightarrow> step c l c' \<Longrightarrow> good c'"
    and simulates: "good c \<Longrightarrow> step c l c' \<Longrightarrow> spec (view c) (obs l) (view c')"
begin

lemma runs_refined: "runs step c ls c' \<Longrightarrow> good c \<Longrightarrow> good c' \<and> runs spec (view c) (map obs ls) (view c')"
proof (induction rule: runs.induct)
  case (more ls c1 l c2)
  then have g: "good c1" "runs spec (view c) (map obs ls) (view c1)" by simp_all
  from runs.more [OF g(2) simulates [OF g(1) more.hyps(2)]] keeps [OF g(1) more.hyps(2)]
  show ?case by simp
qed simp

text \<open>An invariant of the abstract system holds of the view of every state the detailed one reaches.\<close>

lemma invariant_transfer:
  assumes "runs step c ls c'" and "good c" and "I (view c)"
    and "\<And>a m a'. I a \<Longrightarrow> spec a m a' \<Longrightarrow> I a'"
  shows "I (view c')"
proof -
  have "runs spec a ms a' \<Longrightarrow> I a \<Longrightarrow> I a'" for a ms a'
    by (induction rule: runs.induct) (auto intro: assms(4))
  with runs_refined [OF assms(1,2)] assms(3) show ?thesis by blast
qed

end

end
