(* ===== verification/Chat_Service.thy ===== *)
theory Chat_Service
  imports End_To_End Refinement_Interface
begin

text \<open>
  What the server is for its clients, without the order of its table, the SQL engine, the frames
  of a handler in the order of its calls, or its locks: who is connected, who is logged in as whom
  and in which room, the accounts and the posts; and for every step, what every connection is
  sent. \<open>Service_Refinement\<close> shows that the server model has no other behaviour.
\<close>

section \<open>State and deliveries\<close>

record service =
  connected :: "SOCKET set"
  logged_in :: "SOCKET \<rightharpoonup> string"
  located :: "SOCKET \<rightharpoonup> string"
  passwords :: "string \<rightharpoonup> string"
  posts :: "ChatMessage list"

text \<open>What each connection is sent in one step, in order.\<close>

type_synonym delivery = "SOCKET \<Rightarrow> string list"

definition nobody :: delivery where
  "nobody = (\<lambda>_. [])"

definition send_to :: "SOCKET \<Rightarrow> string list \<Rightarrow> delivery" where
  "send_to s fs = (\<lambda>s'. if s' = s then fs else [])"

definition cast_to :: "SOCKET set \<Rightarrow> string \<Rightarrow> delivery" where
  "cast_to S f = (\<lambda>s'. if s' \<in> S then [f] else [])"

definition then_to :: "delivery \<Rightarrow> delivery \<Rightarrow> delivery" where
  "then_to d d' = (\<lambda>s'. d s' @ d' s')"

definition members :: "service \<Rightarrow> string \<Rightarrow> SOCKET set" where
  "members \<Sigma> m = {s. located \<Sigma> s = Some m}"

definition system :: "string \<Rightarrow> string" where
  "system text = encode_message System text"

text \<open>A post is kept, and read back, up to the first NUL byte of each of its texts.\<close>

definition c_message :: "ChatMessage \<Rightarrow> ChatMessage" where
  "c_message p = p\<lparr>msg_room := c_str (msg_room p), msg_username := c_str (msg_username p),
     msg_content := c_str (msg_content p)\<rparr>"

text \<open>The last \<open>n\<close> posts of a room, in the order of their times, equal times in the order of posting.\<close>

definition newest :: "nat \<Rightarrow> string \<Rightarrow> service \<Rightarrow> ChatMessage list" where
  "newest n m \<Sigma> =
     (let ps = sort_key (\<lambda>p. sint (msg_timestamp p)) (filter (\<lambda>p. msg_room p = c_str m) (posts \<Sigma>))
      in map c_message (drop (length ps - n) ps))"

text \<open>The answer to a history query; a query that the engine breaks off answers with the older part.\<close>

definition history_answer :: "service \<Rightarrow> string \<Rightarrow> nat \<Rightarrow> string list \<Rightarrow> bool" where
  "history_answer \<Sigma> m n fs \<longleftrightarrow> (\<exists>ms. prefix ms (newest n m \<Sigma>) \<and>
     fs = (if ms = [] then [system (''No message history in room '' @ quoted m @ '' yet.'')]
           else [encode_message History (encode_history ms)]))"

text \<open>A post is stored, or it is not and its author is told.\<close>

definition stores :: "SOCKET \<Rightarrow> string \<Rightarrow> ChatMessage \<Rightarrow> service \<Rightarrow> string list \<Rightarrow> service \<Rightarrow> bool" where
  "stores s complaint p \<Sigma> fs \<Sigma>' \<longleftrightarrow>
     fs = [] \<and> \<Sigma>' = \<Sigma>\<lparr>posts := posts \<Sigma> @ [c_message p]\<rparr> \<or> fs = [system complaint] \<and> \<Sigma>' = \<Sigma>"

section \<open>Steps\<close>

inductive service_step :: "service \<Rightarrow> SOCKET \<times> delivery \<Rightarrow> service \<Rightarrow> bool" where
  connect: "s \<notin> connected \<Sigma> \<Longrightarrow> s \<noteq> INVALID_SOCKET \<Longrightarrow>
    service_step \<Sigma> (s, nobody) (\<Sigma>\<lparr>connected := insert s (connected \<Sigma>)\<rparr>)"
| refuse: "s \<in> connected \<Sigma> \<Longrightarrow> logged_in \<Sigma> s = None \<Longrightarrow>
    service_step \<Sigma> (s, send_to s [encode_message AuthFail reason]) \<Sigma>"
| give_up: "s \<in> connected \<Sigma> \<Longrightarrow> logged_in \<Sigma> s = None \<Longrightarrow>
    service_step \<Sigma> (s, nobody) (\<Sigma>\<lparr>connected := connected \<Sigma> - {s}\<rparr>)"
| register: "s \<in> connected \<Sigma> \<Longrightarrow> logged_in \<Sigma> s = None \<Longrightarrow>
    valid_username u \<Longrightarrow> 6 \<le> length p \<Longrightarrow> passwords \<Sigma> u = None \<Longrightarrow> password_matches h p \<Longrightarrow>
    service_step \<Sigma> (s, send_to s [system (''Account '' @ quoted u @ '' created. Welcome!'')])
      (\<Sigma>\<lparr>logged_in := (logged_in \<Sigma>)(s \<mapsto> u), passwords := (passwords \<Sigma>)(u \<mapsto> h)\<rparr>)"
| login: "s \<in> connected \<Sigma> \<Longrightarrow> logged_in \<Sigma> s = None \<Longrightarrow>
    passwords \<Sigma> (c_str u) = Some h \<Longrightarrow> password_matches h p \<Longrightarrow>
    service_step \<Sigma> (s, nobody) (\<Sigma>\<lparr>logged_in := (logged_in \<Sigma>)(s \<mapsto> u)\<rparr>)"
| arrive: "logged_in \<Sigma> s = Some u \<Longrightarrow> located \<Sigma> s = None \<Longrightarrow> history_answer \<Sigma> kDefaultRoom 50 h \<Longrightarrow>
    service_step \<Sigma>
      (s, then_to (send_to s ([encode_message AuthOk (u @ ''\<newline>'' @ kDefaultRoom),
              system (''Welcome, '' @ u @ ''! You are in room '' @ quoted kDefaultRoom @ ''.''),
              system ''Commands: /join <room> | /history [N] | /rooms | /msg <user> <text> | /who [room] | /dmhistory <user> [N] | /help | /quit''] @ h))
            (cast_to (members \<Sigma> kDefaultRoom) (system (u @ '' joined '' @ kDefaultRoom))))
      (\<Sigma>\<lparr>located := (located \<Sigma>)(s \<mapsto> kDefaultRoom)\<rparr>)"
| reply: "logged_in \<Sigma> s = Some u \<Longrightarrow> located \<Sigma> s = Some m \<Longrightarrow>
    service_step \<Sigma> (s, send_to s [system text]) \<Sigma>"
| idle: "logged_in \<Sigma> s = Some u \<Longrightarrow> located \<Sigma> s = Some m \<Longrightarrow> service_step \<Sigma> (s, nobody) \<Sigma>"
| who: "logged_in \<Sigma> s = Some u \<Longrightarrow> located \<Sigma> s = Some m \<Longrightarrow>
    m' = m \<or> m' \<in> range sanitize_room \<Longrightarrow> distinct ss \<Longrightarrow> set ss = members \<Sigma> m' \<Longrightarrow>
    service_step \<Sigma> (s, send_to s [encode_message UsersList
      (encode_user_list (map (\<lambda>s. the (logged_in \<Sigma> s)) ss))]) \<Sigma>"
| history: "logged_in \<Sigma> s = Some u \<Longrightarrow> located \<Sigma> s = Some m \<Longrightarrow>
    m' = m \<or> (\<exists>v. v \<noteq> [] \<and> m' = dm_room_key u v) \<Longrightarrow> 1 \<le> n \<Longrightarrow> n \<le> 200 \<Longrightarrow> history_answer \<Sigma> m' n h \<Longrightarrow>
    service_step \<Sigma> (s, send_to s h) \<Sigma>"
| move: "logged_in \<Sigma> s = Some u \<Longrightarrow> located \<Sigma> s = Some m \<Longrightarrow>
    m' \<in> range sanitize_room \<Longrightarrow> m' \<noteq> [] \<Longrightarrow> m' \<noteq> m \<Longrightarrow> history_answer \<Sigma> m' 50 h \<Longrightarrow>
    service_step \<Sigma>
      (s, then_to (cast_to (members \<Sigma> m - {s}) (system (u @ '' left '' @ m)))
            (then_to (cast_to (members \<Sigma> m') (system (u @ '' joined '' @ m')))
              (send_to s (encode_message Joined m' # h))))
      (\<Sigma>\<lparr>located := (located \<Sigma>)(s \<mapsto> m')\<rparr>)"
| say: "logged_in \<Sigma> s = Some u \<Longrightarrow> located \<Sigma> s = Some m \<Longrightarrow>
    p = \<lparr>msg_room = m, msg_username = u, msg_content = text, msg_timestamp = now\<rparr> \<Longrightarrow>
    text \<noteq> [] \<Longrightarrow> trim text = text \<Longrightarrow>
    stores s ''Failed to store the message in history.'' p \<Sigma> complaint \<Sigma>' \<Longrightarrow>
    service_step \<Sigma>
      (s, then_to (send_to s complaint)
            (cast_to (members \<Sigma> m - {s}) (encode_message ChatMsg (encode_chat_message p)))) \<Sigma>'"
| whisper: "logged_in \<Sigma> s = Some u \<Longrightarrow> located \<Sigma> s = Some m \<Longrightarrow>
    logged_in \<Sigma> s' = Some v \<Longrightarrow> located \<Sigma> s' \<noteq> None \<Longrightarrow> text \<noteq> [] \<Longrightarrow>
    p = \<lparr>msg_room = dm_room_key u v, msg_username = u, msg_content = text, msg_timestamp = now\<rparr> \<Longrightarrow>
    f = encode_message DirectMsg (encode_direct_message
      \<lparr>dm_from = u, dm_to = v, dm_content = text, dm_timestamp = now\<rparr>) \<Longrightarrow>
    stores s ''Failed to store the direct message in history.'' p \<Sigma> complaint \<Sigma>' \<Longrightarrow>
    service_step \<Sigma> (s, then_to (send_to s complaint) (then_to (send_to s' [f]) (send_to s [f]))) \<Sigma>'"
| depart: "logged_in \<Sigma> s = Some u \<Longrightarrow> located \<Sigma> s = Some m \<Longrightarrow>
    service_step \<Sigma> (s, cast_to (members \<Sigma> m - {s}) (system (u @ '' left '' @ m)))
      (\<Sigma>\<lparr>connected := connected \<Sigma> - {s}, logged_in := (logged_in \<Sigma>)(s := None),
         located := (located \<Sigma>)(s := None)\<rparr>)"

section \<open>What the service guarantees\<close>

lemma encode_message_eq_iff: "encode_message t p = encode_message t' p' \<longleftrightarrow> msg_code t = msg_code t' \<and> p = p'"
  using encode_message_type [of t p t' p'] by (auto simp: encode_message_def)

lemma history_answer_types:
  "history_answer \<Sigma> m n h \<Longrightarrow> \<forall>p. encode_message ChatMsg p \<notin> set h \<and> encode_message DirectMsg p \<notin> set h"
  by (simp add: history_answer_def system_def split: if_splits) (auto simp: encode_message_eq_iff)

lemma stores_types:
  "stores s c q \<Sigma> fs \<Sigma>' \<Longrightarrow> \<forall>p. encode_message ChatMsg p \<notin> set fs \<and> encode_message DirectMsg p \<notin> set fs"
  by (auto simp: stores_def system_def encode_message_eq_iff)

lemmas delivery_sets = encode_message_eq_iff nobody_def send_to_def cast_to_def then_to_def members_def system_def

text \<open>
  Chat messages come from a member of the room they name, under the name that member logged in
  with, and go to members of that room; direct messages come under the sender's name and go to the
  sender and to someone logged in under the name they are addressed to.
\<close>

lemma chat_frames_authentic:
  assumes "service_step \<Sigma> (s, d) \<Sigma>'" and "encode_message ChatMsg p \<in> set (d s')"
  shows "\<exists>u m c t. logged_in \<Sigma> s = Some u \<and> located \<Sigma> s = Some m \<and> s' \<noteq> s \<and> located \<Sigma> s' = Some m \<and>
    p = encode_chat_message \<lparr>msg_room = m, msg_username = u, msg_content = c, msg_timestamp = t\<rparr>"
  using assms(1)
proof cases
  case (say u m q content now complaint)
  have "encode_message ChatMsg p \<in> set complaint \<or>
      s' \<noteq> s \<and> located \<Sigma> s' = Some m \<and> encode_message ChatMsg p = encode_message ChatMsg (encode_chat_message q)"
    using assms(2) say(1) by (auto simp: delivery_sets split: if_splits)
  with stores_types [OF say(7)] say(2-4) show ?thesis by (auto simp: encode_message_eq_iff)
qed (use assms(2) in \<open>auto simp: delivery_sets split: if_splits dest!: history_answer_types stores_types\<close>)

lemma direct_frames_authentic:
  assumes "service_step \<Sigma> (s, d) \<Sigma>'" and "encode_message DirectMsg p \<in> set (d s')"
  shows "\<exists>u v c t. logged_in \<Sigma> s = Some u \<and> (s' = s \<or> logged_in \<Sigma> s' = Some v) \<and>
    p = encode_direct_message \<lparr>dm_from = u, dm_to = v, dm_content = c, dm_timestamp = t\<rparr>"
  using assms(1)
proof cases
  case (whisper u m s'' v content q now f complaint)
  have "encode_message DirectMsg p \<in> set complaint \<or> (s' = s \<or> s' = s'') \<and> encode_message DirectMsg p = f"
    using assms(2) whisper(1) by (auto simp: send_to_def then_to_def split: if_splits)
  with stores_types [OF whisper(9)] have "p = encode_direct_message \<lparr>dm_from = u, dm_to = v, dm_content = content, dm_timestamp = now\<rparr>"
    "s' = s \<or> s' = s''" using whisper(8) by (auto simp: encode_message_eq_iff)
  with whisper(2,4) show ?thesis by blast
qed (use assms(2) in \<open>auto simp: delivery_sets split: if_splits dest!: history_answer_types stores_types\<close>)

text \<open>The state: who is in a room is logged in, who is logged in is connected and has an account.\<close>

definition service_ok :: "service \<Rightarrow> bool" where
  "service_ok \<Sigma> \<longleftrightarrow> dom (located \<Sigma>) \<subseteq> dom (logged_in \<Sigma>) \<and> dom (logged_in \<Sigma>) \<subseteq> connected \<Sigma> \<and>
     INVALID_SOCKET \<notin> connected \<Sigma> \<and> c_str ` ran (logged_in \<Sigma>) \<subseteq> dom (passwords \<Sigma>)"

lemma ran_upd_subset: "ran (f(a \<mapsto> b)) \<subseteq> insert b (ran f)" "ran (f(a := None)) \<subseteq> ran f"
  by (auto simp: ran_def split: if_splits)

lemma stores_ok: "stores s c p \<Sigma> fs \<Sigma>' \<Longrightarrow> service_ok \<Sigma> \<Longrightarrow> service_ok \<Sigma>'"
  unfolding stores_def service_ok_def by (elim disjE conjE) simp_all

lemma service_ok_step:
  assumes "service_ok \<Sigma>" and "service_step \<Sigma> l \<Sigma>'"
  shows "service_ok \<Sigma>'"
  using assms(2,1)
proof (induction rule: service_step.induct)
  case (register s \<Sigma> u p h)
  moreover have "c_str u = u" using register(3) by (rule valid_username_c_str)
  ultimately show ?case
    using ran_upd_subset(1) [of "logged_in \<Sigma>" s u] by (auto simp: service_ok_def)
next
  case (login s \<Sigma> u h p)
  then show ?case
    using ran_upd_subset(1) [of "logged_in \<Sigma>" s u] by (auto simp: service_ok_def)
next
  case (depart \<Sigma> s u m)
  moreover have "c_str ` ran ((logged_in \<Sigma>)(s := None)) \<subseteq> dom (passwords \<Sigma>)"
    using image_mono [OF ran_upd_subset(2), of c_str "logged_in \<Sigma>" s] depart(3)
    unfolding service_ok_def by (meson subset_trans)
  ultimately show ?case by (auto simp: service_ok_def simp del: image_subset_iff)
qed (blast intro: stores_ok | force simp: service_ok_def)+

end
