(* ===== verification/Service_Refinement.thy ===== *)
theory Service_Refinement
  imports Chat_Service Delivery
begin

text \<open>
  The server of \<open>Server_System\<close> implements the service of \<open>Chat_Service\<close>: the abstraction of its
  states and labels, and the proof that each handler, whatever the schedule and whatever the
  engine does within its documentation, is one step of the service with the same deliveries.
\<close>

section \<open>The abstraction\<close>

definition post_of_row :: "message_row \<Rightarrow> ChatMessage" where
  "post_of_row r = \<lparr>msg_room = m_room r, msg_username = m_user r, msg_content = m_content r, msg_timestamp = m_sent r\<rparr>"

definition service_of :: "('d \<Rightarrow> tables) \<Rightarrow> 'd sys \<Rightarrow> service" where
  "service_of T \<sigma> =
     \<lparr>connected = dom (conns \<sigma>), logged_in = (\<lambda>s. user_of (conns \<sigma> s)),
      located = (\<lambda>s. map_option snd (session_of (conns \<sigma> s))),
      passwords = accounts T (sdb (srv \<sigma>)), posts = map post_of_row (message_rows T (sdb (srv \<sigma>)))\<rparr>"

definition observed :: "SOCKET \<times> effect list \<Rightarrow> SOCKET \<times> delivery" where
  "observed l = (fst l, (\<lambda>s. frames_to s (snd l)))"

lemma stored_message_post: "stored_message p r \<longleftrightarrow> post_of_row r = c_message p"
  by (cases p) (auto simp: stored_message_def post_of_row_def c_message_def)

lemma message_of_row_post: "message_of_row r = c_message (post_of_row r)"
  by (simp add: message_of_row_def post_of_row_def c_message_def)

lemmas delivery_simps = nobody_def send_to_def cast_to_def then_to_def fun_eq_iff

section \<open>Row numbers\<close>

text \<open>Row numbers grow along the table, so rows of the same second come back in the order of storing.\<close>

definition ids_grow :: "('d \<Rightarrow> tables) \<Rightarrow> 'd ChatDatabase \<Rightarrow> bool" where
  "ids_grow T db \<longleftrightarrow> sorted_wrt (<) (map m_id (message_rows T db))"

lemma next_id_above: "i \<in> set ids \<Longrightarrow> i < next_id ids"
  unfolding next_id_def by (induction ids) auto

lemma ids_grow_same: "message_rows T db' = message_rows T db \<Longrightarrow> ids_grow T db \<Longrightarrow> ids_grow T db'"
  by (simp add: ids_grow_def)

lemma add_message_stores:
  assumes "sqlite_documented e T" and "add_message e p db = (stored, db')"
  shows "map post_of_row (message_rows T db') =
      map post_of_row (message_rows T db) @ (if stored then [c_message p] else [])"
    and "ids_grow T db \<Longrightarrow> ids_grow T db'"
    and "accounts T db' = accounts T db"
  using add_message_row [OF assms] store.add_law [OF assms]
  by (auto simp: ids_grow_def sorted_wrt_append next_id_above post_of_row_def c_message_def)

lemma sort_by_time:
  "sorted_wrt (<) (map m_id rs) \<Longrightarrow> sort_key sent_key rs = sort_key (\<lambda>r. sint (m_sent r)) rs"
proof (induction rs)
  case (Cons r rs)
  have "insort_key sent_key r ys = insort_key (\<lambda>r. sint (m_sent r)) r ys" if "\<forall>y\<in>set ys. m_id r < m_id y" for ys
    using that by (induction ys) (auto simp: sent_key_def)
  with Cons show ?case by simp
qed simp

lemma sort_key_map: "sort_key f (map g xs) = map g (sort_key (\<lambda>x. f (g x)) xs)"
proof (induction xs)
  case (Cons x xs)
  have "insort_key f (g x) (map g ys) = map g (insort_key (\<lambda>x. f (g x)) x ys)" for ys
    by (induction ys) simp_all
  with Cons show ?case by simp
qed simp

lemma newest_rows:
  assumes "ids_grow T db" and "posts \<Sigma> = map post_of_row (message_rows T db)" and "0 \<le> n" and "n < 2 ^ 31"
  shows "map message_of_row (recent_rows (c_str m) (of_int n) (contents T db)) = newest (nat n) m \<Sigma>"
proof -
  let ?rs = "filter (\<lambda>r. m_room r = c_str m) (t_messages (contents T db))"
  have ids: "sorted_wrt (<) (map m_id (t_messages (contents T db)))"
    using assms(1) by (simp add: ids_grow_def message_rows_def)
  then have "sorted_wrt (<) (map m_id ?rs)" by (simp add: sorted_wrt_map sorted_wrt_filter)
  then have s: "sort_key sent_key ?rs = sort_key (\<lambda>r. sint (m_sent r)) ?rs" by (rule sort_by_time)
  have n: "sint (of_int n :: i64) = n" using assms(3,4) by (simp add: signed_of_int signed_take_bit_int_eq_self)
  have "distinct (map m_id (t_messages (contents T db)))" using ids strict_sorted_iff by blast
  with recent_rows_last [of "contents T db" "of_int n" "c_str m"] n assms(3) s
  have "recent_rows (c_str m) (of_int n) (contents T db) =
      (let rs = sort_key (\<lambda>r. sint (m_sent r)) ?rs in drop (length rs - nat n) rs)" by simp
  moreover have "newest (nat n) m \<Sigma> =
      map c_message (let ps = sort_key (\<lambda>p. sint (msg_timestamp p)) (map post_of_row ?rs) in drop (length ps - nat n) ps)"
    by (simp add: newest_def assms(2) message_rows_def filter_map comp_def post_of_row_def Let_def)
  ultimately show ?thesis
    by (simp add: sort_key_map Let_def drop_map message_of_row_post post_of_row_def comp_def)
qed

lemma replay_answers:
  assumes "sqlite_documented e T" and "replay_history e s m n st = (st', effs)"
    and "ids_grow T (sdb st)" and "posts \<Sigma> = map post_of_row (message_rows T (sdb st))" and "0 \<le> n" and "n < 2 ^ 31"
  shows "\<exists>h. history_answer \<Sigma> m (nat n) h \<and> (\<lambda>s'. frames_to s' effs) = send_to s h"
    and "message_rows T (sdb st') = message_rows T (sdb st)" and "accounts T (sdb st') = accounts T (sdb st)"
proof -
  obtain ms db where g: "get_recent_messages e m n (sdb st) = (ms, db)" by fastforce
  note L = get_recent_law [OF assms(1) g]
  from assms(2) g have st': "st' = st\<lparr>sdb := db\<rparr>" by (auto simp: replay_history_def split: if_splits)
  with L show "message_rows T (sdb st') = message_rows T (sdb st)" "accounts T (sdb st') = accounts T (sdb st)" by simp_all
  have "prefix ms (newest (nat n) m \<Sigma>)" using L newest_rows [OF assms(3-6)] by simp
  moreover have "(\<lambda>s'. frames_to s' effs) = send_to s (if ms = [] then [system (''No message history in room '' @ quoted m @ '' yet.'')]
           else [encode_message History (encode_history ms)])"
    using assms(2) g by (auto simp: replay_history_def effect_simps send_msg_def send_system_def delivery_simps system_def)
  ultimately show "\<exists>h. history_answer \<Sigma> m (nat n) h \<and> (\<lambda>s'. frames_to s' effs) = send_to s h"
    unfolding history_answer_def by blast
qed

section \<open>Each handler is a step of the service\<close>

text \<open>What a good state is: the invariant of the running server, and growing row numbers.\<close>

definition server_good :: "'d sqlite \<Rightarrow> ('d \<Rightarrow> tables) \<Rightarrow> 'd sys \<Rightarrow> bool" where
  "server_good e T \<sigma> \<longleftrightarrow> sqlite_documented e T \<and> sys_ok T \<sigma> \<and> ids_grow T (sdb (srv \<sigma>))"

lemma server_goodD:
  assumes "server_good e T \<sigma>"
  shows "sqlite_documented e T" and "sys_ok T \<sigma>" and "ids_grow T (sdb (srv \<sigma>))"
    and "registry_ok (clients (srv \<sigma>))" and "presence (clients (srv \<sigma>)) = (\<lambda>s. session_of (conns \<sigma> s))"
    and "conns \<sigma> INVALID_SOCKET = None"
  using assms by (simp_all add: server_good_def sys_ok_def)

lemma service_of_simps [simp]:
  "connected (service_of T \<sigma>) = dom (conns \<sigma>)"
  "logged_in (service_of T \<sigma>) s = user_of (conns \<sigma> s)"
  "located (service_of T \<sigma>) s = map_option snd (session_of (conns \<sigma> s))"
  "passwords (service_of T \<sigma>) = accounts T (sdb (srv \<sigma>))"
  "posts (service_of T \<sigma>) = map post_of_row (message_rows T (sdb (srv \<sigma>)))"
  by (simp_all add: service_of_def)

lemma session_user: "session_of c = Some (u, m) \<Longrightarrow> user_of c = Some u"
  by (cases c rule: user_of.cases) auto

lemma members_service_of: "s \<in> members (service_of T \<sigma>) m \<longleftrightarrow> (\<exists>u. session_of (conns \<sigma> s) = Some (u, m))"
  by (auto simp: members_def)

lemma frames_cast:
  assumes "registry_ok cs"
  shows "frames_to s (map (\<lambda>sock. SendFrame sock f) (recipients_in m ex cs)) =
    cast_to {s. s \<noteq> ex \<and> (\<exists>u. presence cs s = Some (u, m))} f s"
  using registry.recipients_law [OF assms, of m ex]
  by (auto simp: frames_to_broadcast count_list_distinct cast_to_def)

lemma frames_broadcast:
  "registry_ok (clients st) \<Longrightarrow> frames_to s (broadcast_to_room m f ex st) =
    cast_to {s. s \<noteq> ex \<and> (\<exists>u. presence (clients st) s = Some (u, m))} f s"
  by (simp add: broadcast_to_room_eq frames_cast)

lemma replay_limits: "1 \<le> history_limit text \<and> history_limit text \<le> 200"
  by (simp add: history_limit_def kHistoryLimit_def Let_def split: option.splits)

text \<open>Equal services: the five parts agree.\<close>

lemma service_eqI:
  "connected \<Sigma> = connected \<Sigma>' \<Longrightarrow> logged_in \<Sigma> = logged_in \<Sigma>' \<Longrightarrow> located \<Sigma> = located \<Sigma>' \<Longrightarrow>
     passwords \<Sigma> = passwords \<Sigma>' \<Longrightarrow> posts \<Sigma> = posts \<Sigma>' \<Longrightarrow> \<Sigma> = (\<Sigma>' :: service)"
  by simp

lemma auth_refines:
  assumes "server_good e T \<sigma>" and "conns \<sigma> s = Some Authenticating"
    and "handle_auth e rnd now s input (srv \<sigma>) = (result, st, effs)"
  shows "result = Success u \<Longrightarrow> service_step (service_of T \<sigma>) (observed (s, effs))
      (service_of T \<lparr>srv = st, conns = (conns \<sigma>)(s \<mapsto> Entering u)\<rparr>)"
    and "result = Retry \<Longrightarrow> service_step (service_of T \<sigma>) (observed (s, effs)) (service_of T (\<sigma>\<lparr>srv := st\<rparr>))"
    and "result = Disconnected \<Longrightarrow> service_step (service_of T \<sigma>) (observed (s, effs @ [CloseSocket s]))
      (service_of T \<lparr>srv = st, conns = (conns \<sigma>)(s := None)\<rparr>)"
proof -
  note G = server_goodD [OF assms(1)]
  let ?\<Sigma> = "service_of T \<sigma>"
  have c: "s \<in> connected ?\<Sigma>" "logged_in ?\<Sigma> s = None" using assms(2) by auto
  have quiet: "(\<lambda>s'. frames_to s' [ServerLog t]) = nobody" for t by (simp add: effect_simps delivery_simps)
  show "service_step ?\<Sigma> (observed (s, effs)) (service_of T \<lparr>srv = st, conns = (conns \<sigma>)(s \<mapsto> Entering u)\<rparr>)"
    if "result = Success u"
    using assms(3)
  proof (cases rule: handle_auth_cases)
    case (registration frame payload i v p err db)
    then have e: "err = None" "v = u" "effs = [send_system s (''Account '' @ quoted u @ '' created. Welcome!''),
        ServerLog (''new account registered: '' @ u)]" using that by (auto split: option.splits)
    have cu: "c_str u = u" using registration(6) e(2) valid_username_c_str by simp
    note R = store.register_law [OF G(1) registration(8)]
    from R e cu obtain h where h: "accounts T (sdb (srv \<sigma>)) u = None" "password_matches h p"
      "accounts T db = (accounts T (sdb (srv \<sigma>)))(u \<mapsto> h)" "message_rows T db = message_rows T (sdb (srv \<sigma>))" by auto
    have "observed (s, effs) = (s, send_to s [system (''Account '' @ quoted u @ '' created. Welcome!'')])"
      by (auto simp: observed_def e effect_simps send_system_def send_msg_def delivery_simps system_def)
    moreover have "service_of T \<lparr>srv = st, conns = (conns \<sigma>)(s \<mapsto> Entering u)\<rparr> =
        ?\<Sigma>\<lparr>logged_in := (logged_in ?\<Sigma>)(s \<mapsto> u), passwords := (passwords ?\<Sigma>)(u \<mapsto> h)\<rparr>"
      using assms(2) by (auto simp: service_of_def registration(9) h fun_eq_iff)
    ultimately show ?thesis
      using service_step.register [OF c, of u p h] registration(6,7) e(2) h by simp
  next
    case (login frame payload i v p err db)
    then have e: "err = None" "v = u" "effs = [ServerLog (u @ '' logged in.'')]"
      using that by (auto split: option.splits)
    note R = store.authenticate_law [OF G(1) login(6)]
    from R e obtain h where h: "accounts T (sdb (srv \<sigma>)) (c_str u) = Some h" "password_matches h p"
      "accounts T db = accounts T (sdb (srv \<sigma>))" "message_rows T db = message_rows T (sdb (srv \<sigma>))" by auto
    have "service_of T \<lparr>srv = st, conns = (conns \<sigma>)(s \<mapsto> Entering u)\<rparr> = ?\<Sigma>\<lparr>logged_in := (logged_in ?\<Sigma>)(s \<mapsto> u)\<rparr>"
      using assms(2) by (auto simp: service_of_def login(7) h fun_eq_iff)
    with service_step.login [OF c, of u h p] h show ?thesis by (simp add: observed_def e quiet)
  qed (use that in simp_all)
  show "service_step ?\<Sigma> (observed (s, effs)) (service_of T (\<sigma>\<lparr>srv := st\<rparr>))" if "result = Retry"
  proof -
    have "\<exists>t. effs = [send_msg s AuthFail t] \<and> accounts T (sdb st) = accounts T (sdb (srv \<sigma>)) \<and>
        message_rows T (sdb st) = message_rows T (sdb (srv \<sigma>))"
      using assms(3)
    proof (cases rule: handle_auth_cases)
      case (registration frame payload i v p err db)
      with store.register_law [OF G(1) registration(8)] that show ?thesis by (auto split: option.splits)
    next
      case (login frame payload i v p err db)
      with store.authenticate_law [OF G(1) login(6)] that show ?thesis by (auto split: option.splits)
    qed (use that in auto)
    then obtain t where t: "effs = [send_msg s AuthFail t]" "service_of T (\<sigma>\<lparr>srv := st\<rparr>) = ?\<Sigma>"
      by (auto simp: service_of_def)
    have "observed (s, effs) = (s, send_to s [encode_message AuthFail t])"
      by (auto simp: observed_def t(1) effect_simps send_msg_def delivery_simps)
    with service_step.refuse [OF c, of t] t(2) show ?thesis by simp
  qed
  show "service_step ?\<Sigma> (observed (s, effs @ [CloseSocket s])) (service_of T \<lparr>srv = st, conns = (conns \<sigma>)(s := None)\<rparr>)"
    if "result = Disconnected"
  proof -
    have e: "effs = []" "st = srv \<sigma>"
      using assms(3) handle_auth_facts(3) [OF assms(3)] that by (auto simp: handle_auth_def)
    have "service_of T \<lparr>srv = st, conns = (conns \<sigma>)(s := None)\<rparr> = ?\<Sigma>\<lparr>connected := connected ?\<Sigma> - {s}\<rparr>"
      using assms(2) by (auto simp: service_of_def e fun_eq_iff)
    moreover have "observed (s, effs @ [CloseSocket s]) = (s, nobody)"
      by (simp add: observed_def e effect_simps delivery_simps)
    ultimately show ?thesis using service_step.give_up [OF c] by simp
  qed
qed

lemma enter_refines:
  assumes "server_good e T \<sigma>" and "conns \<sigma> s = Some (Entering u)"
    and run: "client_enter e s u (srv \<sigma>) = (m, st, effs)"
  shows "service_step (service_of T \<sigma>) (observed (s, effs))
      (service_of T \<lparr>srv = st, conns = (conns \<sigma>)(s \<mapsto> InRoom u m)\<rparr>)"
    and "message_rows T (sdb st) = message_rows T (sdb (srv \<sigma>))"
proof -
  note G = server_goodD [OF assms(1)]
  let ?\<Sigma> = "service_of T \<sigma>" and ?st = "add_client s u kDefaultRoom (srv \<sigma>)"
  let ?hello = "[encode_message AuthOk (u @ ''\<newline>'' @ kDefaultRoom),
     system (''Welcome, '' @ u @ ''! You are in room '' @ quoted kDefaultRoom @ ''.''),
     system ''Commands: /join <room> | /history [N] | /rooms | /msg <user> <text> | /who [room] | /dmhistory <user> [N] | /help | /quit'']"
  obtain replay where r: "replay_history e s kDefaultRoom kHistoryLimit ?st = (st, replay)"
    and m: "m = kDefaultRoom"
    and frames: "\<And>s'. frames_to s' effs = (if s' = s then ?hello else []) @ frames_to s' replay @
      frames_to s' (broadcast_to_room kDefaultRoom (encode_message System (u @ '' joined '' @ kDefaultRoom)) s st)"
    using run unfolding client_enter_def Let_def
    by (auto simp: effect_simps send_system_def send_msg_def system_def split: prod.splits)
  have db: "ids_grow T (sdb ?st)" "posts ?\<Sigma> = map post_of_row (message_rows T (sdb ?st))" using G(3) by simp_all
  obtain h where h: "history_answer ?\<Sigma> kDefaultRoom 50 h" "\<And>s'. frames_to s' replay = send_to s h s'"
    using replay_answers(1) [OF G(1) r db] by (auto simp: kHistoryLimit_def fun_eq_iff)
  note R = replay_answers(2,3) [OF G(1) r db]
  have free: "presence (clients (srv \<sigma>)) s = None" "s \<noteq> INVALID_SOCKET" using G(5,6) assms(2) by auto
  have cl: "clients st = add_in s u kDefaultRoom (clients (srv \<sigma>))" by (rule client_enter_facts(2) [OF run])
  note A = registry.add_law [OF G(4) free, of u kDefaultRoom]
  have others: "{s'. s' \<noteq> s \<and> (\<exists>v. presence (clients st) s' = Some (v, kDefaultRoom))} = members ?\<Sigma> kDefaultRoom"
    using A assms(2) by (auto simp: cl members_service_of G(5))
  have "registry_ok (clients st)" using A by (simp add: cl)
  note cast = frames_broadcast [OF this, of _ kDefaultRoom _ s, unfolded others]
  have "observed (s, effs) = (s, then_to (send_to s (?hello @ h))
      (cast_to (members ?\<Sigma> kDefaultRoom) (system (u @ '' joined '' @ kDefaultRoom))))"
    by (simp add: observed_def fun_eq_iff frames h(2) cast send_to_def then_to_def system_def)
  moreover have "service_of T \<lparr>srv = st, conns = (conns \<sigma>)(s \<mapsto> InRoom u m)\<rparr> =
      ?\<Sigma>\<lparr>located := (located ?\<Sigma>)(s \<mapsto> kDefaultRoom)\<rparr>"
    using assms(2) R by (auto simp: service_of_def m fun_eq_iff kHistoryLimit_def)
  ultimately show "service_step ?\<Sigma> (observed (s, effs)) (service_of T \<lparr>srv = st, conns = (conns \<sigma>)(s \<mapsto> InRoom u m)\<rparr>)"
    using service_step.arrive [of ?\<Sigma> s u h] h(1) assms(2) by simp
  show "message_rows T (sdb st) = message_rows T (sdb (srv \<sigma>))" using R(1) by (simp add: kHistoryLimit_def)
qed

lemma leave_refines:
  assumes "server_good e T \<sigma>" and "conns \<sigma> s = Some (Leaving u m)"
    and run: "client_leave s u m (srv \<sigma>) = (st, effs)"
  shows "service_step (service_of T \<sigma>) (observed (s, effs)) (service_of T \<lparr>srv = st, conns = (conns \<sigma>)(s := None)\<rparr>)"
proof -
  note G = server_goodD [OF assms(1)]
  let ?\<Sigma> = "service_of T \<sigma>"
  note R = registry.remove_law [OF G(4), of s]
  have st: "sdb st = sdb (srv \<sigma>)" "clients st = remove_in s (clients (srv \<sigma>))"
    using client_leave_facts(1,2) [OF run] by simp_all
  have "{s'. s' \<noteq> INVALID_SOCKET \<and> (\<exists>v. presence (clients st) s' = Some (v, m))} = members ?\<Sigma> m - {s}"
    using R G(6) by (auto simp: st(2) members_service_of G(5))
  moreover have "registry_ok (clients st)" using R by (simp add: st(2))
  ultimately have cast: "frames_to s' (broadcast_to_room m f INVALID_SOCKET st) = cast_to (members ?\<Sigma> m - {s}) f s'" for s' f
    by (simp only: frames_broadcast)
  then have "observed (s, effs) = (s, cast_to (members ?\<Sigma> m - {s}) (system (u @ '' left '' @ m)))"
    using run by (auto simp: observed_def client_leave_def Let_def effect_simps system_def fun_eq_iff)
  moreover have "service_of T \<lparr>srv = st, conns = (conns \<sigma>)(s := None)\<rparr> =
      ?\<Sigma>\<lparr>connected := connected ?\<Sigma> - {s}, logged_in := (logged_in ?\<Sigma>)(s := None), located := (located ?\<Sigma>)(s := None)\<rparr>"
    by (auto simp: service_of_def st fun_eq_iff)
  ultimately show ?thesis using service_step.depart [of ?\<Sigma> s u m] assms(2) by simp
qed

section \<open>One frame\<close>

text \<open>The service after a frame of \<open>s\<close> that left the server in state \<open>st\<close> and the client in room \<open>m\<close>.\<close>

definition after_frame :: "('d \<Rightarrow> tables) \<Rightarrow> 'd sys \<Rightarrow> SOCKET \<Rightarrow> string \<Rightarrow> 'd server \<Rightarrow> service" where
  "after_frame T \<sigma> s m st = (service_of T \<sigma>)\<lparr>located := (located (service_of T \<sigma>))(s \<mapsto> m),
     passwords := accounts T (sdb st), posts := map post_of_row (message_rows T (sdb st))\<rparr>"

lemma after_frame_same:
  "conns \<sigma> s = Some (InRoom u m) \<Longrightarrow> message_rows T (sdb st) = message_rows T (sdb (srv \<sigma>)) \<Longrightarrow>
     accounts T (sdb st) = accounts T (sdb (srv \<sigma>)) \<Longrightarrow> after_frame T \<sigma> s m st = service_of T \<sigma>"
  by (auto simp: after_frame_def service_of_def fun_eq_iff)

lemma service_of_frame:
  "conns \<sigma> s = Some (InRoom u m) \<Longrightarrow>
     service_of T \<lparr>srv = st, conns = (conns \<sigma>)(s \<mapsto> (if running then InRoom u m' else Leaving u m'))\<rparr> =
       after_frame T \<sigma> s m' st"
  by (auto simp: after_frame_def service_of_def fun_eq_iff)

text \<open>A handler's answer: the deliveries are those of a step from the old to the new service.\<close>

definition answers :: "('d \<Rightarrow> tables) \<Rightarrow> 'd sys \<Rightarrow> SOCKET \<Rightarrow> string \<Rightarrow> 'd server \<Rightarrow> effect list \<Rightarrow> bool" where
  "answers T \<sigma> s m st effs \<longleftrightarrow> service_step (service_of T \<sigma>) (observed (s, effs)) (after_frame T \<sigma> s m st) \<and>
     ids_grow T (sdb st)"

lemma frames_of_reply: "observed (s, [send_system s body]) = (s, send_to s [system body])"
  by (auto simp: observed_def effect_simps send_system_def send_msg_def delivery_simps system_def)

lemma answers_reply:
  assumes "server_good e T \<sigma>" and "conns \<sigma> s = Some (InRoom u m)"
    and "message_rows T (sdb st) = message_rows T (sdb (srv \<sigma>))" and "accounts T (sdb st) = accounts T (sdb (srv \<sigma>))"
  shows "answers T \<sigma> s m st [send_system s body]" and "answers T \<sigma> s m st []"
proof -
  note A = after_frame_same [OF assms(2-4)]
  have "observed (s, []) = (s, nobody)" by (simp add: observed_def effect_simps delivery_simps)
  with A assms service_step.reply [of "service_of T \<sigma>" s u m body] service_step.idle [of "service_of T \<sigma>" s u m]
  show "answers T \<sigma> s m st [send_system s body]" "answers T \<sigma> s m st []"
    by (simp_all add: answers_def frames_of_reply server_good_def ids_grow_def)
qed

text \<open>The recipients of a broadcast to the own room, and the post that goes with it.\<close>

lemma room_cast:
  assumes "server_good e T \<sigma>" and "clients st = clients (srv \<sigma>)"
  shows "frames_to s' (broadcast_to_room m f s st) = cast_to (members (service_of T \<sigma>) m - {s}) f s'"
proof -
  note G = server_goodD [OF assms(1)]
  have "{s'. s' \<noteq> s \<and> (\<exists>v. presence (clients st) s' = Some (v, m))} = members (service_of T \<sigma>) m - {s}"
    by (auto simp: assms(2) members_service_of G(5))
  with frames_broadcast [of st s' m f s] G(4) show ?thesis by (simp add: assms(2))
qed

lemma post_stored:
  assumes "server_good e T \<sigma>" and "conns \<sigma> s = Some (InRoom u m)"
    and "add_message e p (sdb (srv \<sigma>)) = (stored, db)"
  shows "stores s complaint p (service_of T \<sigma>) (if stored then [] else [system complaint])
      (after_frame T \<sigma> s m (srv \<sigma>\<lparr>sdb := db\<rparr>))"
    and "ids_grow T db"
proof -
  note G = server_goodD [OF assms(1)]
  note S = add_message_stores [OF G(1) assms(3)]
  show "ids_grow T db" by (rule S(2) [OF G(3)])
  show "stores s complaint p (service_of T \<sigma>) (if stored then [] else [system complaint])
      (after_frame T \<sigma> s m (srv \<sigma>\<lparr>sdb := db\<rparr>))"
    using S(1,3) assms(2) by (auto simp: stores_def after_frame_def service_of_def fun_eq_iff)
qed

lemma chat_answers:
  assumes "server_good e T \<sigma>" and "conns \<sigma> s = Some (InRoom u m)"
    and run: "handle_chat e now s q u m (srv \<sigma>) = (st, effs)"
  shows "answers T \<sigma> s m st effs"
proof (cases "trim q = []")
  case True
  with run have "st = srv \<sigma>" "effs = []" by (auto simp: handle_chat_def)
  with answers_reply(2) [OF assms(1,2)] show ?thesis by simp
next
  case False
  let ?p = "\<lparr>msg_room = m, msg_username = u, msg_content = trim q, msg_timestamp = now\<rparr>"
  let ?warning = "''Failed to store the message in history.''"
  obtain stored db where a: "add_message e ?p (sdb (srv \<sigma>)) = (stored, db)" by fastforce
  with run False have st: "st = srv \<sigma>\<lparr>sdb := db\<rparr>" and
    effs: "effs = (if \<not> stored then [send_system s ?warning] else []) @
       broadcast_to_room m (encode_message ChatMsg (encode_chat_message ?p)) s st"
    by (auto simp: handle_chat_def Let_def split: if_splits)
  note P = post_stored [OF assms(1,2) a]
  have "observed (s, effs) = (s, then_to (send_to s (if stored then [] else [system ?warning]))
      (cast_to (members (service_of T \<sigma>) m - {s}) (encode_message ChatMsg (encode_chat_message ?p))))"
    using room_cast [OF assms(1), of st]
    by (simp add: observed_def fun_eq_iff effs effect_simps send_system_def send_msg_def send_to_def then_to_def st system_def)
  with service_step.say [OF _ _ refl False _ P(1) [of ?warning]] assms(2) P(2) show ?thesis by (simp add: answers_def st)
qed

lemma direct_answers:
  assumes "server_good e T \<sigma>" and "conns \<sigma> s = Some (InRoom u m)"
    and run: "handle_direct e now s q u (srv \<sigma>) = (st, effs)"
  shows "answers T \<sigma> s m st effs"
  using run
proof (cases rule: handle_direct_cases)
  case (refused reply)
  with answers_reply(1) [OF assms(1,2)] show ?thesis by simp
next
  case (sent v body stored db)
  note G = server_goodD [OF assms(1)]
  let ?s' = "find_in v (clients (srv \<sigma>))"
  let ?warning = "''Failed to store the direct message in history.''"
  let ?f = "encode_message DirectMsg (encode_direct_message \<lparr>dm_from = u, dm_to = v, dm_content = body, dm_timestamp = now\<rparr>)"
  obtain m' where there: "session_of (conns \<sigma> ?s') = Some (v, m')"
    using registry.find_user_Some [OF G(4) sent(1)] by (auto simp: G(5))
  note P = post_stored [OF assms(1,2) sent(3)]
  have "observed (s, effs) = (s, then_to (send_to s (if stored then [] else [system ?warning]))
      (then_to (send_to ?s' [?f]) (send_to s [?f])))"
    by (auto simp: observed_def sent(5) effect_simps send_system_def send_msg_def delivery_simps system_def)
  with service_step.whisper [where s' = ?s', OF _ _ _ _ sent(2) refl refl P(1) [of ?warning]] assms(2) P(2) there session_user [OF there]
  show ?thesis by (simp add: answers_def sent(4))
qed

lemma replay_answered:
  assumes "server_good e T \<sigma>" and "conns \<sigma> s = Some (InRoom u m)"
    and "replay_history e s m' n (srv \<sigma>) = (st, effs)" and "1 \<le> n" and "n \<le> 200"
    and "m' = m \<or> (\<exists>v. v \<noteq> [] \<and> m' = dm_room_key u v)"
  shows "answers T \<sigma> s m st effs"
proof -
  note G = server_goodD [OF assms(1)]
  have n: "0 \<le> n" "n < 2 ^ 31" "1 \<le> nat n" "nat n \<le> 200" using assms(4,5) by auto
  note R = replay_answers [OF G(1) assms(3) G(3) _ n(1,2)]
  obtain h where h: "history_answer (service_of T \<sigma>) m' (nat n) h" "observed (s, effs) = (s, send_to s h)"
    using R(1) [of "service_of T \<sigma>"] by (auto simp: observed_def)
  have "after_frame T \<sigma> s m st = service_of T \<sigma>"
    using R(2,3) [of "service_of T \<sigma>"] by (intro after_frame_same [OF assms(2)]) simp_all
  moreover have "ids_grow T (sdb st)" using R(2) [of "service_of T \<sigma>"] G(3) by (intro ids_grow_same [of T "sdb st"]) simp_all
  ultimately show ?thesis
    using service_step.history [OF _ _ assms(6) n(3,4) h(1)] assms(2) h(2) by (simp add: answers_def)
qed

lemma history_answers:
  assumes "server_good e T \<sigma>" and "conns \<sigma> s = Some (InRoom u m)"
    and run: "handle_history_request e s q u m (srv \<sigma>) = (st, effs)"
  shows "answers T \<sigma> s m st effs"
proof (cases "\<exists>reply. st = srv \<sigma> \<and> effs = [send_system s reply]")
  case True
  with answers_reply(1) [OF assms(1,2)] show ?thesis by auto
next
  case False
  with run obtain m' content where "replay_history e s m' (history_limit content) (srv \<sigma>) = (st, effs)"
    "m' = m \<or> (\<exists>v. v \<noteq> [] \<and> m' = dm_room_key u v)"
    by (auto simp: handle_history_request_def Let_def split: if_splits option.splits)
  with replay_answered [OF assms(1,2)] replay_limits show ?thesis by blast
qed

lemma join_answers:
  assumes "server_good e T \<sigma>" and "conns \<sigma> s = Some (InRoom u m)"
    and run: "handle_join e s q u m (srv \<sigma>) = (m', st, effs)"
  shows "answers T \<sigma> s m' st effs"
  using run
proof (cases rule: handle_join_cases)
  case (stay reply)
  with answers_reply(1) [OF assms(1,2)] show ?thesis by simp
next
  case (move replay)
  note G = server_goodD [OF assms(1)]
  let ?\<Sigma> = "service_of T \<sigma>" and ?st = "set_room s m' (srv \<sigma>)"
  have db: "ids_grow T (sdb ?st)" "posts ?\<Sigma> = map post_of_row (message_rows T (sdb ?st))" using G(3) by simp_all
  note R = replay_answers [OF G(1) move(4) db]
  obtain h where h: "history_answer ?\<Sigma> m' 50 h" "\<And>s'. frames_to s' replay = send_to s h s'"
    using R(1) by (auto simp: kHistoryLimit_def fun_eq_iff)
  note M = registry.move_law [OF G(4), of s m']
  have "{s'. s' \<noteq> s \<and> (\<exists>v. presence (clients ?st) s' = Some (v, m'))} = members ?\<Sigma> m'"
    using M assms(2) move(3) by (auto simp: server_tables members_service_of G(5))
  then have cast: "frames_to s' (broadcast_to_room m' f s ?st) = cast_to (members ?\<Sigma> m') f s'" for s' f
    using frames_broadcast [of ?st s' m' f s] M by (simp add: server_tables)
  have "observed (s, effs) = (s, then_to (cast_to (members ?\<Sigma> m - {s}) (system (u @ '' left '' @ m)))
      (then_to (cast_to (members ?\<Sigma> m') (system (u @ '' joined '' @ m'))) (send_to s (encode_message Joined m' # h))))"
    using room_cast [OF assms(1) refl, of _ m _ s] assms(2) move(3)
    by (auto simp: observed_def fun_eq_iff move(5) effect_simps cast h(2) send_msg_def send_to_def then_to_def
        system_def cast_to_def members_service_of)
  moreover have "after_frame T \<sigma> s m' st = ?\<Sigma>\<lparr>located := (located ?\<Sigma>)(s \<mapsto> m')\<rparr>"
    using R(2,3) by (simp add: after_frame_def kHistoryLimit_def)
  moreover have "ids_grow T (sdb st)" using R(2) db(1) by (intro ids_grow_same [of T "sdb st"]) (simp_all add: kHistoryLimit_def)
  ultimately show ?thesis
    using service_step.move [of ?\<Sigma> s u m m' h] assms(2) move(1,2,3) h(1) by (simp add: answers_def)
qed

lemma users_answers:
  assumes "server_good e T \<sigma>" and "conns \<sigma> s = Some (InRoom u m)"
  shows "answers T \<sigma> s m (srv \<sigma>) (handle_users s q m (srv \<sigma>))"
proof -
  note G = server_goodD [OF assms(1)]
  let ?\<Sigma> = "service_of T \<sigma>"
  define m' where "m' = (if trim q = [] then m else sanitize_room q)"
  let ?here = "filter (\<lambda>c. cl_room c = m') (clients (srv \<sigma>))"
  have d: "distinct (map cl_socket (clients (srv \<sigma>)))" using G(4) by (simp add: registry_ok_def)
  then have "distinct (map cl_socket ?here)" by (simp add: distinct_map_filter)
  moreover have who: "session_of (conns \<sigma> (cl_socket c)) = Some (cl_username c, cl_room c)" if "c \<in> set (clients (srv \<sigma>))" for c
    using presence_iff [OF d, of "cl_socket c"] that by (auto simp: G(5))
  then have "set (map cl_socket ?here) = members ?\<Sigma> m'"
    using presence_iff [OF d] by (auto simp: members_service_of G(5)) fastforce
  moreover have "map (\<lambda>s. the (logged_in ?\<Sigma> s)) (map cl_socket ?here) = users_in_room m' (srv \<sigma>)"
    using session_user [OF who] by (simp add: users_in_room_eq)
  ultimately have "service_step ?\<Sigma> (s, send_to s [encode_message UsersList (encode_user_list (users_in_room m' (srv \<sigma>)))]) ?\<Sigma>"
    using service_step.who [of ?\<Sigma> s u m m' "map cl_socket ?here"] assms(2) by (auto simp: m'_def)
  moreover have "observed (s, handle_users s q m (srv \<sigma>)) =
      (s, send_to s [encode_message UsersList (encode_user_list (users_in_room m' (srv \<sigma>)))])"
    by (auto simp: observed_def handle_users_def m'_def effect_simps send_msg_def delivery_simps)
  ultimately show ?thesis using after_frame_same [OF assms(2) refl refl] G(3) by (simp add: answers_def)
qed

lemma frame_answers:
  assumes "server_good e T \<sigma>" and "conns \<sigma> s = Some (InRoom u m)"
    and run: "handle_frame e now s u m f (srv \<sigma>) = ((m', running), st, effs)"
  shows "answers T \<sigma> s m' st effs"
proof (cases "decode_message f")
  case None
  with run answers_reply(1) [OF assms(1,2) refl refl] show ?thesis by (auto simp: handle_frame_def)
next
  case (Some tp)
  obtain t p where tp: "tp = (t, p)" by (cases tp)
  have rooms: "answers T \<sigma> s m st [send_system s answer]" if "build_room_list e (srv \<sigma>) = (answer, st)" for answer
  proof -
    obtain rs db where l: "list_rooms e 200 (sdb (srv \<sigma>)) = (rs, db)" by fastforce
    with that have "st = srv \<sigma>\<lparr>sdb := db\<rparr>" by (auto simp: build_room_list_def Let_def)
    with list_rooms_law [OF server_goodD(1) [OF assms(1)] l] show ?thesis
      by (intro answers_reply(1) [OF assms(1,2)]) simp_all
  qed
  show ?thesis
    using run Some assms(1,2) rooms unfolding handle_frame_def tp
    by (cases t) (auto intro: chat_answers direct_answers join_answers history_answers users_answers
        answers_reply(1) [OF _ _ refl refl] split: prod.splits)
qed

section \<open>The refinement\<close>

lemma server_good_step:
  assumes "server_good e T \<sigma>" and "sys_step e \<sigma> l \<sigma>'"
  shows "server_good e T \<sigma>'" and "service_step (service_of T \<sigma>) (observed l) (service_of T \<sigma>')"
proof -
  obtain s effs where l: "l = (s, effs)" by (cases l)
  note G = server_goodD [OF assms(1)]
  have "ids_grow T (sdb (srv \<sigma>')) \<and> service_step (service_of T \<sigma>) (observed (s, effs)) (service_of T \<sigma>')"
    using assms(2) unfolding l
  proof (cases rule: sys_step_cases)
    case accept
    then have "service_of T \<sigma>' = (service_of T \<sigma>)\<lparr>connected := insert s (connected (service_of T \<sigma>))\<rparr>"
      "observed (s, effs) = (s, nobody)"
      by (auto simp: service_of_def observed_def effect_simps delivery_simps)
    with accept service_step.connect [of s "service_of T \<sigma>"] G(3) show ?thesis by (auto simp: domIff)
  next
    case (auth_success rnd now input u st)
    with auth_refines(1) [OF assms(1) auth_success(1,2)] handle_auth_db(1) [OF auth_success(2) G(1)] G(3)
    show ?thesis by (simp add: ids_grow_def)
  next
    case (auth_retry rnd now input st)
    with auth_refines(2) [OF assms(1) auth_retry(1,2)] handle_auth_db(1) [OF auth_retry(2) G(1)] G(3)
    show ?thesis by (simp add: ids_grow_def)
  next
    case (auth_lost rnd now input st auth)
    with auth_refines(3) [OF assms(1) auth_lost(1,2)] handle_auth_db(1) [OF auth_lost(2) G(1)] G(3)
    show ?thesis by (simp add: ids_grow_def)
  next
    case (enter u m st)
    with enter_refines [OF assms(1) enter(1,2)] G(3) show ?thesis by (simp add: ids_grow_def)
  next
    case (frame u m now f m' running st)
    with frame_answers [OF assms(1) frame(1,2)] service_of_frame [OF frame(1), of T st running m']
    show ?thesis by (simp add: answers_def)
  next
    case (lost u m)
    then have "service_of T \<sigma>' = service_of T \<sigma>" "observed (s, effs) = (s, nobody)"
      by (auto simp: service_of_def observed_def effect_simps delivery_simps)
    with lost service_step.idle [of "service_of T \<sigma>" s u m] G(3) show ?thesis by simp
  next
    case (leave u m st)
    with leave_refines [OF assms(1) leave(1,2)] client_leave_facts(2) [OF leave(2)] G(3) show ?thesis by simp
  qed
  with sys_ok_step [OF assms(2) [unfolded l] G(2,1)] G(1)
  show "server_good e T \<sigma>'" "service_step (service_of T \<sigma>) (observed l) (service_of T \<sigma>')"
    by (simp_all add: server_good_def l)
qed

interpretation server: refinement "sys_step e" "server_good e T" service_step "service_of T" observed
  for e :: "'d sqlite" and T :: "'d \<Rightarrow> tables"
proof unfold_locales
  fix \<sigma> l \<sigma>'
  assume "server_good e T \<sigma>" "sys_step e \<sigma> l \<sigma>'"
  from server_good_step [OF this] show "server_good e T \<sigma>'"
    "service_step (service_of T \<sigma>) (observed l) (service_of T \<sigma>')" by blast+
qed

lemma reachable_runs: "reachable e \<sigma>\<^sub>0 \<sigma> \<Longrightarrow> \<exists>ls. runs (sys_step e) \<sigma>\<^sub>0 ls \<sigma>"
proof (induction rule: reachable.induct)
  case (step \<sigma> l \<sigma>')
  then show ?case by (meson runs.more)
qed (meson runs.none)

definition service_init :: "(string \<rightharpoonup> string) \<Rightarrow> ChatMessage list \<Rightarrow> service" where
  "service_init pw ps = \<lparr>connected = {}, logged_in = Map.empty, located = Map.empty, passwords = pw, posts = ps\<rparr>"

lemma service_of_init: "service_of T (sys_init db) = service_init (accounts T db) (map post_of_row (message_rows T db))"
  by (simp add: service_of_def service_init_def sys_init_def fun_eq_iff)

lemma server_good_init: "sqlite_documented e T \<Longrightarrow> ids_grow T db \<Longrightarrow> server_good e T (sys_init db)"
  by (simp add: server_good_def sys_ok_init) (simp add: sys_init_def)

text \<open>C2 (service). Every run of the server, with any number of clients, any requests, any schedule of its
  handlers and an engine that may fail within its documentation, is a run of the abstract chat
  service with the same deliveries: at every step each connection is sent exactly the frames the
  service sends it, in the same order.\<close>

theorem server_refines_service:
  assumes "sqlite_documented e T" and "sorted_wrt (<) (map m_id (message_rows T db))"
    and "runs (sys_step e) (sys_init db) ls \<sigma>"
  shows "runs service_step (service_init (accounts T db) (map post_of_row (message_rows T db)))
    (map observed ls) (service_of T \<sigma>)"
  using server.runs_refined [OF assms(3) server_good_init [OF assms(1)]] assms(2)
  by (simp add: service_of_init ids_grow_def)

lemma server_refines_service_witness:
  "\<exists>ls \<Sigma>. runs service_step (service_init Map.empty []) ls \<Sigma> \<and> ls \<noteq> [] \<and>
     located \<Sigma> 5 = Some kDefaultRoom \<and> logged_in \<Sigma> 6 = Some ''bob'' \<and> posts \<Sigma> = []"
proof -
  obtain \<sigma> where r: "reachable table_engine (sys_init demo_db) \<sigma>"
    and c: "conns \<sigma> 5 = Some (InRoom ''alice'' kDefaultRoom)" "conns \<sigma> 6 = Some (InRoom ''bob'' kDefaultRoom)"
      "message_rows (\<lambda>d. d) (sdb (srv \<sigma>)) = []"
    using demo_run by blast
  obtain ls where l: "runs (sys_step table_engine) (sys_init demo_db) ls \<sigma>" using reachable_runs [OF r] by blast
  have "ls \<noteq> []" using l c(1) by (auto simp: sys_init_def)
  have d: "message_rows (\<lambda>d. d) demo_db = []" "accounts (\<lambda>d. d) demo_db = Map.empty"
    by (simp_all add: message_rows_def accounts_def contents_def demo_db_def empty_tables_def)
  from server_refines_service [OF table_engine_documented _ l] d
  have "runs service_step (service_init Map.empty []) (map observed ls) (service_of (\<lambda>d. d) \<sigma>)" by simp
  with c \<open>ls \<noteq> []\<close> show ?thesis by (intro exI [of _ "map observed ls"] exI [of _ "service_of (\<lambda>d. d) \<sigma>"]) simp
qed

lemma server_service_ok:
  assumes "sqlite_documented e T" and "ids_grow T db" and "runs (sys_step e) (sys_init db) ls \<sigma>"
  shows "service_ok (service_of T \<sigma>)"
  using assms(3) server_good_init [OF assms(1,2)]
proof (rule server.invariant_transfer)
  show "service_ok (service_of T (sys_init db))"
    by (simp add: service_of_init service_init_def service_ok_def)
qed (rule service_ok_step)



end
