(* ===== verification/Network_Service.thy ===== *)
theory Network_Service
  imports Network Service_Refinement
begin

text \<open>
  The whole system of \<open>Network\<close>, server and clients, as the chat service with a mailbox for every
  connection: a step of the service puts its deliveries into the mailboxes, a client takes the next
  frame out of its own, and nothing else touches either.
\<close>

section \<open>The service with mailboxes\<close>

type_synonym postal = "service \<times> (SOCKET \<Rightarrow> string list)"

inductive mail_step :: "postal \<Rightarrow> unit \<Rightarrow> postal \<Rightarrow> bool" where
  serve: "s \<in> connected \<Sigma> \<Longrightarrow> service_step \<Sigma> (s, d) \<Sigma>' \<Longrightarrow>
    mail_step (\<Sigma>, box) () (\<Sigma>', \<lambda>s'. box s' @ filter sendable (d s'))"
| join: "s \<notin> connected \<Sigma> \<Longrightarrow> s \<noteq> INVALID_SOCKET \<Longrightarrow>
    mail_step (\<Sigma>, box) () (\<Sigma>\<lparr>connected := insert s (connected \<Sigma>)\<rparr>, box(s := []))"
| fetch: "box s = f # rest \<Longrightarrow> mail_step (\<Sigma>, box) () (\<Sigma>, box(s := rest))"
| local: "mail_step (\<Sigma>, box) () (\<Sigma>, box)"

definition postal_of :: "('d \<Rightarrow> tables) \<Rightarrow> 'd world \<Rightarrow> postal" where
  "postal_of T W = (service_of T (server_side W), down W)"

lemma deliver_observed:
  "sys_step e (server_side W) (s, effs) \<sigma>' \<Longrightarrow> server_good e T (server_side W) \<Longrightarrow> conns (server_side W) s \<noteq> None \<Longrightarrow>
     mail_step (postal_of T W) () (service_of T \<sigma>', deliver effs (down W))"
  using mail_step.serve [OF _ server.simulates [of e T "server_side W" "(s, effs)" \<sigma>', unfolded observed_def fst_conv snd_conv]]
  by (simp add: postal_of_def deliver_def domIff)

lemma world_simulates:
  assumes good: "server_good e T (server_side W)" and "wstep e color fmt W W'"
  shows "mail_step (postal_of T W) () (postal_of T W')"
  using assms(2)
proof cases
  case (connect s)
  then have "service_of T (server_side W') = (service_of T (server_side W))\<lparr>connected := insert s (connected (service_of T (server_side W)))\<rparr>"
    by (auto simp: service_of_def)
  with connect mail_step.join [of s "service_of T (server_side W)" "down W"] show ?thesis
    by (auto simp: postal_of_def domIff)
next
  case (login s f rest rnd now u st effs)
  from deliver_observed [OF sys_step.auth_success [OF login(2,4)] good] login(1,2) show ?thesis by (simp add: postal_of_def)
next
  case (retry s f rest rnd now st effs)
  from deliver_observed [OF sys_step.auth_retry [OF retry(2,4)] good] retry(1,2) show ?thesis by (simp add: postal_of_def)
next
  case (gone s rnd now st effs)
  have "deliver (effs @ [CloseSocket s]) (down W) = deliver effs (down W)" by (simp add: deliver_def effect_simps)
  with deliver_observed [OF sys_step.auth_lost [OF gone(2,3)] good] gone(1,2) show ?thesis by (simp add: postal_of_def)
next
  case (enter s u m st effs)
  from deliver_observed [OF sys_step.enter [OF enter(2,3)] good] enter(1,2) show ?thesis by (simp add: postal_of_def)
next
  case (serve s u m f rest now m' running st effs)
  from deliver_observed [OF sys_step.frame [OF serve(2,4)] good] serve(1,2) show ?thesis by (simp add: postal_of_def)
next
  case (lost s u m)
  have "deliver [] (down W) = down W" by (simp add: deliver_def effect_simps)
  with deliver_observed [OF sys_step.lost [OF lost(2)] good] lost(1,2) show ?thesis by (simp add: postal_of_def)
next
  case (leave s u m st effs)
  from deliver_observed [OF sys_step.leave [OF leave(2,3)] good] leave(1,2) show ?thesis by (simp add: postal_of_def)
next
  case (show_frame s f rest c out)
  with mail_step.fetch [of "down W" s f rest] show ?thesis by (simp add: postal_of_def)
qed (auto simp: postal_of_def intro: mail_step.local)

lemma world_good:
  assumes "server_good e T (server_side W)" and "wstep e color fmt W W'"
  shows "server_good e T (server_side W')"
  using wstep_server [OF assms(2)] server_good_step(1) [OF assms(1)] assms(1) by auto

interpretation world: refinement "\<lambda>W (_::unit) W'. wstep e color fmt W W'" "\<lambda>W. server_good e T (server_side W)"
  mail_step "postal_of T" "\<lambda>_::unit. ()"
  for e :: "'d sqlite" and T :: "'d \<Rightarrow> tables" and color fmt
proof unfold_locales
  fix W W' :: "'d world" and l :: unit
  assume g: "server_good e T (server_side W)" and w: "wstep e color fmt W W'"
  show "server_good e T (server_side W')" by (rule world_good [OF g w])
  show "mail_step (postal_of T W) () (postal_of T W')" by (rule world_simulates [OF g w])
qed



section \<open>What is in the mailboxes\<close>







end
