(* ===== verification/Protocol_Tests.thy ===== *)
theory Protocol_Tests
  imports Framing Cpp_String
begin

text \<open>
  tests/protocol_tests.cpp, run on the model: each test function is a truth value, the conjunction
  of its assertions over the states the test goes through. Source text outside ASCII is UTF-8.
\<close>

definition make_frame :: "string \<Rightarrow> u8 list" where
  "make_frame payload = be_split kFrameHeaderSize (of_nat (length payload) :: u32) @ map u8_of_char payload"

definition test_framing :: bool where
  "test_framing =
     (let first_frame = make_frame ''first message'';
          pending = take 3 first_frame
      in case extract_frames pending [] of (ok, pending, frames) \<Rightarrow>
         ok \<and> frames = [] \<and>
         (case extract_frames (pending @ drop 3 first_frame) frames of (ok, pending, frames) \<Rightarrow>
          ok \<and> length frames = 1 \<and> frames ! 0 = ''first message'' \<and> pending = [] \<and>
          (let second_frame = make_frame ''second message'';
               pending = (pending @ first_frame) @ second_frame
           in case extract_frames pending [] of (ok, pending, frames) \<Rightarrow>
              ok \<and> length frames = 2 \<and> frames ! 0 = ''first message'' \<and> frames ! 1 = ''second message'' \<and>
              pending = [] \<and>
              (let pending = be_split kFrameHeaderSize (of_nat (kMaxFramePayloadSize + 1) :: u32)
               in \<not> fst (extract_frames pending [])))))"

definition test_typed_messages :: bool where
  "test_typed_messages =
     (decode_message (encode_message Login '''') = Some (Login, '''') \<and>
      (let auth_payload = ''alice\<newline>s3cret''
       in decode_message (encode_message Register auth_payload) = Some (Register, auth_payload)) \<and>
      decode_message '''' = None)"

text \<open>\<^verbatim>\<open>hello\nworld - unicode\<close> with a dash, two umlauts and a check mark.\<close>

definition utf8_content :: string where
  "utf8_content = ''hello\<newline>world '' @ [CHR 0xE2, CHR 0x80, CHR 0x94] @ '' '' @ [CHR 0xC3, CHR 0xBC] @ ''n'' @
     [CHR 0xC3, CHR 0xAF] @ ''code '' @ [CHR 0xE2, CHR 0x9C, CHR 0x93]"

definition test_chat_message_binary :: bool where
  "test_chat_message_binary =
     (let original = \<lparr>msg_room = ''general'', msg_username = ''bob'', msg_content = utf8_content, msg_timestamp = 1700000000\<rparr>;
          encoded = encode_chat_message original
      in (case decode_chat_message encoded of
            None \<Rightarrow> False
          | Some decoded \<Rightarrow> msg_room decoded = msg_room original \<and> msg_username decoded = msg_username original \<and>
              msg_timestamp decoded = msg_timestamp original \<and> msg_content decoded = msg_content original) \<and>
         decode_chat_message (substr encoded 0 (length encoded div 2)) = None \<and>
         decode_chat_message '''' = None)"

definition test_history_binary :: bool where
  "test_history_binary =
     (let originals =
            [\<lparr>msg_room = ''general'', msg_username = ''alice'', msg_content = ''one'', msg_timestamp = 1700000001\<rparr>,
             \<lparr>msg_room = ''dev'', msg_username = ''carol'', msg_content = ''line1\<newline>line2\<newline>line3'', msg_timestamp = 1700000002\<rparr>];
          encoded = encode_history originals
      in (case decode_history encoded of
            None \<Rightarrow> False
          | Some decoded \<Rightarrow> length decoded = 2 \<and>
              msg_room (decoded ! 0) = ''general'' \<and> msg_username (decoded ! 0) = ''alice'' \<and>
              msg_content (decoded ! 0) = ''one'' \<and>
              msg_room (decoded ! 1) = ''dev'' \<and> msg_username (decoded ! 1) = ''carol'' \<and>
              msg_content (decoded ! 1) = ''line1\<newline>line2\<newline>line3'' \<and> msg_timestamp (decoded ! 1) = 1700000002) \<and>
         decode_history (encode_history []) = Some [] \<and>
         decode_history (substr encoded 0 (length encoded - 1)) = None \<and>
         decode_history '''' = None)"

definition test_direct_message_binary :: bool where
  "test_direct_message_binary =
     (let original = \<lparr>dm_from = ''alice'', dm_to = ''bob'',
            dm_content = ''hey '' @ [CHR 0xE2, CHR 0x80, CHR 0x94] @ '' '' @ [CHR 0xC3, CHR 0xBC] @ ''n'' @
              [CHR 0xC3, CHR 0xAF] @ ''code '' @ [CHR 0xE2, CHR 0x9C, CHR 0x93] @ ''\<newline>second line'',
            dm_timestamp = 1700000003\<rparr>;
          encoded = encode_direct_message original
      in (case decode_direct_message encoded of
            None \<Rightarrow> False
          | Some decoded \<Rightarrow> dm_from decoded = dm_from original \<and> dm_to decoded = dm_to original \<and>
              dm_timestamp decoded = dm_timestamp original \<and> dm_content decoded = dm_content original) \<and>
         decode_direct_message (substr encoded 0 (length encoded div 2)) = None \<and>
         decode_direct_message '''' = None)"

definition test_user_list_binary :: bool where
  "test_user_list_binary =
     (let names = [''alice'', ''bob'', ''carol''];
          encoded = encode_user_list names
      in decode_user_list encoded = Some names \<and>
         decode_user_list (encode_user_list []) = Some [] \<and>
         decode_user_list (substr encoded 0 (length encoded - 1)) = None)"

section \<open>They pass\<close>

lemma make_frame_wire: "make_frame p = wire_bytes [p]"
  by (simp add: make_frame_def frame_bytes_def length_header_def kFrameHeaderSize_def comp_def)

lemma extract_wire:
  "list_all (\<lambda>p. length p \<le> kMaxFramePayloadSize) ps \<Longrightarrow> extract_frames (wire_bytes ps) fs = (True, [], fs @ ps)"
  using split_frames_wire [of ps "[]"] by (simp add: extract_frames_eq split_frames_short)

lemma framing_passes: "test_framing"
proof -
  let ?first = "make_frame ''first message''" and ?second = "make_frame ''second message''"
  have l: "kFrameHeaderSize \<le> length ?first" by (simp add: make_frame_def kFrameHeaderSize_def)
  have 1: "extract_frames (take 3 ?first) [] = (True, take 3 ?first, [])"
    by (simp add: extract_frames_eq split_frames_short)
  have 2: "extract_frames (take 3 ?first @ drop 3 ?first) [] = (True, [], [''first message''])"
    using extract_wire [of "[''first message'']"] by (simp add: make_frame_wire kMaxFramePayloadSize_def)
  have 3: "extract_frames (([] @ ?first) @ ?second) [] = (True, [], [''first message'', ''second message''])"
    using extract_wire [of "[''first message'', ''second message'']"] by (simp add: make_frame_wire kMaxFramePayloadSize_def)
  let ?big = "be_split kFrameHeaderSize (of_nat (kMaxFramePayloadSize + 1) :: u32)"
  have "unat (be_join ?big :: u32) = kMaxFramePayloadSize + 1"
    by (simp add: be_join_split kFrameHeaderSize_def kMaxFramePayloadSize_def)
  then have 4: "\<not> fst (extract_frames ?big [])"
    by (simp add: extract_frames_eq split_frames_oversized kFrameHeaderSize_def)
  show ?thesis unfolding test_framing_def Let_def 1 2 3 prod.case using 4 by simp
qed

lemma typed_messages_pass: "test_typed_messages"
  by (simp add: test_typed_messages_def decode_message_encode msg_types_def decode_message_None_iff)

lemma substr_0 [simp]: "substr s 0 n = take n s"
  by (simp add: substr_def)

text \<open>A round trip and a truncation, for any of the codecs.\<close>

lemma chat_message_passes: "test_chat_message_binary"
proof -
  let ?m = "\<lparr>msg_room = ''general'', msg_username = ''bob'', msg_content = utf8_content, msg_timestamp = 1700000000\<rparr>"
  have ok: "fits_chat_message ?m" by (simp add: fits_chat_message_def utf8_content_def)
  have n: "0 < length (encode_chat_message ?m)" by (simp add: encode_chat_message_eq name_field_def be_bytes_def)
  show ?thesis
    using chat_codec.decode_enc [OF ok, of "[]"] chat_codec.decode_truncated [OF ok, of "length (encode_chat_message ?m) div 2"]
      chat_codec.decode_truncated [OF ok, of 0] n
    by (simp add: test_chat_message_binary_def)
qed

lemma direct_message_passes: "test_direct_message_binary"
proof -
  let ?m = "\<lparr>dm_from = ''alice'', dm_to = ''bob'',
    dm_content = ''hey '' @ [CHR 0xE2, CHR 0x80, CHR 0x94] @ '' '' @ [CHR 0xC3, CHR 0xBC] @ ''n'' @
      [CHR 0xC3, CHR 0xAF] @ ''code '' @ [CHR 0xE2, CHR 0x9C, CHR 0x93] @ ''\<newline>second line'', dm_timestamp = 1700000003\<rparr>"
  have ok: "fits_direct_message ?m" by (simp add: fits_direct_message_def)
  have n: "0 < length (encode_direct_message ?m)" by (simp add: encode_direct_message_def append_u16_def)
  show ?thesis
    using direct_codec.decode_enc [OF ok, of "[]"] direct_codec.decode_truncated [OF ok, of "length (encode_direct_message ?m) div 2"]
      direct_codec.decode_truncated [OF ok, of 0] n
    by (simp add: test_direct_message_binary_def)
qed

lemma history_passes: "test_history_binary"
proof -
  let ?ms = "[\<lparr>msg_room = ''general'', msg_username = ''alice'', msg_content = ''one'', msg_timestamp = 1700000001\<rparr>,
    \<lparr>msg_room = ''dev'', msg_username = ''carol'', msg_content = ''line1\<newline>line2\<newline>line3'', msg_timestamp = 1700000002\<rparr>]"
  have ok: "length ?ms < 65536 \<and> list_all fits_chat_message ?ms" "length [] < 65536 \<and> list_all fits_chat_message []"
    by (simp_all add: fits_chat_message_def)
  have n: "0 < length (encode_history ms)" for ms by (simp add: encode_history_eq count_field_def be_bytes_def)
  show ?thesis
    using history_codec.as_list.decode_enc [OF ok(1), of "[]"] history_codec.as_list.decode_enc [OF ok(2), of "[]"]
      history_codec.as_list.decode_truncated [OF ok(1), of "length (encode_history ?ms) - 1"]
      history_codec.as_list.decode_truncated [OF ok(1), of 0] n [of ?ms]
    by (simp add: test_history_binary_def)
qed

lemma user_list_passes: "test_user_list_binary"
proof -
  let ?us = "[''alice'', ''bob'', ''carol'']"
  have ok: "length ?us < 65536 \<and> list_all fits_name ?us" "length [] < 65536 \<and> list_all fits_name []"
    by (simp_all add: fits_name_def)
  have n: "0 < length (encode_user_list us)" for us by (simp add: encode_user_list_eq count_field_def be_bytes_def)
  show ?thesis
    using users_codec.as_list.decode_enc [OF ok(1), of "[]"] users_codec.as_list.decode_enc [OF ok(2), of "[]"]
      users_codec.as_list.decode_truncated [OF ok(1), of "length (encode_user_list ?us) - 1"] n [of ?us]
    by (simp add: test_user_list_binary_def)
qed

end
