(* ===== verification/Database_Tests.thy ===== *)
theory Database_Tests
  imports Store_Properties
begin

text \<open>
  tests/database_tests.cpp, run on the model over an engine that does not fail. The first block: a
  new database, accounts, messages, history, rooms and direct messages. The second block: a file
  opened once more while its first connection is open. \<open>rnd i\<close> are the random bytes of the i-th
  registration of a block, and \<open>reopen db\<close> is what \<^verbatim>\<open>sqlite3_open\<close> gives a second connection, which
  depends on what the first has written.
\<close>

definition chat :: "string \<Rightarrow> string \<Rightarrow> string \<Rightarrow> i64 \<Rightarrow> ChatMessage" where
  "chat room user content t = \<lparr>msg_room = room, msg_username = user, msg_content = content, msg_timestamp = t\<rparr>"

definition test_accounts ::
    "'d sqlite \<Rightarrow> (nat \<Rightarrow> nat \<Rightarrow> u32) \<Rightarrow> i64 \<Rightarrow> 'd ChatDatabase \<Rightarrow> bool \<times> 'd ChatDatabase" where
  "test_accounts e rnd now db =
     (let (alice, db) = register_user e (rnd 0) now ''alice'' ''password123'' db;
          (bob, db) = register_user e (rnd 1) now ''bob'' ''secret1'' db;
          (again, db) = register_user e (rnd 2) now ''alice'' ''other123'' db;
          (wrong, db) = authenticate_user e ''alice'' ''wrongpass'' db;
          (right, db) = authenticate_user e ''alice'' ''password123'' db;
          (right', db) = authenticate_user e ''bob'' ''secret1'' db;
          (absent, db) = authenticate_user e ''nobody'' ''password123'' db
      in (alice = None \<and> bob = None \<and>
          (case again of None \<Rightarrow> False | Some error \<Rightarrow> sublist ''taken'' error) \<and>
          wrong \<noteq> None \<and> right = None \<and> right' = None \<and> absent \<noteq> None, db))"

definition test_messages :: "'d sqlite \<Rightarrow> 'd ChatDatabase \<Rightarrow> bool" where
  "test_messages e db =
     (let (ok1, db) = add_message e (chat ''general'' ''alice'' ''hello room'' 1000) db;
          (ok2, db) = add_message e (chat ''general'' ''bob'' ''hi alice'' 1001) db;
          (ok3, db) = add_message e (chat ''dev'' ''bob'' (''let'' @ [CHR 0x27] @ ''s build'') 1002) db;
          (history, db) = get_recent_messages e ''general'' 50 db;
          (newest, db) = get_recent_messages e ''general'' 1 db;
          (rooms, db) = list_rooms e 100 db;
          (ok4, db) = add_message e (chat ''dm:alice:bob'' ''alice'' ''hey bob, private note'' 2000) db;
          (ok5, db) = add_message e (chat ''dm:alice:bob'' ''bob'' ''got it, thanks'' 2001) db;
          (dm_history, db) = get_recent_messages e ''dm:alice:bob'' 50 db;
          (general_history, db) = get_recent_messages e ''general'' 50 db
      in ok1 \<and> ok2 \<and> ok3 \<and>
         length history = 2 \<and> msg_content (history ! 0) = ''hello room'' \<and> msg_content (history ! 1) = ''hi alice'' \<and>
         msg_room (history ! 0) = ''general'' \<and> msg_username (history ! 0) = ''alice'' \<and>
         length newest = 1 \<and> msg_content (newest ! 0) = ''hi alice'' \<and>
         length rooms = 2 \<and> rooms ! 0 = ''dev'' \<and> rooms ! 1 = ''general'' \<and>
         ok4 \<and> ok5 \<and> length dm_history = 2 \<and>
         msg_username (dm_history ! 0) = ''alice'' \<and> msg_content (dm_history ! 0) = ''hey bob, private note'' \<and>
         msg_username (dm_history ! 1) = ''bob'' \<and> msg_content (dm_history ! 1) = ''got it, thanks'' \<and>
         length general_history = 2)"

definition database_tests :: "'d sqlite \<Rightarrow> (nat \<Rightarrow> nat \<Rightarrow> u32) \<Rightarrow> i64 \<Rightarrow> string \<Rightarrow> bool" where
  "database_tests e rnd now path =
     (let (opened, db) = db_open e (ChatDatabase_new path);
          (accounts_ok, db) = test_accounts e rnd now db
      in opened \<and> accounts_ok \<and> test_messages e db)"

definition test_reopening ::
    "'d sqlite \<Rightarrow> ('d ChatDatabase \<Rightarrow> string \<Rightarrow> int \<times> 'd) \<Rightarrow> (nat \<Rightarrow> nat \<Rightarrow> u32) \<Rightarrow> i64 \<Rightarrow> string \<Rightarrow> bool" where
  "test_reopening e reopen rnd now path =
     (let (opened, db) = db_open e (ChatDatabase_new path);
          (carol, db) = register_user e (rnd 0) now ''carol'' ''persist1'' db;
          (opened', reopened) = db_open (e\<lparr>sqlite3_open := reopen db\<rparr>) (ChatDatabase_new path);
          (again, reopened) = register_user e (rnd 1) now ''carol'' ''persist1'' reopened;
          (right, reopened) = authenticate_user e ''carol'' ''persist1'' reopened;
          (wrong, reopened) = authenticate_user e ''carol'' ''wrong'' reopened
      in opened \<and> carol = None \<and> opened' \<and> again \<noteq> None \<and> right = None \<and> wrong \<noteq> None)"

section \<open>Accounts\<close>

text \<open>One call each, with what the rest of the test needs of the new state.\<close>

definition same_store :: "('d \<Rightarrow> tables) \<Rightarrow> 'd ChatDatabase \<Rightarrow> 'd ChatDatabase \<Rightarrow> bool" where
  "same_store T db db' \<longleftrightarrow> is_open db' \<and> message_rows T db' = message_rows T db \<and> accounts T db' = accounts T db"

lemma register_new:
  assumes "sqlite_reliable e T" and "is_open db" and "accounts T db (c_str u) = None"
  obtains db' where "register_user e rnd now u p db = (None, db')" "is_open db'"
    "message_rows T db' = message_rows T db"
    "accounts T db' = (accounts T db)(c_str u \<mapsto> hash_password (generate_salt rnd) p)"
proof -
  obtain err db' where r: "register_user e rnd now u p db = (err, db')" by fastforce
  with register_user_reliable [OF assms(1,2) r] register_user_law [OF sqlite_reliable_documented [OF assms(1)] r] assms(3)
  show thesis by (intro that [of db']) auto
qed

lemma register_known:
  assumes "sqlite_reliable e T" and "is_open db" and "accounts T db (c_str u) = Some h"
  obtains db' where "register_user e rnd now u p db = (Some ''username is already taken'', db')" "same_store T db db'"
proof -
  obtain err db' where r: "register_user e rnd now u p db = (err, db')" by fastforce
  with register_user_reliable [OF assms(1,2) r] register_user_law [OF sqlite_reliable_documented [OF assms(1)] r] assms(3)
  show thesis by (intro that [of db']) (auto simp: same_store_def)
qed

lemma authenticate_same:
  assumes "sqlite_reliable e T" and "is_open db"
  obtains db' where "authenticate_user e u p db = (fst (authenticate_user e u p db), db')" "same_store T db db'"
proof -
  obtain err db' where a: "authenticate_user e u p db = (err, db')" by fastforce
  then have "is_open db'" using assms(2)
    by (auto simp: authenticate_user_def is_open_def Let_def split: option.splits prod.splits if_splits list.splits)
  with a store.authenticate_law [OF sqlite_reliable_documented [OF assms(1)] a]
  show thesis by (intro that [of db']) (auto simp: same_store_def)
qed

lemma login_known:
  assumes "sqlite_reliable e T" and "is_open db"
    and "accounts T db (c_str u) = Some (hash_password (generate_salt r) q)"
  obtains db' where "authenticate_user e u p db =
      (if sha256_hex (generate_salt r @ q) = sha256_hex (generate_salt r @ p) then None
       else Some ''invalid username or password'', db')" "same_store T db db'"
proof -
  have "find_char (hash_password (generate_salt r) q) (CHR ''$'') \<noteq> None"
    by (simp add: find_char_None_iff hash_password_def)
  then have v: "fst (authenticate_user e u p db) =
      (if sha256_hex (generate_salt r @ q) = sha256_hex (generate_salt r @ p) then None
       else Some ''invalid username or password'')"
    using authenticate_user_reliable [OF assms(1,2), of u p] assms(3)
      password_matches_hash [OF generate_salt_no_special(1), of r q p] by simp
  obtain db' where a: "authenticate_user e u p db = (fst (authenticate_user e u p db), db')" "same_store T db db'"
    by (rule authenticate_same [OF assms(1,2)])
  show thesis by (rule that [OF a(1) [unfolded v] a(2)])
qed

lemma login_unknown:
  assumes "sqlite_reliable e T" and "is_open db" and "accounts T db (c_str u) = None"
  obtains db' where "authenticate_user e u p db = (Some ''invalid username or password'', db')" "same_store T db db'"
proof -
  have v: "fst (authenticate_user e u p db) = Some ''invalid username or password''"
    using authenticate_user_reliable [OF assms(1,2), of u p] assms(3) by simp
  obtain db' where a: "authenticate_user e u p db = (fst (authenticate_user e u p db), db')" "same_store T db db'"
    by (rule authenticate_same [OF assms(1,2)])
  show thesis by (rule that [OF a(1) [unfolded v] a(2)])
qed

lemma test_accounts_outcome:
  assumes rel: "sqlite_reliable e T" and op: "is_open db" and none: "accounts T db = Map.empty"
  obtains db' where "test_accounts e rnd now db =
      (sha256_hex (generate_salt (rnd 0) @ ''password123'') \<noteq> sha256_hex (generate_salt (rnd 0) @ ''wrongpass''), db')"
    "is_open db'" "message_rows T db' = message_rows T db"
proof -
  have c: "c_str ''alice'' = ''alice''" "c_str ''bob'' = ''bob''" "c_str ''nobody'' = ''nobody''" by code_simp+
  let ?ha = "hash_password (generate_salt (rnd 0)) ''password123''" and ?hb = "hash_password (generate_salt (rnd 1)) ''secret1''"
  let ?acc = "[''alice'' \<mapsto> ?ha, ''bob'' \<mapsto> ?hb]"
  obtain db1 where 1: "register_user e (rnd 0) now ''alice'' ''password123'' db = (None, db1)" "is_open db1"
      "message_rows T db1 = message_rows T db" "accounts T db1 = [''alice'' \<mapsto> ?ha]"
    using register_new [OF rel op, of "''alice''" "rnd 0" now "''password123''"] none c by auto
  obtain db2 where 2: "register_user e (rnd 1) now ''bob'' ''secret1'' db1 = (None, db2)" "is_open db2"
      "message_rows T db2 = message_rows T db" "accounts T db2 = ?acc"
    using register_new [OF rel 1(2), of "''bob''" "rnd 1" now "''secret1''"] 1(3,4) c by auto
  obtain db3 where 3: "register_user e (rnd 2) now ''alice'' ''other123'' db2 = (Some ''username is already taken'', db3)"
      "same_store T db2 db3"
    by (rule register_known [OF rel 2(2), of "''alice''" ?ha]) (simp_all add: 2(4) c)
  note s3 = 3(2) [unfolded same_store_def 2(3,4)]
  obtain db4 where 4: "authenticate_user e ''alice'' ''wrongpass'' db3 =
      (if sha256_hex (generate_salt (rnd 0) @ ''password123'') = sha256_hex (generate_salt (rnd 0) @ ''wrongpass'')
       then None else Some ''invalid username or password'', db4)" "same_store T db3 db4"
    by (rule login_known [OF rel, of db3 "''alice''" "rnd 0" "''password123''"]) (use s3 c in simp_all)
  obtain db5 where 5: "authenticate_user e ''alice'' ''password123'' db4 = (None, db5)" "same_store T db4 db5"
    by (rule login_known [OF rel, of db4 "''alice''" "rnd 0" "''password123''" "''password123''"])
      (use s3 4(2) c in \<open>simp_all add: same_store_def\<close>)
  obtain db6 where 6: "authenticate_user e ''bob'' ''secret1'' db5 = (None, db6)" "same_store T db5 db6"
    by (rule login_known [OF rel, of db5 "''bob''" "rnd 1" "''secret1''" "''secret1''"])
      (use s3 4(2) 5(2) c in \<open>simp_all add: same_store_def\<close>)
  obtain db7 where 7: "authenticate_user e ''nobody'' ''password123'' db6 = (Some ''invalid username or password'', db7)"
      "same_store T db6 db7"
    by (rule login_unknown [OF rel, of db6 "''nobody''" "''password123''"])
      (use s3 4(2) 5(2) 6(2) c in \<open>simp_all add: same_store_def\<close>)
  have "sublist ''taken'' ''username is already taken''" by code_simp
  then have "test_accounts e rnd now db =
      (sha256_hex (generate_salt (rnd 0) @ ''password123'') \<noteq> sha256_hex (generate_salt (rnd 0) @ ''wrongpass''), db7)"
    unfolding test_accounts_def Let_def 1(1) 2(1) 3(1) 4(1) 5(1) 6(1) 7(1) prod.case by simp
  moreover have "is_open db7" "message_rows T db7 = message_rows T db"
    using s3 4(2) 5(2) 6(2) 7(2) by (simp_all add: same_store_def)
  ultimately show thesis by (rule that)
qed

section \<open>Messages\<close>

lemma add_reliable:
  assumes "sqlite_reliable e T" and "is_open db"
  obtains db' where "add_message e p db = (True, db')" "is_open db'"
    "message_rows T db' = message_rows T db @ [\<lparr>m_id = next_id (map m_id (message_rows T db)), m_room = c_str (msg_room p),
         m_user = c_str (msg_username p), m_content = c_str (msg_content p), m_sent = msg_timestamp p\<rparr>]"
proof -
  obtain d where d: "cd_db db = Some d" using assms(2) by (auto simp: is_open_def)
  obtain rows rc d' where st: "sqlite3_steps e d sql_insert_message
      [SqlText (c_str (msg_room p)), SqlText (c_str (msg_username p)), SqlText (c_str (msg_content p)),
       SqlInt (msg_timestamp p)] = (rows, rc, d')" using prod_cases3 by blast
  have "rc = SQLITE_DONE" using reliable_done [OF assms(1) st] by simp
  moreover have "rows = []" using insert_messageD [OF sqlite_reliable_documented [OF assms(1)] st] by blast
  ultimately have a: "add_message e p db = (True, db\<lparr>cd_db := Some d'\<rparr>)"
    using d st reliable_prepare [OF assms(1)] by (simp add: add_message_def first_step_rc_def sqlite_codes)
  with add_message_row [OF sqlite_reliable_documented [OF assms(1)] a] that show thesis by (simp add: is_open_def)
qed

lemma recent_reliable:
  assumes "sqlite_reliable e T" and "is_open db"
  obtains db' where "get_recent_messages e m n db =
      (map message_of_row (recent_rows (c_str m) (of_int n) \<lparr>t_users = [], t_messages = message_rows T db\<rparr>), db')"
    "is_open db'" "message_rows T db' = message_rows T db"
proof -
  obtain ms db' where g: "get_recent_messages e m n db = (ms, db')" by fastforce
  then have "is_open db'" using assms(2) by (cases rule: get_recent_cases) (auto simp: is_open_def)
  moreover have "recent_rows (c_str m) (of_int n) (contents T db) =
      recent_rows (c_str m) (of_int n) \<lparr>t_users = [], t_messages = message_rows T db\<rparr>"
    by (simp add: recent_rows_def message_rows_def)
  ultimately show thesis
    using g get_recent_reliable [OF assms, of m n] get_recent_law [OF sqlite_reliable_documented [OF assms(1)] g]
    by (intro that [of db']) auto
qed

lemma rooms_reliable:
  assumes "sqlite_reliable e T" and "is_open db"
  obtains db' where "list_rooms e n db = (map c_str (sql_limit (of_int n) (sort (remdups (map m_room (message_rows T db))))), db')"
    "is_open db'" "message_rows T db' = message_rows T db"
proof -
  obtain rs db' where l: "list_rooms e n db = (rs, db')" by fastforce
  then have "is_open db'" using assms(2) by (cases rule: list_rooms_cases) (auto simp: is_open_def)
  with l list_rooms_reliable [OF assms, of n] list_rooms_law [OF sqlite_reliable_documented [OF assms(1)] l]
  show thesis by (intro that [of db']) auto
qed

lemma c_strings:
  "c_str ''general'' = ''general''" "c_str ''dev'' = ''dev''" "c_str ''dm:alice:bob'' = ''dm:alice:bob''"
  "c_str ''alice'' = ''alice''" "c_str ''bob'' = ''bob''" "c_str ''hello room'' = ''hello room''"
  "c_str ''hi alice'' = ''hi alice''" "c_str ''hey bob, private note'' = ''hey bob, private note''"
  "c_str ''got it, thanks'' = ''got it, thanks''"
  by code_simp+

lemma dev_before_general: "sort (remdups [''general'', ''general'', ''dev'']) = [''dev'', ''general'']"
  by simp

lemma test_messages_pass:
  assumes rel: "sqlite_reliable e T" and op: "is_open db" and none: "message_rows T db = []"
  shows "test_messages e db"
proof -
  let ?r = "\<lambda>i m u c t. \<lparr>m_id = i, m_room = m, m_user = u, m_content = c, m_sent = t\<rparr> :: message_row"
  let ?r1 = "?r 1 ''general'' ''alice'' ''hello room'' 1000" and ?r2 = "?r 2 ''general'' ''bob'' ''hi alice'' 1001"
  let ?t3 = "''let'' @ [CHR 0x27] @ ''s build''"
  let ?r3 = "?r 3 ''dev'' ''bob'' (c_str ?t3) 1002"
  let ?r4 = "?r 4 ''dm:alice:bob'' ''alice'' ''hey bob, private note'' 2000"
  let ?r5 = "?r 5 ''dm:alice:bob'' ''bob'' ''got it, thanks'' 2001"
  note add = add_reliable [OF rel]
  obtain db1 where 1: "add_message e (chat ''general'' ''alice'' ''hello room'' 1000) db = (True, db1)" "is_open db1"
    "message_rows T db1 = [?r1]"
    by (rule add [OF op, of "chat ''general'' ''alice'' ''hello room'' 1000"]) (simp add: none chat_def c_strings next_id_def)
  obtain db2 where 2: "add_message e (chat ''general'' ''bob'' ''hi alice'' 1001) db1 = (True, db2)" "is_open db2"
    "message_rows T db2 = [?r1, ?r2]"
    by (rule add [OF 1(2), of "chat ''general'' ''bob'' ''hi alice'' 1001"]) (simp add: 1(3) chat_def c_strings next_id_def)
  obtain db3 where 3: "add_message e (chat ''dev'' ''bob'' ?t3 1002) db2 = (True, db3)" "is_open db3"
    "message_rows T db3 = [?r1, ?r2, ?r3]"
    by (rule add [OF 2(2), of "chat ''dev'' ''bob'' ?t3 1002"]) (simp add: 2(3) chat_def c_strings next_id_def)
  obtain db4 where 4: "get_recent_messages e ''general'' 50 db3 = ([message_of_row ?r1, message_of_row ?r2], db4)" "is_open db4"
    "message_rows T db4 = [?r1, ?r2, ?r3]"
    by (rule recent_reliable [OF rel 3(2), of "''general''" 50]) (simp add: 3(3) c_strings recent_rows_def sql_limit_def sent_key_def)
  obtain db5 where 5: "get_recent_messages e ''general'' 1 db4 = ([message_of_row ?r2], db5)" "is_open db5"
    "message_rows T db5 = [?r1, ?r2, ?r3]"
    by (rule recent_reliable [OF rel 4(2), of "''general''" 1]) (simp add: 4(3) c_strings recent_rows_def sql_limit_def sent_key_def)
  obtain db6 where 6: "list_rooms e 100 db5 = ([''dev'', ''general''], db6)" "is_open db6"
    "message_rows T db6 = [?r1, ?r2, ?r3]"
    by (rule rooms_reliable [OF rel 5(2), of 100]) (simp add: 5(3) c_strings sql_limit_def)
  obtain db7 where 7: "add_message e (chat ''dm:alice:bob'' ''alice'' ''hey bob, private note'' 2000) db6 = (True, db7)" "is_open db7"
    "message_rows T db7 = [?r1, ?r2, ?r3, ?r4]"
    by (rule add [OF 6(2), of "chat ''dm:alice:bob'' ''alice'' ''hey bob, private note'' 2000"]) (simp add: 6(3) chat_def c_strings next_id_def)
  obtain db8 where 8: "add_message e (chat ''dm:alice:bob'' ''bob'' ''got it, thanks'' 2001) db7 = (True, db8)" "is_open db8"
    "message_rows T db8 = [?r1, ?r2, ?r3, ?r4, ?r5]"
    by (rule add [OF 7(2), of "chat ''dm:alice:bob'' ''bob'' ''got it, thanks'' 2001"]) (simp add: 7(3) chat_def c_strings next_id_def)
  obtain db9 where 9: "get_recent_messages e ''dm:alice:bob'' 50 db8 = ([message_of_row ?r4, message_of_row ?r5], db9)" "is_open db9"
    "message_rows T db9 = [?r1, ?r2, ?r3, ?r4, ?r5]"
    by (rule recent_reliable [OF rel 8(2), of "''dm:alice:bob''" 50]) (simp add: 8(3) c_strings recent_rows_def sql_limit_def sent_key_def)
  obtain db10 where 10: "get_recent_messages e ''general'' 50 db9 = ([message_of_row ?r1, message_of_row ?r2], db10)"
    by (rule recent_reliable [OF rel 9(2), of "''general''" 50]) (simp add: 9(3) c_strings recent_rows_def sql_limit_def sent_key_def)
  show ?thesis
    unfolding test_messages_def Let_def 1(1) 2(1) 3(1) 4(1) 5(1) 6(1) 7(1) 8(1) 9(1) 10 prod.case
    by (simp add: message_of_row_def c_strings)
qed

section \<open>The outcome of the test\<close>

text \<open>The block of the test on a new database passes on every engine that does not fail, whatever the clock and the
  random bytes, unless the digests of the right and the wrong password under the salt collide.\<close>

theorem database_tests_outcome:
  assumes rel: "sqlite_reliable e T"
    and "sqlite3_open e (c_str path) = (SQLITE_OK, d)" and "T d = empty_tables"
    and "sqlite3_exec e d sql_schema = (SQLITE_OK, d')"
  shows "database_tests e rnd now path \<longleftrightarrow>
    sha256_hex (generate_salt (rnd 0) @ ''password123'') \<noteq> sha256_hex (generate_salt (rnd 0) @ ''wrongpass'')"
proof -
  let ?db = "\<lparr>cd_path = path, cd_db = Some d'\<rparr>"
  have o: "db_open e (ChatDatabase_new path) = (True, ?db)"
    using assms(2,4) by (simp add: db_open_def ChatDatabase_new_def)
  have "T d' = empty_tables"
    using sqlite_reliable_documented [OF rel] assms(3,4) by (auto simp: sqlite_documented_def)
  then have "is_open ?db" "accounts T ?db = Map.empty" "message_rows T ?db = []"
    by (simp_all add: is_open_def accounts_def message_rows_def contents_def empty_tables_def)
  moreover from this(1,2) obtain db' where a: "test_accounts e rnd now ?db =
      (sha256_hex (generate_salt (rnd 0) @ ''password123'') \<noteq> sha256_hex (generate_salt (rnd 0) @ ''wrongpass''), db')"
    "is_open db'" "message_rows T db' = message_rows T ?db" by (rule test_accounts_outcome [OF rel])
  ultimately have "test_messages e db'" by (intro test_messages_pass [OF rel]) simp_all
  then show ?thesis unfolding database_tests_def Let_def o prod.case a(1) by simp
qed

lemma database_tests_outcome_witness:
  "database_tests table_engine (\<lambda>_ _. 0) 0 ''test.db'' \<longleftrightarrow>
     sha256_hex (generate_salt (\<lambda>_. 0) @ ''password123'') \<noteq> sha256_hex (generate_salt (\<lambda>_. 0) @ ''wrongpass'')"
  by (rule database_tests_outcome [OF table_engine_reliable, of _ empty_tables empty_tables]) (simp_all add: table_engine_def)

text \<open>Opening a file whose tables are \<open>t\<close>; the schema script leaves them.\<close>

lemma open_file:
  assumes rel: "sqlite_reliable e T" and "sqlite3_open e' (c_str path) = (SQLITE_OK, d)"
    and "sqlite3_exec e' = sqlite3_exec e" and "sqlite3_exec e d sql_schema = (SQLITE_OK, d')"
  obtains db where "db_open e' (ChatDatabase_new path) = (True, db)" "is_open db" "contents T db = T d"
proof
  show "db_open e' (ChatDatabase_new path) = (True, \<lparr>cd_path = path, cd_db = Some d'\<rparr>)"
    using assms(2-4) by (simp add: db_open_def ChatDatabase_new_def)
  show "contents T \<lparr>cd_path = path, cd_db = Some d'\<rparr> = T d"
    using sqlite_reliable_documented [OF rel] assms(4) by (auto simp: sqlite_documented_def contents_def)
qed (simp add: is_open_def)

text \<open>An account is still there for a second connection that sees what the first has written.\<close>

theorem reopening_outcome:
  assumes rel: "sqlite_reliable e T"
    and new: "sqlite3_open e (c_str path) = (SQLITE_OK, d)" "T d = empty_tables"
    and schema: "\<And>d. \<exists>d'. sqlite3_exec e d sql_schema = (SQLITE_OK, d')"
    and second: "\<And>db. \<exists>d. reopen db (c_str path) = (SQLITE_OK, d) \<and> T d = contents T db"
  shows "test_reopening e reopen rnd now path \<longleftrightarrow>
    sha256_hex (generate_salt (rnd 0) @ ''persist1'') \<noteq> sha256_hex (generate_salt (rnd 0) @ ''wrong'')"
proof -
  let ?h = "hash_password (generate_salt (rnd 0)) ''persist1''"
  have c: "c_str ''carol'' = ''carol''" by code_simp
  obtain d1 where "sqlite3_exec e d sql_schema = (SQLITE_OK, d1)" using schema by blast
  then obtain db where o: "db_open e (ChatDatabase_new path) = (True, db)" "is_open db" "contents T db = T d"
    by (rule open_file [OF rel new(1) refl])
  from o(3) new(2) have "accounts T db = Map.empty" by (simp add: accounts_def empty_tables_def)
  then obtain db1 where 1: "register_user e (rnd 0) now ''carol'' ''persist1'' db = (None, db1)"
      "accounts T db1 = [''carol'' \<mapsto> ?h]"
    using register_new [OF rel o(2), of "''carol''" "rnd 0" now "''persist1''"] c by auto
  obtain d2 where d2: "reopen db1 (c_str path) = (SQLITE_OK, d2)" "T d2 = contents T db1" using second by blast
  obtain d3 where "sqlite3_exec e d2 sql_schema = (SQLITE_OK, d3)" using schema by blast
  then obtain db2 where p: "db_open (e\<lparr>sqlite3_open := reopen db1\<rparr>) (ChatDatabase_new path) = (True, db2)"
      "is_open db2" "contents T db2 = T d2"
    using d2(1) by (elim open_file [OF rel, of "e\<lparr>sqlite3_open := reopen db1\<rparr>" path d2, rotated 2]) simp_all
  have acc: "accounts T db2 = [''carol'' \<mapsto> ?h]" using p(3) d2(2) 1(2) by (simp add: accounts_def)
  obtain db3 where 3: "register_user e (rnd 1) now ''carol'' ''persist1'' db2 = (Some ''username is already taken'', db3)"
      "same_store T db2 db3"
    by (rule register_known [OF rel p(2), of "''carol''" ?h]) (simp_all add: acc c)
  obtain db4 where 4: "authenticate_user e ''carol'' ''persist1'' db3 = (None, db4)" "same_store T db3 db4"
    by (rule login_known [OF rel, of db3 "''carol''" "rnd 0" "''persist1''" "''persist1''"])
      (use 3(2) acc c in \<open>simp_all add: same_store_def\<close>)
  obtain db5 where 5: "authenticate_user e ''carol'' ''wrong'' db4 =
      (if sha256_hex (generate_salt (rnd 0) @ ''persist1'') = sha256_hex (generate_salt (rnd 0) @ ''wrong'')
       then None else Some ''invalid username or password'', db5)" "same_store T db4 db5"
    by (rule login_known [OF rel, of db4 "''carol''" "rnd 0" "''persist1''"])
      (use 3(2) 4(2) acc c in \<open>simp_all add: same_store_def\<close>)
  show ?thesis unfolding test_reopening_def Let_def o(1) 1(1) prod.case p(1) 3(1) 4(1) 5(1) by simp
qed

lemma reopening_outcome_witness:
  "test_reopening table_engine (\<lambda>db _. (SQLITE_OK, contents (\<lambda>d. d) db)) (\<lambda>_ _. 0) 0 ''test.db'' \<longleftrightarrow>
     sha256_hex (generate_salt (\<lambda>_. 0) @ ''persist1'') \<noteq> sha256_hex (generate_salt (\<lambda>_. 0) @ ''wrong'')"
  by (rule reopening_outcome [OF table_engine_reliable, of _ empty_tables]) (simp_all add: table_engine_def)

end
