(* ===== verification/Spec2Isabelle.thy ===== *)
theory Spec2Isabelle
  imports Sha256_Spec Store_Properties Server_Properties Interleaving_Properties Server_Privacy Server_Limits Server_Main
    Client_Properties Client_Main Client_Concurrency History_Delivery Network
    Protocol_Properties Start_Up Compiler_Probe_C Network_Service Protocol_Tests Database_Tests
begin

text \<open>
  A verification of C++ Terminal Chat (the repository's \<^verbatim>\<open>src/\<close>): a TCP
  chat server with accounts, rooms, stored history and direct messages, and its terminal client.

  The program. \<^verbatim>\<open>protocol.cpp\<close> cuts a TCP stream into length-prefixed
  frames and packs typed messages into them; \<^verbatim>\<open>sha256.cpp\<close> is the hash of
  the passwords; \<^verbatim>\<open>chat_db.cpp\<close> keeps accounts and messages in SQLite;
  \<^verbatim>\<open>chat_server.cpp\<close> runs one thread per connection over a shared table of
  clients; \<^verbatim>\<open>chat_client.cpp\<close> has a receive thread that prints what the
  server sends and a main thread that logs in and turns typed lines into requests. The two build
  directories hold the compiler probe CMake generated.

  Which theory models what.

  \<^item> \<open>Chat_Prelude\<close>: machine types, bytes, the collections of rewrite rules.
    \<open>Cpp_String\<close>: the operations of \<^verbatim>\<open>std::string\<close> the code
    uses, \<^verbatim>\<open>stoi\<close>, \<^verbatim>\<open>atoi\<close>,
    \<^verbatim>\<open>to_string\<close>, and \<^verbatim>\<open>trim\<close> and
    \<^verbatim>\<open>valid_username\<close> of the server. \<open>Byte_Order\<close>: big-endian
    numbers.
  \<^item> \<open>Codec_Interface\<close> (locale of a self-delimiting record codec) and
    \<open>Wire_Codec\<close> (the encoders and decoders of
    \<^verbatim>\<open>protocol.cpp\<close>, which interpret it). \<open>Stream_Interface\<close>
    (locale of a decoder fed piece by piece) and \<open>Framing\<close>
    (\<^verbatim>\<open>send_all\<close>, \<^verbatim>\<open>send_frame\<close>,
    \<^verbatim>\<open>extract_frames\<close>).
  \<^item> \<open>Sha256\<close>: the function of \<^verbatim>\<open>sha256.cpp\<close> loop by
    loop; \<open>Sha256_Spec\<close>: FIPS 180-4, with constants computed from the primes, and the
    proof that both agree.
  \<^item> \<open>Sqlite_Engine\<close>: SQLite as a parameter and the meaning of the SQL texts;
    \<open>Store_Interface\<close> (locale of an account and message store) and
    \<open>Chat_Db\<close> (the class \<^verbatim>\<open>ChatDatabase\<close>).
  \<^item> \<open>Server_State\<close> (table of clients, room names, effects),
    \<open>Server_Handlers\<close> (every request handler and
    \<^verbatim>\<open>handle_client\<close>), \<open>Server_Io\<close>
    (\<^verbatim>\<open>read_next_frame\<close>), \<open>Registry_Interface\<close> and
    \<open>Server_Registry\<close> (the contract of the table and its interpretation),
    \<open>Server_Facts\<close> (what each handler does to table and store),
    \<open>Server_System\<close> (whole handlers as steps), \<open>Server_Threads\<close>
    (handlers as programs of critical sections), \<open>Server_Interleaving\<close> (threads that
    interleave between them, and their invariant) and \<open>Interleaving_Runs\<close> (their
    executions), \<open>Server_Main\<close> (start-up and accept loop).
  \<^item> \<open>Client_View\<close> (what is printed), \<open>Client_Session\<close> (receive
    thread, login dialogue, command loop), \<open>Client_Main\<close> (start-up, session, end),
    \<open>Client_Threads\<close> (both threads as a step relation),
    \<open>Client_Interleaving\<close> (their invariant and executions) and
    \<open>Client_Concurrency\<close> (its properties).
  \<^item> \<open>Network\<close>: the server and all its clients as one system, with a queue of
    frames in each direction of each connection.
  \<^item> \<open>Refinement_Interface\<close> (locale of a forward simulation),
    \<open>Chat_Service\<close> (what the program promises its users, as a relation without
    sockets, threads or SQL: who is logged in, who is where, what was posted, who is handed which
    message), \<open>Service_Refinement\<close> (each handler of the server is one step of that
    service) and \<open>Network_Service\<close> (the whole network is the service with a mailbox
    per user).
  \<^item> \<open>Protocol_Tests\<close> and \<open>Database_Tests\<close>: the tests of
    \<^verbatim>\<open>tests/\<close> on the model.
  \<^item> \<open>Compiler_Probe\<close>: \<^verbatim>\<open>CMakeCXXCompilerId.cpp\<close> as
    functions of the predefined macros; \<open>Compiler_Probe_C\<close>:
    \<^verbatim>\<open>CMakeCCompilerId.c\<close> beside it.
  \<^item> The theories named \<open>_Properties\<close>, \<open>Server_Privacy\<close>,
    \<open>Server_Limits\<close>, \<open>End_To_End\<close>, \<open>Delivery\<close>,
    \<open>History_Delivery\<close> and \<open>Start_Up\<close> hold the properties; those that
    need several components stand in the last four.

  How state and effects correspond. A function of the code that changes state is a function from
  the old to the new state; what it sends, closes and logs is a list of effects in order. The
  shared variables of the server (\<^verbatim>\<open>clients\<close>, the database object) are the
  record \<open>server\<close>; a thread's own variables are in its \<open>conn\<close>. The
  concurrent server has two models. In \<open>sys_step\<close> one step is one handler of one
  thread, in any order of the threads. In \<open>fstep\<close> a handler is a program of critical
  sections (\<^verbatim>\<open>clients_mutex\<close> or the mutex of the database) and effects,
  threads interleave between any two of them, and \<^verbatim>\<open>accept\<close> may hand out a
  descriptor that was closed. Every execution of the first is one of the second, with the same
  effects; the invariant of the table and the log of the database hold in the second, privacy of
  recipients only in the first. The two threads of the client share flags and names. Each alone is
  a function, and what the other thread has made of the globals is an argument; in
  \<open>cstep\<close> they interleave between any two looks at a flag, and every finished
  execution of it is one of the functions.

  What is outside. The socket calls (records \<open>net\<close>, \<open>listen_net\<close>,
  \<open>connect_net\<close>), SQLite (\<open>sqlite\<close>), the clock, the random bytes of a
  salt, local time and terminal are parameters. What the code relies on of them are named
  hypotheses: \<open>net_documented\<close> and \<open>recv_documented\<close> (POSIX stream
  sockets), \<open>sqlite_documented\<close> (a statement is carried out or fails without a
  change) and \<open>sqlite_reliable\<close> (it does not fail); witnesses instantiate them with
  concrete functions. An error of \<^verbatim>\<open>send\<close> is a result, as SIGPIPE is
  ignored.

  What the properties show. Wire: a frame is delivered whole or not at all, and any fragmentation
  of the stream gives the same frames; every decoder accepts exactly the encodings. Hash: SHA-256
  is FIPS 180-4. Store: a registered password logs in and no other does without a collision; names
  are unique; a history is the newest messages in order. Service: every run of the server, and of
  the network, is a run of the abstract service with the same deliveries, so a chat or direct
  message on a wire was written by the user it names. Server: in every reachable state the table
  of clients lists exactly the live sessions with their users and rooms; chat reaches every other
  member of the room once and nobody else, from the keyboard of one client to the screens of the
  others, and of those who join later; a handler never waits for another thread; frames go to
  authenticated peers only, as long as no handler is interrupted, and to a stranger in one
  interleaving that is proved as well; a socket is closed once, by its thread; accounts and
  messages are never lost; direct messages are private, up to the leaks of their text and of their
  parties that are proved as well. Client: whatever all of them do, once a client has read what is
  on its way it shows the name and room the server has it under; its requests are well formed, its
  session ends once, whatever the interleaving of its threads, and it never waits forever for
  itself; the names it prints in its prompt are read without a lock. Termination: every loop of
  the code is a total function here (the measures are with the definitions); loops that wait for
  the outside run on the list of what the outside has delivered.

  Bounds. No fuel is used. Frames are limited to 65536 bytes
  (\<open>kMaxFramePayloadSize\<close>), length fields wrap at their width,
  \<^verbatim>\<open>size_t\<close> that only indexes a container is a natural number.

  Not modelled. The branches for Windows; the other generated build files;
  \<^verbatim>\<open>format_time\<close> (time zone of the host); mutexes themselves, since each
  critical section is one step, and they are never nested; the client handles one frame in one
  step. In the tests: the three digests of \<^verbatim>\<open>test_sha256\<close> are not
  computed, as the function is proved equal to the standard on every input.
\<close>

end
